(* ===== verification/Prelude.thy ===== *)
theory Prelude
  imports Main "HOL-Library.Char_ord" "HOL-Library.List_Lexorder" "HOL-Library.Word" "HOL-Library.AList" "HOL-Library.Multiset"
    "HOL-Library.Product_Lexorder" "HOL-Library.Monad_Syntax" "HOL-Library.Code_Target_Numeral"
begin

text \<open>
  Shared vocabulary of the development: results of fallible operations, the reachability
  predicate and the invariant principle used by every concurrent component, and the
  generic facts on lists and maps that several components need.
\<close>

section \<open>Results\<close>

text \<open>
  A Rust \<open>Result<T, E>\<close> is \<open>'e + 'a\<close> with \<open>Inl\<close> the error. \<open>and_then\<close> is the
  \<open>?\<close> operator: it passes an error on and otherwise continues.
\<close>

type_synonym ('e, 'a) result = "'e + 'a"

definition and_then :: "'e + 'a \<Rightarrow> ('a \<Rightarrow> 'e + 'b) \<Rightarrow> 'e + 'b" where
  "and_then r f = (case r of Inl e \<Rightarrow> Inl e | Inr x \<Rightarrow> f x)"

definition map_err :: "('e \<Rightarrow> 'f) \<Rightarrow> 'e + 'a \<Rightarrow> 'f + 'a" where
  "map_err g r = (case r of Inl e \<Rightarrow> Inl (g e) | Inr x \<Rightarrow> Inr x)"

definition ok_or :: "'e \<Rightarrow> 'a option \<Rightarrow> 'e + 'a" where
  "ok_or e v = (case v of None \<Rightarrow> Inl e | Some x \<Rightarrow> Inr x)"

definition is_ok :: "'e + 'a \<Rightarrow> bool" where
  "is_ok r = (case r of Inl _ \<Rightarrow> False | Inr _ \<Rightarrow> True)"

definition unwrap_or :: "'a \<Rightarrow> 'a option \<Rightarrow> 'a" where
  "unwrap_or d v = (case v of None \<Rightarrow> d | Some x \<Rightarrow> x)"

lemma and_then_simps [simp]:
  "and_then (Inl e) f = Inl e" "and_then (Inr x) f = f x"
  by (simp_all add: and_then_def)

lemma map_err_simps [simp]:
  "map_err g (Inl e) = Inl (g e)" "map_err g (Inr x) = Inr x"
  by (simp_all add: map_err_def)

lemma ok_or_simps [simp]:
  "ok_or e None = Inl e" "ok_or e (Some x) = Inr x"
  by (simp_all add: ok_or_def)

lemma is_ok_simps [simp]: "\<not> is_ok (Inl e)" "is_ok (Inr x)"
  by (simp_all add: is_ok_def)

lemma unwrap_or_simps [simp]: "unwrap_or d None = d" "unwrap_or d (Some x) = x"
  by (simp_all add: unwrap_or_def)

lemma and_then_Inr_iff: "and_then r f = Inr y \<longleftrightarrow> (\<exists>x. r = Inr x \<and> f x = Inr y)"
  by (cases r) auto

lemma and_then_Inl_iff:
  "and_then r f = Inl e \<longleftrightarrow> r = Inl e \<or> (\<exists>x. r = Inr x \<and> f x = Inl e)"
  by (cases r) auto

text \<open>
  \<open>collect_results\<close> is \<open>Iterator::collect::<Result<Vec<_>, _>>\<close>: the first error, or all the
  values in order.
\<close>

fun collect_results :: "('e + 'a) list \<Rightarrow> 'e + 'a list" where
  "collect_results [] = Inr []"
| "collect_results (r # rs) =
     and_then r (\<lambda>x. and_then (collect_results rs) (\<lambda>xs. Inr (x # xs)))"

lemma collect_results_Inr_iff:
  "collect_results rs = Inr xs \<longleftrightarrow> rs = map Inr xs"
  by (induction rs arbitrary: xs) (auto simp: and_then_Inr_iff map_eq_Cons_conv Cons_eq_map_conv)

section \<open>Reachable states and invariants\<close>

inductive reach :: "('s \<Rightarrow> bool) \<Rightarrow> ('s \<Rightarrow> 's \<Rightarrow> bool) \<Rightarrow> 's \<Rightarrow> bool"
  for init :: "'s \<Rightarrow> bool" and step :: "'s \<Rightarrow> 's \<Rightarrow> bool" where
  reach_init: "init s \<Longrightarrow> reach init step s"
| reach_step: "reach init step s \<Longrightarrow> step s t \<Longrightarrow> reach init step t"

lemma reach_trans_one:
  "step s t \<Longrightarrow> reach init step s \<Longrightarrow> reach init step t"
  by (rule reach_step)

text \<open>
  The contract between a step relation and an invariant. Its clients get the invariant on
  every reachable state.
\<close>

locale inv_system =
  fixes init :: "'s \<Rightarrow> bool"
    and step :: "'s \<Rightarrow> 's \<Rightarrow> bool"
    and inv :: "'s \<Rightarrow> bool"
  assumes init_inv: "init s \<Longrightarrow> inv s"
    and step_inv: "inv s \<Longrightarrow> step s t \<Longrightarrow> inv t"
begin

lemma reach_inv: "reach init step s \<Longrightarrow> inv s"
  by (induction rule: reach.induct) (auto intro: init_inv step_inv)

lemma steps_inv: "step\<^sup>*\<^sup>* s t \<Longrightarrow> inv s \<Longrightarrow> inv t"
  by (induction rule: rtranclp_induct) (auto intro: step_inv)

end

section \<open>Codecs\<close>

text \<open>
  The contract between an encoder and its decoder: on the values the encoder is meant for, the
  decoder gives back what \<open>view\<close> sees of the value.
\<close>

locale codec =
  fixes enc :: "'a \<Rightarrow> 'b"
    and dec :: "'b \<Rightarrow> 'c"
    and view :: "'a \<Rightarrow> 'c"
    and ok :: "'a \<Rightarrow> bool"
  assumes dec_enc: "ok x \<Longrightarrow> dec (enc x) = view x"
begin

lemma enc_view_inj: "ok x \<Longrightarrow> ok y \<Longrightarrow> enc x = enc y \<Longrightarrow> view x = view y"
  using dec_enc by metis

lemma enc_map_inj:
  "list_all ok xs \<Longrightarrow> list_all ok ys \<Longrightarrow> map enc xs = map enc ys \<Longrightarrow> map view xs = map view ys"
proof (induction xs arbitrary: ys)
  case (Cons x xs)
  then obtain y ys' where "ys = y # ys'" by (cases ys) auto
  then show ?case using Cons enc_view_inj[of x y] by simp
qed simp

lemma dec_map_enc: "list_all ok xs \<Longrightarrow> map (dec \<circ> enc) xs = map view xs"
  by (induction xs) (auto simp: dec_enc)

end

section \<open>Protocol clients\<close>

text \<open>
  The contract every protocol client offers to the connection manager: disconnecting never
  fails, leaves the client unconnected, and can be repeated.
\<close>

locale protocol_client =
  fixes disconnect :: "'c \<Rightarrow> ('e + unit) \<times> 'c"
    and connected :: "'c \<Rightarrow> bool"
  assumes disconnect_ok: "fst (disconnect c) = Inr ()"
    and disconnect_closes: "\<not> connected (snd (disconnect c))"
    and disconnect_again: "snd (disconnect (snd (disconnect c))) = snd (disconnect c)"
begin

lemma disconnect_result: "\<exists>c'. disconnect c = (Inr (), c') \<and> \<not> connected c'"
  using disconnect_ok[of c] disconnect_closes[of c] by (metis prod.collapse)

lemma disconnect_repeat: "0 < n \<Longrightarrow> ((snd \<circ> disconnect) ^^ n) c = snd (disconnect c)"
proof (induction n)
  case (Suc n)
  then show ?case by (cases "n = 0") (simp_all add: disconnect_again)
qed simp

lemma disconnect_fails_never: "fst (disconnect c) \<noteq> Inl e"
  by (simp add: disconnect_ok)

end

section \<open>Lists and maps\<close>

lemma filter_map_option:
  "List.map_filter f xs = map (\<lambda>x. the (f x)) (filter (\<lambda>x. f x \<noteq> None) xs)"
  by (induction xs) (auto simp: List.map_filter_def)

lemma list_all_concat [simp]: "list_all P (concat xss) = list_all (list_all P) xss"
  by (induction xss) auto

lemma map_of_filter_fst:
  "map_of (filter (\<lambda>p. Q (fst p)) xs) k = (if Q k then map_of xs k else None)"
  by (induction xs) auto

lemma distinct_map_fst_update: "distinct (map fst xs) \<Longrightarrow> distinct (map fst (AList.update k v xs))"
  by (rule distinct_update)

lemma map_of_fold_update:
  "map_of (fold (\<lambda>(k, v). AList.update k v) ps m) = map_of m ++ map_of (rev ps)"
  by (induction ps arbitrary: m) (auto simp: update_conv' fun_upd_def map_add_def split: option.splits)

lemma map_of_rev_distinct: "distinct (map fst ps) \<Longrightarrow> map_of (rev ps) = map_of ps"
  by (rule map_of_inject_set[THEN iffD2]) (simp_all add: rev_map[symmetric])

lemma map_of_keys: "map_of (map (\<lambda>k. (k, the (map_of es k))) (sort (map fst es))) = map_of es"
  by (rule map_of_map_keys) (simp add: dom_map_of_conv_image_fst)

lemma map_of_key: "k \<in> set (map fst es) \<Longrightarrow> \<exists>v. map_of es k = Some v"
  by (cases "map_of es k") (simp_all add: map_of_eq_None_iff)

lemma card_dom_upd:
  "finite (dom m) \<Longrightarrow> m k = None \<Longrightarrow> card (dom (m(k \<mapsto> v))) = Suc (card (dom m))"
  by (simp add: domIff)

lemma card_dom_del:
  assumes "finite (dom m)" and "m k = Some v"
  shows "Suc (card (dom (m(k := None)))) = card (dom m)"
proof -
  have "k \<in> dom m" using assms(2) by auto
  then show ?thesis using card.remove[OF assms(1)] by simp
qed

lemma dom_upd_present: "m k = Some v \<Longrightarrow> dom (m(k \<mapsto> w)) = dom m"
  by auto

section \<open>Values of association lists\<close>

lemma update_values:
  "mset (map f (AList.update k v xs)) \<subseteq># add_mset (f (k, v)) (mset (map f xs))"
proof (induction xs)
  case (Cons x xs)
  show ?case
  proof (cases "fst x = k")
    case True
    then show ?thesis by (cases x) simp
  next
    case False
    then show ?thesis using Cons by (cases x) (simp add: add_mset_commute[of "f (k, v)"])
  qed
qed simp

lemma update_same_value:
  "map_of xs k = Some v \<Longrightarrow> f (k, w) = f (k, v) \<Longrightarrow> mset (map f (AList.update k w xs)) = mset (map f xs)"
  by (induction xs) auto

lemma delete_values:
  "map_of xs k = Some v \<Longrightarrow> add_mset v (mset (map snd (AList.delete k xs))) \<subseteq># mset (map snd xs)"
proof (induction xs)
  case (Cons x xs)
  have sub: "mset (map snd (AList.delete k xs)) \<subseteq># mset (map snd xs)"
    by (simp add: AList.delete_eq image_mset_subseteq_mono multiset_filter_subset)
  show ?case
  proof (cases "fst x = k")
    case True
    then show ?thesis using Cons.prems sub by (cases x) simp
  next
    case False
    then show ?thesis using Cons by (cases x) (simp add: add_mset_commute)
  qed
qed simp

lemma delete_values_distinct:
  "distinct (map fst xs) \<Longrightarrow> map_of xs k = Some v \<Longrightarrow> add_mset v (mset (map snd (AList.delete k xs))) = mset (map snd xs)"
proof (induction xs)
  case (Cons x xs)
  show ?case
  proof (cases "fst x = k")
    case True
    then have "k \<notin> fst ` set xs" using Cons.prems(1) by auto
    then have "AList.delete k xs = xs" by (rule delete_id)
    then show ?thesis using True Cons.prems by (cases x) simp
  next
    case False
    then show ?thesis using Cons by (cases x) (simp add: add_mset_commute)
  qed
qed simp

lemma update_values_new:
  "map_of xs k = None \<Longrightarrow> mset (map snd (AList.update k v xs)) = add_mset v (mset (map snd xs))"
  by (induction xs) (auto split: if_splits)

lemma update_values_old:
  "map_of xs k = Some w \<Longrightarrow> add_mset w (mset (map snd (AList.update k v xs))) = add_mset v (mset (map snd xs))"
  by (induction xs) (auto split: if_splits)

lemma delete_absent: "map_of xs k = None \<Longrightarrow> AList.delete k xs = xs"
  by (induction xs) (auto split: if_splits)

lemma filter_parts: "mset (map f (filter P xs)) + mset (map f (filter (\<lambda>x. \<not> P x) xs)) = mset (map f xs)"
  by (induction xs) auto

lemma length_alist_update:
  "length (AList.update k v xs) = (if map_of xs k = None then Suc (length xs) else length xs)"
  by (induction xs) auto

lemma length_alist_delete: "map_of xs k = Some v \<Longrightarrow> Suc (length (AList.delete k xs)) \<le> length xs"
  using delete_values[of xs k v] size_mset_mono by fastforce

lemma upto_mset_split: "a \<le> b \<Longrightarrow> mset [0..<a] + mset [a..<b] = mset [0..<b]"
  using upt_add_eq_append[of 0 a "b - a"] by simp

lemma list_all_set: "list_all P ts \<Longrightarrow> P t \<Longrightarrow> list_all P (ts[i := t])"
  by (auto simp: list_all_iff dest: set_update_subset_insert[THEN subsetD])

lemma distinct_submset: "mset xs \<subseteq># mset ys \<Longrightarrow> distinct ys \<Longrightarrow> distinct xs"
proof -
  assume sub: "mset xs \<subseteq># mset ys" and "distinct ys"
  then have "distinct (xs @ zs)" if "mset zs = mset ys - mset xs" for zs
    using that by (metis mset_append mset_eq_imp_distinct_iff subset_mset.add_diff_inverse)
  moreover obtain zs where "mset zs = mset ys - mset xs" using ex_mset by blast
  ultimately have "distinct (xs @ zs)" by simp
  then show "distinct xs" by simp
qed

lemma map_of_two:
  assumes "distinct (map snd xs)" and "map_of xs a = Some c" and "map_of xs b = Some c"
  shows "a = b"
proof -
  have "(a, c) \<in> set xs" "(b, c) \<in> set xs" using assms(2,3) by (auto dest: map_of_SomeD)
  then show ?thesis using assms(1) by (metis distinct_map inj_onD prod.inject snd_conv)
qed


section \<open>Ownership\<close>

text \<open>
  The contract of a component whose operations run as tasks: the shared state and the tasks own
  handles, handles are given out in order, and a window of a task only moves handles, drops them or
  takes fresh ones. Its clients get that every handle has one owner.
\<close>

lemma sum_list_task:
  fixes f :: "'t \<Rightarrow> 'm::comm_monoid_add"
  assumes "i < length ts"
  shows "\<exists>r. sum_list (map f ts) = r + f (ts ! i) \<and> (\<forall>t. sum_list (map f (ts[i := t])) = r + f t)"
proof -
  let ?a = "take i ts" and ?b = "drop (Suc i) ts"
  have split: "ts = ?a @ ts ! i # ?b" "ts[i := t] = ?a @ t # ?b" for t
    using id_take_nth_drop[OF assms] upd_conv_take_nth_drop[OF assms] by simp_all
  have "sum_list (map f ts) = (sum_list (map f ?a) + sum_list (map f ?b)) + f (ts ! i)"
    using arg_cong[OF split(1), of "\<lambda>l. sum_list (map f l)"]
    by (simp only: map_append list.map sum_list.append sum_list.Cons ac_simps)
  moreover have "sum_list (map f (ts[i := t])) = (sum_list (map f ?a) + sum_list (map f ?b)) + f t" for t
    unfolding split(2) by (simp only: map_append list.map sum_list.append sum_list.Cons ac_simps)
  ultimately show ?thesis by blast
qed

locale task_owners =
  fixes window :: "'i \<Rightarrow> 't \<Rightarrow> 's \<Rightarrow> 't \<times> 's"
    and held :: "'s \<Rightarrow> nat multiset"
    and task_held :: "'t \<Rightarrow> nat multiset"
    and fresh :: "'s \<Rightarrow> nat"
  assumes window_moves: "window inp t s = (t', s') \<Longrightarrow>
      held s' + task_held t' \<subseteq># held s + task_held t + mset [fresh s..<fresh s'] \<and> fresh s \<le> fresh s'"
begin

lemma window_owned:
  assumes own: "held s + sum_list (map task_held ts) \<subseteq># mset [0..<fresh s]"
    and "i < length ts" and w: "window inp (ts ! i) s = (t', s')"
  shows "held s' + sum_list (map task_held (ts[i := t'])) \<subseteq># mset [0..<fresh s']"
proof -
  obtain r where r: "sum_list (map task_held ts) = r + task_held (ts ! i)"
    "sum_list (map task_held (ts[i := t'])) = r + task_held t'"
    using sum_list_task[OF assms(2), of task_held] by blast
  have "held s' + sum_list (map task_held (ts[i := t'])) = (held s' + task_held t') + r"
    unfolding r by simp
  also have "\<dots> \<subseteq># (held s + task_held (ts ! i) + mset [fresh s..<fresh s']) + r"
    using window_moves[OF w] by simp
  also have "\<dots> = (held s + sum_list (map task_held ts)) + mset [fresh s..<fresh s']"
    unfolding r by simp
  also have "\<dots> \<subseteq># mset [0..<fresh s] + mset [fresh s..<fresh s']"
    using own by simp
  also have "\<dots> = mset [0..<fresh s']"
    using window_moves[OF w] by (simp only: upto_mset_split)
  finally show ?thesis .
qed

lemma ended_owned:
  assumes own: "held s + sum_list (map task_held ts) \<subseteq># M" and "i < length ts" and "task_held t' = {#}"
  shows "held s + sum_list (map task_held (ts[i := t'])) \<subseteq># M"
proof -
  obtain r where r: "sum_list (map task_held ts) = r + task_held (ts ! i)"
    "sum_list (map task_held (ts[i := t'])) = r + task_held t'"
    using sum_list_task[OF assms(2), of task_held] by blast
  have "held s + sum_list (map task_held (ts[i := t'])) \<subseteq># held s + sum_list (map task_held ts)"
    unfolding r using assms(3) by simp
  then show ?thesis using own by (rule subset_mset.order_trans)
qed

lemma owned_once:
  assumes own: "held s + sum_list (map task_held ts) \<subseteq># mset [0..<n]" and "h \<in># held s"
  shows "h \<notin># sum_list (map task_held ts)" and "count (held s) h = 1"
proof -
  have "count (held s + sum_list (map task_held ts)) h \<le> count (mset [0..<n]) h"
    using own by (rule mset_subset_eq_count)
  also have "\<dots> \<le> 1" using distinct_count_atmost_1[of "[0..<n]"] by simp
  finally have le: "count (held s) h + count (sum_list (map task_held ts)) h \<le> 1" by simp
  have pos: "0 < count (held s) h" using assms(2) by (simp only: count_greater_zero_iff)
  show "count (held s) h = 1" using le pos by linarith
  have "count (sum_list (map task_held ts)) h = 0" using le pos by linarith
  then show "h \<notin># sum_list (map task_held ts)" by (simp only: not_in_iff)
qed

end

text \<open>
  The stronger contract of a component that also lets go of what it owns: every handle below the
  next one is owned once or gone, and never both.
\<close>

definition accounted :: "nat multiset \<Rightarrow> nat \<Rightarrow> nat set \<Rightarrow> bool" where
  "accounted owned n gone \<longleftrightarrow> (\<exists>lost. owned + lost = mset [0..<n] \<and> set_mset lost = gone)"

lemma accounted_count:
  assumes "accounted owned n gone" and "k < n"
  shows "count owned k = (if k \<in> gone then 0 else 1)"
proof -
  obtain lost where l: "owned + lost = mset [0..<n]" "set_mset lost = gone" using assms(1) by (auto simp: accounted_def)
  have "count owned k + count lost k = count (mset [0..<n]) k" by (simp only: l(1)[symmetric] count_union)
  also have "\<dots> = 1" using assms(2) by (simp add: distinct_count_atmost_1)
  finally have "count owned k + count lost k = 1" .
  moreover have "k \<in> gone \<longleftrightarrow> 0 < count lost k" unfolding l(2)[symmetric] by (simp only: count_greater_zero_iff)
  ultimately show ?thesis by (simp only: split: if_split) linarith
qed

lemma accounted_owned:
  assumes "accounted owned n gone" and "k \<in># owned"
  shows "k < n \<and> k \<notin> gone"
proof -
  obtain lost where l: "owned + lost = mset [0..<n]" using assms(1) by (auto simp: accounted_def)
  have "k \<in># owned + lost" using assms(2) by simp
  then have "k < n" unfolding l by simp
  moreover have "0 < count owned k" using assms(2) by (simp only: count_greater_zero_iff)
  ultimately show ?thesis using accounted_count[OF assms(1), of k] by (simp split: if_splits)
qed

lemma accounted_iff: "accounted owned n gone \<Longrightarrow> k \<in># owned \<longleftrightarrow> k < n \<and> k \<notin> gone"
  using accounted_owned accounted_count[of owned n gone k] by (metis count_eq_zero_iff zero_neq_one)

lemma accounted_subset: "accounted owned n gone \<Longrightarrow> owned \<subseteq># mset [0..<n]"
  by (auto simp: accounted_def) (metis mset_subset_eq_add_left)

locale task_ledger =
  fixes valid :: "'s \<Rightarrow> bool"
    and turn :: "'i \<Rightarrow> 't \<Rightarrow> 's \<Rightarrow> 't \<times> 's"
    and held :: "'s \<Rightarrow> nat multiset"
    and task_held :: "'t \<Rightarrow> nat multiset"
    and fresh :: "'s \<Rightarrow> nat"
    and gone :: "'s \<Rightarrow> nat set"
  assumes turn_moves: "valid s \<Longrightarrow> turn inp t s = (t', s') \<Longrightarrow> fresh s \<le> fresh s' \<and>
      (\<exists>lost. held s' + task_held t' + lost = held s + task_held t + mset [fresh s..<fresh s']
         \<and> gone s' = gone s \<union> set_mset lost)"
begin

lemma turn_accounted:
  assumes own: "accounted (held s + sum_list (map task_held ts)) (fresh s) (gone s)"
    and "valid s" and "i < length ts" and w: "turn inp (ts ! i) s = (t', s')"
  shows "accounted (held s' + sum_list (map task_held (ts[i := t']))) (fresh s') (gone s')"
proof -
  obtain r where r: "sum_list (map task_held ts) = r + task_held (ts ! i)"
    "sum_list (map task_held (ts[i := t'])) = r + task_held t'"
    using sum_list_task[OF assms(3), of task_held] by blast
  obtain lost where m: "fresh s \<le> fresh s'" "gone s' = gone s \<union> set_mset lost"
    "held s' + task_held t' + lost = held s + task_held (ts ! i) + mset [fresh s..<fresh s']"
    using turn_moves[OF assms(2) w] by blast
  obtain old where o: "held s + sum_list (map task_held ts) + old = mset [0..<fresh s]" "set_mset old = gone s"
    using own by (auto simp: accounted_def)
  have "held s' + sum_list (map task_held (ts[i := t'])) + (old + lost)
      = (held s' + task_held t' + lost) + (r + old)" unfolding r by simp
  also have "\<dots> = (held s + sum_list (map task_held ts) + old) + mset [fresh s..<fresh s']"
    unfolding m(3) r by simp
  also have "\<dots> = mset [0..<fresh s']" unfolding o(1) using m(1) by (rule upto_mset_split)
  finally show ?thesis unfolding accounted_def m(2) using o(2) by (intro exI[of _ "old + lost"]) simp
qed

end

end
