(* ===== verification/RustStr.thy ===== *)
theory RustStr
  imports Prelude
begin

text \<open>
  The operations of Rust's \<open>str\<close> that the crates use. A \<open>string\<close> here is the sequence of
  UTF-8 bytes of the Rust string, so \<open>length\<close> is \<open>str::len\<close>, indexes are byte offsets and
  a slice at an offset inside a multi-byte character is an error, as in the source.
  White space is Unicode's \<open>White_Space\<close>, recognised on its UTF-8 encoding.
\<close>

section \<open>Bytes and characters\<close>

definition byte :: "char \<Rightarrow> nat" where
  "byte c = of_char c"

definition is_digit :: "char \<Rightarrow> bool" where
  "is_digit c \<longleftrightarrow> 48 \<le> byte c \<and> byte c \<le> 57"

definition is_upper :: "char \<Rightarrow> bool" where
  "is_upper c \<longleftrightarrow> 65 \<le> byte c \<and> byte c \<le> 90"

definition is_lower :: "char \<Rightarrow> bool" where
  "is_lower c \<longleftrightarrow> 97 \<le> byte c \<and> byte c \<le> 122"

definition is_alpha :: "char \<Rightarrow> bool" where
  "is_alpha c \<longleftrightarrow> is_upper c \<or> is_lower c"

definition is_alnum :: "char \<Rightarrow> bool" where
  "is_alnum c \<longleftrightarrow> is_alpha c \<or> is_digit c"

definition is_ascii :: "string \<Rightarrow> bool" where
  "is_ascii s \<longleftrightarrow> list_all (\<lambda>c. byte c < 128) s"

definition is_cont :: "char \<Rightarrow> bool" where
  "is_cont c \<longleftrightarrow> 128 \<le> byte c \<and> byte c \<le> 191"

definition newline :: char where "newline = CHR 0x0A"
definition carriage :: char where "carriage = CHR 0x0D"
definition tab :: char where "tab = CHR 0x09"
definition quote1 :: char where "quote1 = CHR 0x27"
definition quote2 :: char where "quote2 = CHR 0x22"
definition backslash :: char where "backslash = CHR 0x5C"

named_theorems char_defs
lemmas char_consts [char_defs] =
  newline_def carriage_def tab_def quote1_def quote2_def backslash_def
lemmas char_classes [char_defs] =
  byte_def is_digit_def is_upper_def is_lower_def is_alpha_def is_alnum_def is_cont_def

text \<open>\<open>to_ascii_uppercase\<close> and the ASCII part of \<open>to_lowercase\<close>.\<close>

definition upper_char :: "char \<Rightarrow> char" where
  "upper_char c = (if is_lower c then char_of (byte c - 32) else c)"

definition lower_char :: "char \<Rightarrow> char" where
  "lower_char c = (if is_upper c then char_of (byte c + 32) else c)"

definition to_ascii_uppercase :: "string \<Rightarrow> string" where
  "to_ascii_uppercase s = map upper_char s"

definition to_ascii_lowercase :: "string \<Rightarrow> string" where
  "to_ascii_lowercase s = map lower_char s"

section \<open>Slices\<close>

definition is_char_boundary :: "string \<Rightarrow> nat \<Rightarrow> bool" where
  "is_char_boundary s i \<longleftrightarrow> i = length s \<or> (i < length s \<and> (i = 0 \<or> \<not> is_cont (s ! i)))"

text \<open>\<open>&s[i..]\<close>: \<open>None\<close> is the panic of an offset that is out of range or inside a character.\<close>

definition slice_from :: "string \<Rightarrow> nat \<Rightarrow> string option" where
  "slice_from s i = (if is_char_boundary s i then Some (drop i s) else None)"

lemma is_char_boundary_ascii: "is_ascii s \<Longrightarrow> i \<le> length s \<Longrightarrow> is_char_boundary s i"
  unfolding is_char_boundary_def is_ascii_def is_cont_def list_all_length
  by (metis le_neq_implies_less not_le)

lemma slice_from_ascii: "is_ascii s \<Longrightarrow> i \<le> length s \<Longrightarrow> slice_from s i = Some (drop i s)"
  by (simp add: slice_from_def is_char_boundary_ascii)

lemma is_ascii_drop: "is_ascii s \<Longrightarrow> is_ascii (drop n s)"
  unfolding is_ascii_def list_all_iff by (meson in_set_dropD)

lemma is_ascii_append [simp]: "is_ascii (a @ b) \<longleftrightarrow> is_ascii a \<and> is_ascii b"
  by (simp add: is_ascii_def)

section \<open>Prefixes, search and replacement\<close>

fun strip_prefix :: "string \<Rightarrow> string \<Rightarrow> string option" where
  "strip_prefix [] s = Some s"
| "strip_prefix (p # ps) [] = None"
| "strip_prefix (p # ps) (c # cs) = (if p = c then strip_prefix ps cs else None)"

definition starts_with :: "string \<Rightarrow> string \<Rightarrow> bool" where
  "starts_with p s \<longleftrightarrow> strip_prefix p s \<noteq> None"

definition strip_suffix :: "string \<Rightarrow> string \<Rightarrow> string option" where
  "strip_suffix p s = map_option rev (strip_prefix (rev p) (rev s))"

definition ends_with :: "string \<Rightarrow> string \<Rightarrow> bool" where
  "ends_with p s \<longleftrightarrow> strip_suffix p s \<noteq> None"

fun split_once :: "string \<Rightarrow> string \<Rightarrow> (string \<times> string) option" where
  "split_once p [] = (case strip_prefix p [] of Some r \<Rightarrow> Some ([], r) | None \<Rightarrow> None)"
| "split_once p (c # cs) =
     (case strip_prefix p (c # cs) of
        Some r \<Rightarrow> Some ([], r)
      | None \<Rightarrow> map_option (\<lambda>(a, b). (c # a, b)) (split_once p cs))"

definition rsplit_once :: "string \<Rightarrow> string \<Rightarrow> (string \<times> string) option" where
  "rsplit_once p s = map_option (\<lambda>(a, b). (rev b, rev a)) (split_once (rev p) (rev s))"

definition str_contains :: "string \<Rightarrow> string \<Rightarrow> bool" where
  "str_contains p s \<longleftrightarrow> split_once p s \<noteq> None"

definition replace_char :: "char \<Rightarrow> string \<Rightarrow> string \<Rightarrow> string" where
  "replace_char c r s = concat (map (\<lambda>x. if x = c then r else [x]) s)"

fun join :: "string \<Rightarrow> string list \<Rightarrow> string" where
  "join sep [] = []"
| "join sep [x] = x"
| "join sep (x # y # ys) = x @ sep @ join sep (y # ys)"

lemma strip_prefix_Some_iff: "strip_prefix p s = Some r \<longleftrightarrow> s = p @ r"
  by (induction p s rule: strip_prefix.induct) auto

lemma strip_prefix_append [simp]: "strip_prefix p (p @ r) = Some r"
  by (simp add: strip_prefix_Some_iff)

lemma strip_prefix_length: "strip_prefix p s = Some r \<Longrightarrow> length r \<le> length s"
  by (simp add: strip_prefix_Some_iff)

lemma starts_with_iff: "starts_with p s \<longleftrightarrow> (\<exists>r. s = p @ r)"
  by (cases "strip_prefix p s") (auto simp: starts_with_def strip_prefix_Some_iff)

lemma ends_with_iff: "ends_with p s \<longleftrightarrow> (\<exists>r. s = r @ p)"
proof -
  have "ends_with p s \<longleftrightarrow> starts_with (rev p) (rev s)"
    by (simp add: ends_with_def strip_suffix_def starts_with_def)
  also have "\<dots> \<longleftrightarrow> (\<exists>r. s = r @ p)"
    by (metis starts_with_iff rev_append rev_rev_ident)
  finally show ?thesis .
qed

lemma split_once_Some: "split_once p s = Some (a, b) \<Longrightarrow> s = a @ p @ b"
  by (induction p s arbitrary: a rule: split_once.induct)
     (auto simp: strip_prefix_Some_iff split: option.splits)

lemma split_once_char_absent: "split_once [c] s = None \<longleftrightarrow> c \<notin> set s"
  by (induction "[c]" s rule: split_once.induct) (auto split: option.splits)

lemma split_once_char_present:
  "c \<notin> set a \<Longrightarrow> split_once [c] (a @ c # b) = Some (a, b)"
  by (induction a) auto

lemma split_once_char_first: "split_once [c] s = Some (a, b) \<Longrightarrow> c \<notin> set a"
  by (induction "[c]" s arbitrary: a rule: split_once.induct) (auto split: option.splits if_splits)

lemma str_contains_char: "str_contains [c] s \<longleftrightarrow> c \<in> set s"
  using split_once_char_absent[of c s] by (simp add: str_contains_def)

lemma str_contains_iff: "str_contains p s \<longleftrightarrow> (\<exists>a b. s = a @ p @ b)"
proof
  assume "str_contains p s"
  then show "\<exists>a b. s = a @ p @ b" by (auto simp: str_contains_def dest: split_once_Some)
next
  have here: "split_once p (p @ b) \<noteq> None" for b
    using strip_prefix_append[of p b] by (cases "p @ b") auto
  have "split_once p (a @ p @ b) \<noteq> None" for a b
  proof (induction a)
    case (Cons c a)
    then obtain x y where "split_once p (a @ p @ b) = Some (x, y)" by auto
    then show ?case by (cases "strip_prefix p (c # a @ p @ b)") auto
  qed (simp add: here)
  moreover assume "\<exists>a b. s = a @ p @ b"
  ultimately show "str_contains p s" by (auto simp: str_contains_def)
qed

lemma rsplit_once_char_present:
  assumes "c \<notin> set b"
  shows "rsplit_once [c] (a @ c # b) = Some (a, b)"
  using split_once_char_present[of c "rev b" "rev a"] assms by (simp add: rsplit_once_def)

lemma replace_char_simps [simp]:
  "replace_char c r [] = []"
  "replace_char c r (x # s) = (if x = c then r else [x]) @ replace_char c r s"
  by (simp_all add: replace_char_def)

section \<open>White space\<close>

definition ascii_ws :: "char \<Rightarrow> bool" where
  "ascii_ws c \<longleftrightarrow> (9 \<le> byte c \<and> byte c \<le> 13) \<or> byte c = 32"

definition ws2 :: "char \<Rightarrow> char \<Rightarrow> bool" where
  "ws2 c d \<longleftrightarrow> byte c = 0xC2 \<and> (byte d = 0x85 \<or> byte d = 0xA0)"

definition ws3 :: "char \<Rightarrow> char \<Rightarrow> char \<Rightarrow> bool" where
  "ws3 c d e \<longleftrightarrow>
     (byte c = 0xE1 \<and> byte d = 0x9A \<and> byte e = 0x80) \<or>
     (byte c = 0xE2 \<and> byte d = 0x80 \<and>
        ((0x80 \<le> byte e \<and> byte e \<le> 0x8A) \<or> byte e = 0xA8 \<or> byte e = 0xA9 \<or> byte e = 0xAF)) \<or>
     (byte c = 0xE2 \<and> byte d = 0x81 \<and> byte e = 0x9F) \<or>
     (byte c = 0xE3 \<and> byte d = 0x80 \<and> byte e = 0x80)"

text \<open>The length in bytes of the white-space character at the head, 0 if there is none.\<close>

fun ws_head :: "string \<Rightarrow> nat" where
  "ws_head [] = 0"
| "ws_head [c] = (if ascii_ws c then 1 else 0)"
| "ws_head [c, d] = (if ascii_ws c then 1 else if ws2 c d then 2 else 0)"
| "ws_head (c # d # e # s) =
     (if ascii_ws c then 1 else if ws2 c d then 2 else if ws3 c d e then 3 else 0)"

text \<open>The same at the end of a string, given reversed.\<close>

fun ws_tail :: "string \<Rightarrow> nat" where
  "ws_tail [] = 0"
| "ws_tail [c] = (if ascii_ws c then 1 else 0)"
| "ws_tail [c, d] = (if ascii_ws c then 1 else if ws2 d c then 2 else 0)"
| "ws_tail (c # d # e # s) =
     (if ascii_ws c then 1 else if ws2 d c then 2 else if ws3 e d c then 3 else 0)"

lemma ws_head_le: "ws_head s \<le> length s"
  by (cases s rule: ws_head.cases) auto

lemma ws_tail_le: "ws_tail s \<le> length s"
  by (cases s rule: ws_tail.cases) auto

lemma ws_head_nonzero: "ws_head s \<noteq> 0 \<Longrightarrow> 0 < length s"
  by (cases s rule: ws_head.cases) auto

lemma ws_tail_nonzero: "ws_tail s \<noteq> 0 \<Longrightarrow> 0 < length s"
  by (cases s rule: ws_tail.cases) auto

function trim_start :: "string \<Rightarrow> string" where
  "trim_start s = (if ws_head s = 0 then s else trim_start (drop (ws_head s) s))"
  by pat_completeness auto
termination
  by (relation "measure length") (auto dest: ws_head_nonzero intro: diff_less)

function trim_rev :: "string \<Rightarrow> string" where
  "trim_rev s = (if ws_tail s = 0 then s else trim_rev (drop (ws_tail s) s))"
  by pat_completeness auto
termination
  by (relation "measure length") (auto dest: ws_tail_nonzero intro: diff_less)

declare trim_start.simps [simp del] trim_rev.simps [simp del]

definition trim_end :: "string \<Rightarrow> string" where
  "trim_end s = rev (trim_rev (rev s))"

definition trim :: "string \<Rightarrow> string" where
  "trim s = trim_end (trim_start s)"

text \<open>On a string with no white space at either end, trimming changes nothing.\<close>

lemma trim_start_id: "ws_head s = 0 \<Longrightarrow> trim_start s = s"
  by (simp add: trim_start.simps)

lemma trim_end_id: "ws_tail (rev s) = 0 \<Longrightarrow> trim_end s = s"
  by (simp add: trim_end_def trim_rev.simps)

lemma trim_id: "ws_head s = 0 \<Longrightarrow> ws_tail (rev s) = 0 \<Longrightarrow> trim s = s"
  by (simp add: trim_def trim_start_id trim_end_id)

text \<open>Strings of visible ASCII characters, the common case, are not changed by trimming.\<close>

definition visible :: "char \<Rightarrow> bool" where
  "visible c \<longleftrightarrow> 32 < byte c \<and> byte c < 128"

lemma ws_head_ascii: "byte c < 128 \<Longrightarrow> ws_head (c # s) = (if ascii_ws c then 1 else 0)"
  by (cases "c # s" rule: ws_head.cases) (auto simp: ws2_def ws3_def)

lemma ws_tail_ascii: "byte c < 128 \<Longrightarrow> ws_tail (c # s) = (if ascii_ws c then 1 else 0)"
  by (cases "c # s" rule: ws_tail.cases) (auto simp: ws2_def ws3_def)

lemma visible_not_ws: "visible c \<Longrightarrow> byte c < 128 \<and> \<not> ascii_ws c"
  by (auto simp: visible_def ascii_ws_def)

lemma ws_head_visible: "visible c \<Longrightarrow> ws_head (c # s) = 0"
  using visible_not_ws[of c] by (simp add: ws_head_ascii del: ws_head.simps)

lemma ws_head_space: "ws_head (CHR '' '' # s) = 1"
  by (simp add: ws_head_ascii ascii_ws_def byte_def del: ws_head.simps)

lemma trim_start_ascii:
  "byte c < 128 \<Longrightarrow> trim_start (c # s) = (if ascii_ws c then trim_start s else c # s)"
  by (subst trim_start.simps) (simp add: ws_head_ascii)

lemma trim_rev_ascii:
  "byte c < 128 \<Longrightarrow> trim_rev (c # s) = (if ascii_ws c then trim_rev s else c # s)"
  by (subst trim_rev.simps) (simp add: ws_tail_ascii)

lemma trim_start_Nil [simp]: "trim_start [] = []"
  by (simp add: trim_start.simps)

lemma trim_rev_Nil [simp]: "trim_rev [] = []"
  by (simp add: trim_rev.simps)

lemma trim_Nil [simp]: "trim [] = []"
  by (simp add: trim_def trim_end_def)

lemma trim_start_visible: "visible c \<Longrightarrow> trim_start (c # s) = c # s"
  by (simp add: trim_start_ascii visible_not_ws)

lemma trim_end_visible: "visible c \<Longrightarrow> trim_end (s @ [c]) = s @ [c]"
  by (simp add: trim_end_def trim_rev_ascii visible_not_ws)

lemma trim_visible: "list_all visible s \<Longrightarrow> trim s = s"
proof (cases s)
  case (Cons c t)
  assume v: "list_all visible s"
  then have "visible (last s)" using Cons by (simp add: list_all_iff)
  moreover have "butlast s @ [last s] = s" using Cons by (intro append_butlast_last_id) simp
  ultimately have "trim_end s = s" using trim_end_visible[of "last s" "butlast s"] by metis
  then show ?thesis using v Cons by (simp add: trim_def trim_start_visible)
qed simp

lemma trim_blank_prefix: "trim (CHR '' '' # s) = trim s"
  by (simp add: trim_def trim_start_ascii ascii_ws_def byte_def)

lemma upper_id: "list_all (\<lambda>c. \<not> is_lower c) s \<Longrightarrow> to_ascii_uppercase s = s"
  by (induction s) (auto simp: to_ascii_uppercase_def upper_char_def)

lemma is_upper_visible: "is_upper c \<Longrightarrow> visible c" "is_digit c \<Longrightarrow> visible c"
  by (auto simp: is_upper_def is_digit_def visible_def)

lemma upper_digit_not_lower: "is_upper c \<or> is_digit c \<Longrightarrow> \<not> is_lower c"
  by (auto simp: is_upper_def is_digit_def is_lower_def)

lemma trim_start_suffix: "\<exists>p. s = p @ trim_start s"
proof (induction s rule: trim_start.induct)
  case (1 s)
  show ?case
  proof (cases "ws_head s = 0")
    case True
    then show ?thesis by (simp add: trim_start.simps)
  next
    case False
    then obtain p where "drop (ws_head s) s = p @ trim_start (drop (ws_head s) s)"
      using 1 by blast
    then have "s = (take (ws_head s) s @ p) @ trim_start s"
      using False by (metis append.assoc append_take_drop_id trim_start.simps)
    then show ?thesis by blast
  qed
qed

lemma trim_rev_suffix: "\<exists>p. s = p @ trim_rev s"
proof (induction s rule: trim_rev.induct)
  case (1 s)
  show ?case
  proof (cases "ws_tail s = 0")
    case True
    then show ?thesis by (simp add: trim_rev.simps)
  next
    case False
    then obtain p where "drop (ws_tail s) s = p @ trim_rev (drop (ws_tail s) s)"
      using 1 by blast
    then have "s = (take (ws_tail s) s @ p) @ trim_rev s"
      using False by (metis append.assoc append_take_drop_id trim_rev.simps)
    then show ?thesis by blast
  qed
qed

lemma trim_end_prefix: "\<exists>q. s = trim_end s @ q"
  using trim_rev_suffix[of "rev s"] by (metis rev_append rev_rev_ident trim_end_def)

lemma trim_infix: "\<exists>p q. s = p @ trim s @ q"
  using trim_start_suffix[of s] trim_end_prefix[of "trim_start s"] unfolding trim_def by metis

lemma set_trim_subset: "set (trim s) \<subseteq> set s"
proof -
  obtain p q where "s = p @ trim s @ q" using trim_infix by blast
  then have "set s = set p \<union> set (trim s) \<union> set q" by (metis set_append sup_assoc)
  then show ?thesis by blast
qed

lemma length_trim_start_le: "length (trim_start s) \<le> length s"
  using trim_start_suffix[of s] by (metis le_add2 length_append)

section \<open>Splitting\<close>

text \<open>
  \<open>str::lines\<close>: a line ends at \<open>\n\<close> or \<open>\r\n\<close>; the last line may have no terminator, and then
  keeps a trailing \<open>\r\<close>. The accumulator holds the current line reversed.
\<close>

fun drop_cr :: "string \<Rightarrow> string" where
  "drop_cr [] = []"
| "drop_cr (c # cs) = (if c = carriage then cs else c # cs)"

fun lines_acc :: "string \<Rightarrow> string \<Rightarrow> string list" where
  "lines_acc acc [] = (if acc = [] then [] else [rev acc])"
| "lines_acc acc (c # cs) =
     (if c = newline then rev (drop_cr acc) # lines_acc [] cs else lines_acc (c # acc) cs)"

definition lines :: "string \<Rightarrow> string list" where
  "lines s = lines_acc [] s"

lemma lines_acc_line:
  "newline \<notin> set l \<Longrightarrow> lines_acc acc (l @ newline # rest) = rev (drop_cr (rev l @ acc)) # lines rest"
  by (induction l arbitrary: acc) (auto simp: lines_def)

lemma drop_cr_id: "c \<noteq> carriage \<Longrightarrow> drop_cr (c # cs) = c # cs"
  by simp

lemma lines_line:
  assumes "newline \<notin> set l" and "carriage \<notin> set l"
  shows "lines (l @ newline # rest) = l # lines rest"
proof -
  have "carriage \<notin> set (rev l)" using assms(2) by simp
  then have "drop_cr (rev l) = rev l" by (cases "rev l") auto
  then show ?thesis using lines_acc_line[OF assms(1), of "[]" rest] by (simp add: lines_def)
qed

lemma lines_Nil [simp]: "lines [] = []"
  by (simp add: lines_def)

lemma lines_single: "newline \<notin> set l \<Longrightarrow> l \<noteq> [] \<Longrightarrow> lines l = [l]"
proof -
  have "newline \<notin> set l \<Longrightarrow> lines_acc acc l = (if l = [] \<and> acc = [] then [] else [rev acc @ l])" for acc
    by (induction l arbitrary: acc) auto
  then show "newline \<notin> set l \<Longrightarrow> l \<noteq> [] \<Longrightarrow> lines l = [l]" by (simp add: lines_def)
qed

lemma lines_concat:
  assumes "list_all (\<lambda>l. newline \<notin> set l \<and> carriage \<notin> set l) ls"
  shows "lines (concat (map (\<lambda>l. l @ [newline]) ls)) = ls"
  using assms by (induction ls) (simp_all add: lines_line)

text \<open>Searching a text of lines for a pattern with no line break searches the lines.\<close>

lemma strip_prefix_line:
  "newline \<notin> set p \<Longrightarrow> strip_prefix p (l @ newline # rest) = map_option (\<lambda>r. r @ newline # rest) (strip_prefix p l)"
proof (induction p l rule: strip_prefix.induct)
  case (2 q qs)
  then show ?case by auto
qed auto

lemma split_once_line:
  assumes "newline \<notin> set p" and "p \<noteq> []"
  shows "split_once p (l @ newline # rest) =
    (case split_once p l of
       Some (a, b) \<Rightarrow> Some (a, b @ newline # rest)
     | None \<Rightarrow> map_option (\<lambda>(a, b). (l @ newline # a, b)) (split_once p rest))"
proof (induction l)
  case Nil
  have "strip_prefix p [] = None" "strip_prefix p (newline # rest) = None"
    using assms by (cases p; auto)+
  then show ?case by (cases "split_once p rest") auto
next
  case (Cons c l)
  have s: "strip_prefix p (c # l @ newline # rest) = map_option (\<lambda>r. r @ newline # rest) (strip_prefix p (c # l))"
    using strip_prefix_line[OF assms(1), of "c # l"] by simp
  show ?case
  proof (cases "strip_prefix p (c # l)")
    case None
    then show ?thesis using s Cons by (cases "split_once p l"; cases "split_once p rest") auto
  next
    case (Some r)
    then show ?thesis using s by simp
  qed
qed

lemma split_once_prefix: "p \<noteq> [] \<Longrightarrow> split_once p (p @ b) = Some ([], b)"
  by (cases p) (auto simp: strip_prefix_append[of "_ # _", simplified])

lemma split_once_lines:
  assumes "newline \<notin> set p" and "p \<noteq> []" and "list_all (\<lambda>l. \<not> str_contains p l) ls"
  shows "split_once p (concat (map (\<lambda>l. l @ [newline]) ls) @ p @ b) =
    Some (concat (map (\<lambda>l. l @ [newline]) ls), b)"
  using assms(3)
proof (induction ls)
  case (Cons l ls)
  then have "split_once p l = None" by (cases "split_once p l") (auto simp: str_contains_def)
  then show ?case using Cons by (simp add: split_once_line[OF assms(1,2)])
qed (simp add: split_once_prefix[OF assms(2)])

lemma str_contains_lines:
  assumes "newline \<notin> set p" and "p \<noteq> []"
  shows "str_contains p (concat (map (\<lambda>l. l @ [newline]) ls)) \<longleftrightarrow> list_ex (str_contains p) ls"
proof (induction ls)
  case Nil
  then show ?case using assms(2) by (cases p) (auto simp: str_contains_def)
next
  case (Cons l ls)
  then show ?case
    using split_once_line[OF assms, of l "concat (map (\<lambda>l. l @ [newline]) ls)"]
    by (auto simp: str_contains_def split: option.splits)
qed

text \<open>The longest prefix without a white-space character.\<close>

fun take_word :: "string \<Rightarrow> string" where
  "take_word [] = []"
| "take_word (c # cs) = (if ws_head (c # cs) \<noteq> 0 then [] else c # take_word cs)"

lemma length_take_word_le: "length (take_word s) \<le> length s"
  by (induction s) auto

lemma take_word_nonempty: "s \<noteq> [] \<Longrightarrow> ws_head s = 0 \<Longrightarrow> take_word s \<noteq> []"
  by (cases s) auto

lemma trim_start_head: "ws_head (trim_start s) = 0"
proof (induction s rule: trim_start.induct)
  case (1 s)
  then show ?case by (cases "ws_head s = 0") (auto simp: trim_start.simps[of s])
qed

function split_whitespace :: "string \<Rightarrow> string list" where
  "split_whitespace s =
     (let t = trim_start s; w = take_word t
      in if t = [] then [] else w # split_whitespace (drop (length w) t))"
  by pat_completeness auto
termination
proof (relation "measure length", goal_cases)
  case (2 s t w)
  then have "w \<noteq> []" using trim_start_head take_word_nonempty by simp
  then have "length (drop (length w) t) < length t" using 2 by simp
  then show ?case using length_trim_start_le[of s] 2 by simp
qed simp

declare split_whitespace.simps [simp del]

lemma take_word_visible:
  "list_all visible w \<Longrightarrow> take_word (w @ CHR '' '' # r) = w"
  by (induction w) (simp_all add: ws_head_visible ws_head_space del: ws_head.simps)

lemma take_word_all: "list_all visible w \<Longrightarrow> take_word w = w"
  by (induction w) (simp_all add: ws_head_visible del: ws_head.simps)

lemma trim_visible_ends: "visible c \<Longrightarrow> visible d \<Longrightarrow> trim (c # s @ [d]) = c # s @ [d]"
  using trim_end_visible[of d "c # s"] by (simp add: trim_def trim_start_visible)

text \<open>A line of columns, as command-line tools print it: fields with any number of blanks in front.\<close>

fun padded :: "(nat \<times> string) list \<Rightarrow> string" where
  "padded [] = []"
| "padded ((k, w) # ws) = replicate (Suc k) (CHR '' '') @ w @ padded ws"

definition field :: "string \<Rightarrow> bool" where
  "field w \<longleftrightarrow> w \<noteq> [] \<and> list_all visible w"

lemma split_whitespace_padded:
  "list_all (field \<circ> snd) ws \<Longrightarrow> split_whitespace (padded ws) = map snd ws"
proof (induction ws rule: padded.induct)
  case (2 k w ws)
  obtain c w' where w: "w = c # w'" "visible c" "list_all visible w"
    using 2(2) by (cases w) (auto simp: field_def)
  have "trim_start (replicate n (CHR '' '') @ w @ padded ws) = w @ padded ws" for n
    using w by (induction n) (simp_all add: trim_start_visible trim_start_ascii ascii_ws_def byte_def)
  then have t: "trim_start (padded ((k, w) # ws)) = w @ padded ws"
    by (metis padded.simps(2))
  have "take_word (w @ padded ws) = w"
  proof (cases ws)
    case Nil
    then show ?thesis using w(3) by (simp add: take_word_all)
  next
    case (Cons a list)
    then obtain r where "padded ws = CHR '' '' # r" by (cases a) simp
    then show ?thesis using w(3) by (simp add: take_word_visible)
  qed
  moreover have "split_whitespace (padded ws) = map snd ws" using 2 by simp
  ultimately show ?case
    unfolding split_whitespace.simps[of "padded ((k, w) # ws)"] t Let_def using w(1) by simp
qed (simp add: split_whitespace.simps)

lemma padded_ends_visible:
  "list_all (field \<circ> snd) ws \<Longrightarrow> ws \<noteq> [] \<Longrightarrow> \<exists>p c. padded ws = p @ [c] \<and> visible c"
proof (induction ws rule: padded.induct)
  case (2 k w ws)
  show ?case
  proof (cases ws)
    case Nil
    obtain w' c where "w = w' @ [c]" "visible c"
      using 2(2) by (cases w rule: rev_cases) (auto simp: field_def)
    then show ?thesis using Nil by (intro exI[of _ "replicate (Suc k) (CHR '' '') @ w'"]) auto
  next
    case (Cons a list)
    then obtain p c where "padded ws = p @ [c]" "visible c" using 2 by auto
    then show ?thesis by (intro exI[of _ "replicate (Suc k) (CHR '' '') @ w @ p"]) auto
  qed
qed simp

lemma split_whitespace_line:
  assumes "field w" and "list_all (field \<circ> snd) ws"
  shows "split_whitespace (w @ padded ws) = w # map snd ws"
proof -
  have v: "list_all visible w" "w \<noteq> []" using assms(1) by (simp_all add: field_def)
  then obtain c w' where w: "w = c # w'" "visible c" by (cases w) auto
  have t: "trim_start (w @ padded ws) = w @ padded ws" by (simp add: w trim_start_visible)
  have "take_word (w @ padded ws) = w"
  proof (cases ws)
    case Nil
    then show ?thesis using v by (simp add: take_word_all)
  next
    case (Cons a list)
    then obtain r where "padded ws = CHR '' '' # r" by (cases a) simp
    then show ?thesis using v by (simp add: take_word_visible)
  qed
  then show ?thesis
    unfolding split_whitespace.simps[of "w @ padded ws"] t Let_def
    using v split_whitespace_padded[OF assms(2)] by simp
qed

text \<open>\<open>splitn(n, char::is_whitespace)\<close>: at most \<open>n\<close> pieces, cut at single white-space characters.\<close>

fun splitn_ws :: "nat \<Rightarrow> string \<Rightarrow> string list" where
  "splitn_ws 0 s = []"
| "splitn_ws (Suc 0) s = [s]"
| "splitn_ws (Suc (Suc n)) s =
     (let w = take_word s; r = drop (length w) s
      in if r = [] then [s] else w # splitn_ws (Suc n) (drop (ws_head r) r))"

fun splitn_char :: "nat \<Rightarrow> char \<Rightarrow> string \<Rightarrow> string list" where
  "splitn_char 0 c s = []"
| "splitn_char (Suc 0) c s = [s]"
| "splitn_char (Suc (Suc n)) c s =
     (case split_once [c] s of None \<Rightarrow> [s] | Some (a, b) \<Rightarrow> a # splitn_char (Suc n) c b)"

fun split_char_acc :: "char \<Rightarrow> string \<Rightarrow> string \<Rightarrow> string list" where
  "split_char_acc c acc [] = [rev acc]"
| "split_char_acc c acc (x # xs) =
     (if x = c then rev acc # split_char_acc c [] xs else split_char_acc c (x # acc) xs)"

definition split_char :: "char \<Rightarrow> string \<Rightarrow> string list" where
  "split_char c s = split_char_acc c [] s"

lemma split_char_acc_skip:
  "c \<notin> set a \<Longrightarrow> split_char_acc c acc (a @ r) = split_char_acc c (rev a @ acc) r"
  by (induction a arbitrary: acc) auto

lemma split_char_acc_nonempty [simp]: "split_char_acc c acc s \<noteq> []"
  by (induction c acc s rule: split_char_acc.induct) auto

lemma split_char_none: "c \<notin> set a \<Longrightarrow> split_char c a = [a]"
  using split_char_acc_skip[of c a "[]" "[]"] by (simp add: split_char_def)

lemma split_char_cons: "c \<notin> set a \<Longrightarrow> split_char c (a @ c # r) = a # split_char c r"
  by (simp add: split_char_def split_char_acc_skip)

lemma split_char_acc_append:
  "split_char_acc c acc (a @ b) =
     butlast (split_char_acc c acc a) @ split_char_acc c (rev (last (split_char_acc c acc a))) b"
  by (induction c acc a rule: split_char_acc.induct) auto

lemma split_char_acc_as: "c \<notin> set acc \<Longrightarrow> split_char_acc c (rev acc) b = split_char c (acc @ b)"
  by (simp add: split_char_def split_char_acc_skip)

lemma split_char_acc_clean:
  "c \<notin> set acc \<Longrightarrow> x \<in> set (split_char_acc c acc s) \<Longrightarrow> c \<notin> set x"
  by (induction c acc s rule: split_char_acc.induct) (auto split: if_splits)

lemma split_char_nonempty [simp]: "split_char c s \<noteq> []"
  by (simp add: split_char_def)

lemma split_char_clean: "x \<in> set (split_char c s) \<Longrightarrow> c \<notin> set x"
  using split_char_acc_clean[of c "[]"] by (simp add: split_char_def)

lemma split_char_last_clean: "c \<notin> set (last (split_char c s))"
  by (rule split_char_clean[of _ c s]) simp

lemma split_char_append:
  "split_char c (a @ b) = butlast (split_char c a) @ split_char c (last (split_char c a) @ b)"
proof -
  have "c \<notin> set (last (split_char c a))" by (rule split_char_last_clean)
  then show ?thesis
    using split_char_acc_append[of c "[]" a b] split_char_acc_as[of c "last (split_char c a)" b]
    by (simp add: split_char_def)
qed

text \<open>\<open>s.split(p).next()\<close>: the text before the first \<open>p\<close>, or all of it.\<close>

definition split_first :: "string \<Rightarrow> string \<Rightarrow> string" where
  "split_first p s = (case split_once p s of Some (a, _) \<Rightarrow> a | None \<Rightarrow> s)"

text \<open>\<open>trim_start_matches\<close> and \<open>trim_end_matches\<close> of a string, and of a set of characters.\<close>

function trim_start_matches :: "string \<Rightarrow> string \<Rightarrow> string" where
  "trim_start_matches p s =
     (case strip_prefix p s of
        Some r \<Rightarrow> if p = [] then s else trim_start_matches p r
      | None \<Rightarrow> s)"
  by pat_completeness auto
termination
  by (relation "measure (\<lambda>(p, s). length s)") (auto simp: strip_prefix_Some_iff)

declare trim_start_matches.simps [simp del]

definition trim_end_matches :: "string \<Rightarrow> string \<Rightarrow> string" where
  "trim_end_matches p s = rev (trim_start_matches (rev p) (rev s))"

definition trim_end_chars :: "char list \<Rightarrow> string \<Rightarrow> string" where
  "trim_end_chars cs s = rev (dropWhile (\<lambda>c. c \<in> set cs) (rev s))"

definition trim_chars :: "char list \<Rightarrow> string \<Rightarrow> string" where
  "trim_chars cs s = trim_end_chars cs (dropWhile (\<lambda>c. c \<in> set cs) s)"

section \<open>Numbers\<close>

definition digit_val :: "char \<Rightarrow> nat" where
  "digit_val c = byte c - 48"

definition digit_char :: "nat \<Rightarrow> char" where
  "digit_char d = char_of (48 + d)"

definition digits_val :: "string \<Rightarrow> nat" where
  "digits_val s = foldl (\<lambda>n c. 10 * n + digit_val c) 0 s"

fun nat_str :: "nat \<Rightarrow> string" where
  "nat_str n = (if n < 10 then [digit_char n] else nat_str (n div 10) @ [digit_char (n mod 10)])"

declare nat_str.simps [simp del]

text \<open>
  \<open>str::parse\<close> of an unsigned type with largest value \<open>m\<close>: an optional \<open>+\<close>, then at least one
  digit and nothing else, and no overflow.
\<close>

definition parse_uint :: "nat \<Rightarrow> string \<Rightarrow> nat option" where
  "parse_uint m s =
     (let ds = (case s of [] \<Rightarrow> [] | c # cs \<Rightarrow> if c = CHR ''+'' then cs else s)
      in if ds = [] \<or> \<not> list_all is_digit ds then None
         else if digits_val ds \<le> m then Some (digits_val ds) else None)"

definition u16_max :: nat where "u16_max = 65535"
definition u32_max :: nat where "u32_max = 4294967295"
definition u64_max :: nat where "u64_max = 18446744073709551615"

lemmas int_limits = u16_max_def u32_max_def u64_max_def

lemma of_char_char_of_small: "(n::nat) < 256 \<Longrightarrow> of_char (char_of n) = n"
  by simp

lemma digit_char_facts:
  assumes "d < 10"
  shows "is_digit (digit_char d)" and "digit_val (digit_char d) = d"
  using assms by (auto simp: digit_char_def digit_val_def char_defs of_char_char_of_small)

lemma digits_val_snoc [simp]: "digits_val (s @ [c]) = 10 * digits_val s + digit_val c"
  by (simp add: digits_val_def)

lemma digits_val_Nil [simp]: "digits_val [] = 0"
  by (simp add: digits_val_def)

lemma digits_val_single [simp]: "digits_val [c] = digit_val c"
  by (simp add: digits_val_def)

lemma nat_str_facts:
  "nat_str n \<noteq> [] \<and> list_all is_digit (nat_str n) \<and> digits_val (nat_str n) = n"
proof (induction n rule: nat_str.induct)
  case (1 n)
  show ?case
  proof (cases "n < 10")
    case True
    then show ?thesis by (simp add: nat_str.simps[of n] digit_char_facts)
  next
    case False
    then show ?thesis using 1 by (simp add: nat_str.simps[of n] digit_char_facts)
  qed
qed

lemma nat_str_nonempty [simp]: "nat_str n \<noteq> []"
  using nat_str_facts by blast

lemma nat_str_digits: "list_all is_digit (nat_str n)"
  using nat_str_facts by blast

lemma digits_val_nat_str [simp]: "digits_val (nat_str n) = n"
  using nat_str_facts by blast

lemma nat_str_inject [simp]: "nat_str a = nat_str b \<longleftrightarrow> a = b"
  by (metis digits_val_nat_str)

lemma is_digit_not_plus: "is_digit c \<Longrightarrow> c \<noteq> CHR ''+''"
  by (auto simp: char_defs)

lemma parse_uint_digits:
  "ds \<noteq> [] \<Longrightarrow> list_all is_digit ds \<Longrightarrow>
     parse_uint m ds = (if digits_val ds \<le> m then Some (digits_val ds) else None)"
  by (cases ds) (auto simp: parse_uint_def dest: is_digit_not_plus)

lemma parse_uint_nat_str: "parse_uint m (nat_str n) = (if n \<le> m then Some n else None)"
  by (simp add: parse_uint_digits nat_str_digits)

lemma parse_uint_le: "parse_uint m s = Some n \<Longrightarrow> n \<le> m"
  by (auto simp: parse_uint_def Let_def split: if_splits)

lemma parse_uint_chars:
  "parse_uint m s = Some n \<Longrightarrow> list_all (\<lambda>c. is_digit c \<or> c = CHR ''+'') s"
  by (cases s) (auto simp: parse_uint_def Let_def list_all_iff split: if_splits)

text \<open>Unfolding these evaluates the string operations on literals.\<close>

lemma eq_char_of_iff: "c = char_of n \<longleftrightarrow> of_char c = take_bit 8 n"
  using char_of_eq_iff[of n c] by auto

lemmas str_eval = char_of_eq_iff eq_char_of_iff
  char_consts char_classes ascii_ws_def ws2_def ws3_def trim_def trim_end_def
  trim_start.simps trim_rev.simps split_whitespace.simps parse_uint_def int_limits
  digits_val_def digit_val_def digit_char_def nat_str.simps lines_def
  to_ascii_uppercase_def upper_char_def to_ascii_lowercase_def lower_char_def
  starts_with_def ends_with_def strip_suffix_def rsplit_once_def str_contains_def
  trim_start_matches.simps trim_end_matches_def trim_end_chars_def trim_chars_def
  split_char_def split_first_def Let_def

interpretation decimal: codec nat_str "parse_uint m" Some "\<lambda>n. n \<le> m" for m
  by unfold_locales (simp add: parse_uint_nat_str)

section \<open>UTF-8\<close>

text \<open>
  One step of \<open>String::from_utf8_lossy\<close>: how many bytes the next character takes and whether
  they are valid. An invalid sequence is the longest prefix of a character that is not
  completed (at least one byte).
\<close>

definition byte_in :: "nat \<Rightarrow> nat \<Rightarrow> char \<Rightarrow> bool" where
  "byte_in lo hi c \<longleftrightarrow> lo \<le> byte c \<and> byte c \<le> hi"

definition second_ok :: "nat \<Rightarrow> char \<Rightarrow> bool" where
  "second_ok b d =
     (if b = 0xE0 then byte_in 0xA0 0xBF d
      else if b = 0xED then byte_in 0x80 0x9F d
      else if b = 0xF0 then byte_in 0x90 0xBF d
      else if b = 0xF4 then byte_in 0x80 0x8F d
      else is_cont d)"

fun utf8_step :: "string \<Rightarrow> nat \<times> bool" where
  "utf8_step [] = (0, True)"
| "utf8_step (c # cs) =
     (let b = byte c in
      if b < 0x80 then (1, True)
      else if 0xC2 \<le> b \<and> b \<le> 0xDF then
        (case cs of d # _ \<Rightarrow> if is_cont d then (2, True) else (1, False) | [] \<Rightarrow> (1, False))
      else if 0xE0 \<le> b \<and> b \<le> 0xEF then
        (case cs of
           d # ds \<Rightarrow> if \<not> second_ok b d then (1, False) else
             (case ds of e # _ \<Rightarrow> if is_cont e then (3, True) else (2, False) | [] \<Rightarrow> (2, False))
         | [] \<Rightarrow> (1, False))
      else if 0xF0 \<le> b \<and> b \<le> 0xF4 then
        (case cs of
           d # ds \<Rightarrow> if \<not> second_ok b d then (1, False) else
             (case ds of
                e # es \<Rightarrow> if \<not> is_cont e then (2, False) else
                  (case es of f # _ \<Rightarrow> if is_cont f then (4, True) else (3, False) | [] \<Rightarrow> (3, False))
              | [] \<Rightarrow> (2, False))
         | [] \<Rightarrow> (1, False))
      else (1, False))"

definition replacement :: string where
  "replacement = [CHR 0xEF, CHR 0xBF, CHR 0xBD]"

lemma utf8_step_pos: "s \<noteq> [] \<Longrightarrow> 0 < fst (utf8_step s)"
  by (cases s) (auto simp: Let_def split: list.splits)

function from_utf8_lossy :: "string \<Rightarrow> string" where
  "from_utf8_lossy s =
     (if s = [] then []
      else (let n = fst (utf8_step s)
            in (if snd (utf8_step s) then take n s else replacement) @ from_utf8_lossy (drop n s)))"
  by pat_completeness auto
termination
  by (relation "measure length") (auto dest: utf8_step_pos intro: diff_less)

declare from_utf8_lossy.simps [simp del]

function valid_utf8 :: "string \<Rightarrow> bool" where
  "valid_utf8 s =
     (if s = [] then True
      else if snd (utf8_step s) then valid_utf8 (drop (fst (utf8_step s)) s) else False)"
  by pat_completeness auto
termination
  by (relation "measure length") (auto dest: utf8_step_pos intro: diff_less)

declare valid_utf8.simps [simp del]

lemma from_utf8_lossy_valid: "valid_utf8 s \<Longrightarrow> from_utf8_lossy s = s"
proof (induction s rule: from_utf8_lossy.induct)
  case (1 s)
  show ?case
  proof (cases "s = []")
    case True
    then show ?thesis by (simp add: from_utf8_lossy.simps)
  next
    case False
    then have v: "snd (utf8_step s)" "valid_utf8 (drop (fst (utf8_step s)) s)"
      using 1(2) by (auto simp: valid_utf8.simps[of s] split: if_splits)
    then have "from_utf8_lossy (drop (fst (utf8_step s)) s) = drop (fst (utf8_step s)) s"
      using 1(1)[OF False] by simp
    then show ?thesis using v False by (simp add: from_utf8_lossy.simps[of s] Let_def)
  qed
qed

lemma valid_utf8_ascii: "is_ascii s \<Longrightarrow> valid_utf8 s"
proof (induction s)
  case Nil
  then show ?case by (simp add: valid_utf8.simps)
next
  case (Cons c s)
  then show ?case by (simp add: valid_utf8.simps[of "c # s"] is_ascii_def)
qed

lemma from_utf8_lossy_ascii: "is_ascii s \<Longrightarrow> from_utf8_lossy s = s"
  by (simp add: from_utf8_lossy_valid valid_utf8_ascii)

end
