(* ===== verification/ShellWords.thy ===== *)
theory ShellWords
  imports RustStr
begin

text \<open>
  The abstract side of argument quoting: how a POSIX shell reads one word, and the contract
  \<open>literal_quoting\<close> that a quoting function promises to the code that builds commands.
  Nothing here models code of the repository; the components \<open>Shell\<close>, \<open>Git\<close> and \<open>Tcpdump\<close>
  prove that what they put into a command line satisfies the contract.
\<close>

section \<open>Reading a word\<close>

text \<open>
  \<open>sh_lex\<close> reads a word of which every character stands for itself: single quotes keep
  everything literal, a backslash keeps the next character, an unquoted blank ends the word.
  Any other unquoted character with a meaning of its own (substitution, globbing, redirection,
  separators, comments) makes the result \<open>None\<close>: the word is not a literal one.
\<close>

datatype sh_mode = Bare | Single | Escaped

definition sh_blank :: "char \<Rightarrow> bool" where
  "sh_blank c \<longleftrightarrow> c = CHR '' '' \<or> c = tab \<or> c = newline"

definition sh_special :: "char \<Rightarrow> bool" where
  "sh_special c \<longleftrightarrow> c \<in> set ''$`|&;<>()*?[]#~=%!{}^'' \<or> c = quote2 \<or> c = carriage"

definition emit :: "string \<Rightarrow> (string \<times> string) option \<Rightarrow> (string \<times> string) option" where
  "emit w = map_option (\<lambda>(v, r). (w @ v, r))"

fun sh_lex :: "sh_mode \<Rightarrow> string \<Rightarrow> (string \<times> string) option" where
  "sh_lex Bare [] = Some ([], [])"
| "sh_lex Single [] = None"
| "sh_lex Escaped [] = None"
| "sh_lex Bare (c # cs) =
     (if c = quote1 then sh_lex Single cs
      else if c = backslash then sh_lex Escaped cs
      else if sh_blank c then Some ([], c # cs)
      else if sh_special c then None
      else emit [c] (sh_lex Bare cs))"
| "sh_lex Single (c # cs) =
     (if c = quote1 then sh_lex Bare cs else emit [c] (sh_lex Single cs))"
| "sh_lex Escaped (c # cs) =
     (if c = newline then sh_lex Bare cs else emit [c] (sh_lex Bare cs))"

lemma emit_simps [simp]:
  "emit w None = None" "emit w (Some (v, r)) = Some (w @ v, r)" "emit [] x = x"
  "emit v (emit w x) = emit (v @ w) x"
  by (cases x; auto simp: emit_def)+

lemma sh_lex_length: "sh_lex m s = Some (w, r) \<Longrightarrow> length r \<le> length s"
proof (induction m s arbitrary: w rule: sh_lex.induct)
  case (4 c cs)
  then show ?case by (fastforce simp: emit_def split: if_splits)
next
  case (5 c cs)
  then show ?case by (fastforce simp: emit_def split: if_splits)
next
  case (6 c cs)
  then show ?case by (fastforce simp: emit_def split: if_splits)
qed auto

lemma sh_lex_progress:
  assumes "sh_lex Bare (c # cs) = Some (w, r)" and "\<not> sh_blank c"
  shows "length r < length (c # cs)"
  using assms sh_lex_length by (fastforce simp: emit_def less_Suc_eq_le split: if_splits)

text \<open>All words of a command.\<close>

function sh_words :: "string \<Rightarrow> string list option" where
  "sh_words [] = Some []"
| "sh_words (c # cs) =
     (if sh_blank c then sh_words cs
      else case sh_lex Bare (c # cs) of
             None \<Rightarrow> None
           | Some (w, r) \<Rightarrow> map_option (\<lambda>ws. w # ws) (sh_words r))"
  by pat_completeness auto
termination
  by (relation "measure length") (auto dest: sh_lex_progress simp del: sh_lex.simps)

section \<open>Literal fragments\<close>

text \<open>\<open>sh_literal f w\<close>: wherever the shell meets the text \<open>f\<close> it reads exactly the characters \<open>w\<close>.\<close>

definition sh_literal :: "string \<Rightarrow> string \<Rightarrow> bool" where
  "sh_literal f w \<longleftrightarrow>
     f \<noteq> [] \<and> \<not> sh_blank (hd f) \<and> (\<forall>rest. sh_lex Bare (f @ rest) = emit w (sh_lex Bare rest))"

definition plain_char :: "char \<Rightarrow> bool" where
  "plain_char c \<longleftrightarrow> c \<noteq> quote1 \<and> c \<noteq> backslash \<and> \<not> sh_blank c \<and> \<not> sh_special c"

lemma alnum_plain: "is_alnum c \<Longrightarrow> plain_char c"
  by (auto simp: plain_char_def sh_blank_def sh_special_def char_defs)

lemma nat_str_plain: "list_all plain_char (nat_str n)"
  using nat_str_digits[of n] alnum_plain by (auto simp: list_all_iff is_alnum_def)

lemma sh_lex_plain: "list_all plain_char f \<Longrightarrow> sh_lex Bare (f @ rest) = emit f (sh_lex Bare rest)"
  by (induction f) (auto simp: plain_char_def)

lemma sh_literal_plain: "f \<noteq> [] \<Longrightarrow> list_all plain_char f \<Longrightarrow> sh_literal f f"
  by (cases f) (auto simp: sh_literal_def sh_lex_plain plain_char_def)

lemma sh_lex_single:
  "quote1 \<notin> set s \<Longrightarrow> sh_lex Single (s @ quote1 # rest) = emit s (sh_lex Bare rest)"
  by (induction s) auto

lemma sh_literal_single: "quote1 \<notin> set s \<Longrightarrow> sh_literal (quote1 # s @ [quote1]) s"
  by (auto simp: sh_literal_def sh_lex_single) (simp add: sh_blank_def char_defs)

lemma sh_literal_word:
  "sh_literal f w \<Longrightarrow> sh_blank c \<Longrightarrow> sh_lex Bare (f @ c # rest) = Some (w, c # rest)"
  by (auto simp: sh_literal_def sh_blank_def char_defs)

lemma sh_literal_last: "sh_literal f w \<Longrightarrow> sh_lex Bare f = Some (w, [])"
  unfolding sh_literal_def by (metis append_Nil2 emit_simps(2) sh_lex.simps(1))

lemma sh_words_literal_end:
  assumes "sh_literal f w"
  shows "sh_words f = Some [w]"
proof -
  obtain c cs where f: "f = c # cs" "\<not> sh_blank c"
    using assms by (cases f) (auto simp: sh_literal_def)
  then show ?thesis using sh_literal_last[OF assms] by simp
qed

lemma sh_words_literal_step:
  assumes "sh_literal f w"
  shows "sh_words (f @ CHR '' '' # rest) = map_option (\<lambda>ws. w # ws) (sh_words rest)"
proof -
  obtain c cs where f: "f = c # cs" "\<not> sh_blank c"
    using assms by (cases f) (auto simp: sh_literal_def)
  have "sh_lex Bare (f @ CHR '' '' # rest) = Some (w, CHR '' '' # rest)"
    by (rule sh_literal_word[OF assms]) (simp add: sh_blank_def)
  then show ?thesis using f by (simp add: sh_blank_def del: sh_lex.simps)
qed

lemma sh_words_join:
  "list_all2 sh_literal fs ws \<Longrightarrow> sh_words (join '' '' fs) = Some ws"
proof (induction fs arbitrary: ws rule: induct_list012)
  case 1
  then show ?case by simp
next
  case (2 f)
  then show ?case by (auto simp: list_all2_Cons1 sh_words_literal_end)
next
  case (3 f g fs)
  from "3.prems" obtain w ws' where "ws = w # ws'" "sh_literal f w" "list_all2 sh_literal (g # fs) ws'"
    by (auto simp: list_all2_Cons1)
  with "3.IH"(2) show ?case by (simp add: sh_words_literal_step)
qed

section \<open>The quoting contract\<close>

text \<open>
  \<open>ok\<close> says which arguments the quoting function \<open>q\<close> accepts. The client, code that builds a
  command by joining quoted arguments with blanks, gets that the shell splits the command
  back into exactly those arguments, and that no argument can end a word early.
\<close>

locale literal_quoting =
  fixes ok :: "string \<Rightarrow> bool"
    and q :: "string \<Rightarrow> string"
  assumes quoted_literal: "ok s \<Longrightarrow> sh_literal (q s) s"
begin

lemma command_words: "list_all ok args \<Longrightarrow> sh_words (join '' '' (map q args)) = Some args"
proof (rule sh_words_join)
  assume "list_all ok args"
  then show "list_all2 sh_literal (map q args) args"
    by (induction args) (auto intro: quoted_literal)
qed

lemma quoted_word:
  "ok s \<Longrightarrow> sh_blank c \<Longrightarrow> sh_lex Bare (q s @ c # rest) = Some (s, c # rest)"
  by (rule sh_literal_word[OF quoted_literal])

lemma quoted_inj: "ok s \<Longrightarrow> ok t \<Longrightarrow> q s = q t \<Longrightarrow> s = t"
  using quoted_literal[THEN sh_literal_last] by (metis option.inject prod.inject)

end

end
