(* ===== verification/Shell.thy ===== *)
theory Shell
  imports ShellWords
begin

text \<open>
  \<open>crates/core/src/ssh/shell.rs\<close>: quoting of an argument for a remote POSIX shell, and the
  validation of process ids and signals that are interpolated unquoted.
\<close>

section \<open>Definitions\<close>

definition quote_char :: "char \<Rightarrow> string" where
  "quote_char ch = (if ch = quote1 then [quote1, backslash, quote1, quote1] else [ch])"

definition quote :: "string \<Rightarrow> string" where
  "quote s = quote1 # concat (map quote_char s) @ [quote1]"

datatype shell_error =
    InvalidPid string
  | SignalOutOfRange nat
  | UnknownSignal string

definition validate_pid :: "string \<Rightarrow> shell_error + string" where
  "validate_pid s =
     (let trimmed = trim s
      in case parse_uint u32_max trimmed of
           Some n \<Rightarrow> if n \<ge> 1 then Inr trimmed else Inl (InvalidPid s)
         | None \<Rightarrow> Inl (InvalidPid s))"

definition signal_names :: "string list" where
  "signal_names =
     [''HUP'', ''INT'', ''QUIT'', ''ILL'', ''TRAP'', ''ABRT'', ''BUS'', ''FPE'', ''KILL'',
      ''USR1'', ''SEGV'', ''USR2'', ''PIPE'', ''ALRM'', ''TERM'', ''STKFLT'', ''CHLD'', ''CONT'',
      ''STOP'', ''TSTP'', ''TTIN'', ''TTOU'', ''URG'', ''XCPU'', ''XFSZ'', ''VTALRM'', ''PROF'',
      ''WINCH'', ''IO'', ''PWR'', ''SYS'']"

definition validate_signal :: "string \<Rightarrow> shell_error + string" where
  "validate_signal s =
     (let trimmed = to_ascii_uppercase (trim s);
          trimmed = trim_start_matches ''SIG'' trimmed
      in case parse_uint u32_max trimmed of
           Some n \<Rightarrow> if 1 \<le> n \<and> n \<le> 64 then Inr (nat_str n) else Inl (SignalOutOfRange n)
         | None \<Rightarrow>
             if trimmed \<in> set signal_names then Inr trimmed else Inl (UnknownSignal s))"

section \<open>Quoting\<close>

lemma sh_lex_quoted_body:
  "sh_lex Single (concat (map quote_char s) @ quote1 # rest) = emit s (sh_lex Bare rest)"
proof (induction s)
  case Nil
  then show ?case by simp
next
  case (Cons c s)
  show ?case
  proof (cases "c = quote1")
    case True
    moreover have "backslash \<noteq> quote1" "quote1 \<noteq> newline" by (simp_all add: char_defs)
    ultimately show ?thesis using Cons by (simp add: quote_char_def)
  next
    case False
    then show ?thesis using Cons by (simp add: quote_char_def)
  qed
qed

lemma sh_literal_quote: "sh_literal (quote s) s"
  by (simp add: sh_literal_def quote_def sh_lex_quoted_body) (simp add: sh_blank_def char_defs)

interpretation shell_quote: literal_quoting "\<lambda>_. True" quote
  by unfold_locales (rule sh_literal_quote)

text \<open>
  C13. A remote command made by quoting every argument and joining the results with blanks is
  split by the shell into exactly those arguments, whatever characters they contain: no
  argument can be split, expanded or end the command.
\<close>

theorem quote_command_words: "sh_words (join '' '' (map quote args)) = Some args"
  by (rule shell_quote.command_words) (simp add: list_all_iff)

section \<open>Process ids and signals\<close>

lemma plain_pid_char: "is_digit c \<or> c = CHR ''+'' \<Longrightarrow> plain_char c"
  by (auto simp: plain_char_def sh_blank_def sh_special_def char_defs)

lemma validate_pid_InrD:
  assumes "validate_pid s = Inr p"
  shows "p = trim s \<and> p \<noteq> [] \<and> (\<exists>n. parse_uint u32_max p = Some n \<and> 1 \<le> n)"
  using assms by (auto simp: validate_pid_def Let_def parse_uint_def split: option.splits if_splits)

lemma validate_pid_nat_str:
  "1 \<le> n \<Longrightarrow> n \<le> u32_max \<Longrightarrow> trim s = nat_str n \<Longrightarrow> validate_pid s = Inr (nat_str n)"
  by (simp add: validate_pid_def parse_uint_nat_str)

text \<open>
  Whatever \<open>validate_pid\<close> accepts is a single literal word for the shell and denotes a
  number between 1 and the largest \<open>u32\<close>, so interpolating it unquoted is safe.
\<close>

lemma validate_pid_safe:
  assumes "validate_pid s = Inr p"
  shows "sh_words p = Some [p] \<and> (\<exists>n. parse_uint u32_max p = Some n \<and> 1 \<le> n \<and> n \<le> u32_max)"
proof -
  obtain n where p: "p \<noteq> []" "parse_uint u32_max p = Some n" "1 \<le> n"
    using validate_pid_InrD[OF assms] by blast
  then have "list_all plain_char p"
    using parse_uint_chars plain_pid_char by (auto simp: list_all_iff)
  then have "sh_words p = Some [p]" using p by (intro sh_words_literal_end sh_literal_plain)
  then show ?thesis using p parse_uint_le by blast
qed

lemma validate_pid_safe_witness:
  "sh_words ''42'' = Some [''42''] \<and> (\<exists>n. parse_uint u32_max ''42'' = Some n \<and> 1 \<le> n \<and> n \<le> u32_max)"
proof -
  have "validate_pid '' 42 '' = Inr ''42''" by (simp add: validate_pid_def str_eval)
  then show ?thesis by (rule validate_pid_safe)
qed

lemma signal_names_upper: "list_all (\<lambda>n. n \<noteq> [] \<and> list_all (\<lambda>c. is_upper c \<or> is_digit c) n) signal_names"
  by (simp add: signal_names_def char_classes)

lemma signal_names_bare:
  "list_all (\<lambda>n. strip_prefix ''SIG'' n = None \<and> \<not> is_digit (hd n)) signal_names"
  by (simp add: signal_names_def char_classes)

lemma upper_visible: "list_all (\<lambda>c. is_upper c \<or> is_digit c) s \<Longrightarrow>
  trim s = s \<and> to_ascii_uppercase s = s \<and> list_all plain_char s"
proof -
  assume s: "list_all (\<lambda>c. is_upper c \<or> is_digit c) s"
  then have "list_all visible s" "list_all (\<lambda>c. \<not> is_lower c) s"
    using is_upper_visible upper_digit_not_lower by (auto simp: list_all_iff)
  moreover have "list_all plain_char s"
    using s by (auto simp: list_all_iff plain_char_def sh_blank_def sh_special_def char_defs)
  ultimately show ?thesis by (simp add: trim_visible upper_id)
qed

lemma trim_start_matches_none: "strip_prefix p s = None \<Longrightarrow> trim_start_matches p s = s"
  by (simp add: trim_start_matches.simps)

lemma validate_signal_upper:
  assumes "list_all (\<lambda>c. is_upper c \<or> is_digit c) r" and "strip_prefix ''SIG'' r = None"
  shows "validate_signal r =
    (case parse_uint u32_max r of
       Some n \<Rightarrow> if 1 \<le> n \<and> n \<le> 64 then Inr (nat_str n) else Inl (SignalOutOfRange n)
     | None \<Rightarrow> if r \<in> set signal_names then Inr r else Inl (UnknownSignal r))"
  using upper_visible[OF assms(1)] trim_start_matches_none[OF assms(2)]
  by (simp add: validate_signal_def)

lemma signal_name_fixed:
  assumes "r \<in> set signal_names"
  shows "validate_signal r = Inr r"
proof -
  have r: "r \<noteq> []" "list_all (\<lambda>c. is_upper c \<or> is_digit c) r" "strip_prefix ''SIG'' r = None"
    "\<not> is_digit (hd r)"
    using assms signal_names_upper signal_names_bare by (auto simp: list_all_iff)
  then have "is_upper (hd r)" by (cases r) auto
  then have "hd r \<noteq> CHR ''+''" by (auto simp: char_classes)
  then have "parse_uint u32_max r = None"
    using r by (cases r) (auto simp: parse_uint_def)
  then show ?thesis using r assms by (simp add: validate_signal_upper)
qed

lemma signal_number_fixed:
  assumes "1 \<le> n" and "n \<le> 64"
  shows "validate_signal (nat_str n) = Inr (nat_str n)"
proof -
  have d: "list_all is_digit (nat_str n)" by (rule nat_str_digits)
  have "strip_prefix ''SIG'' (nat_str n) = None"
    using d by (cases "nat_str n") (auto simp: char_classes)
  moreover have "list_all (\<lambda>c. is_upper c \<or> is_digit c) (nat_str n)"
    using d by (simp add: list_all_iff)
  moreover have "n \<le> u32_max" using assms by (simp add: u32_max_def)
  ultimately show ?thesis using assms by (simp add: validate_signal_upper parse_uint_nat_str)
qed

lemma validate_signal_cases:
  assumes "validate_signal s = Inr r"
  shows "r \<in> set signal_names \<or> (\<exists>n. 1 \<le> n \<and> n \<le> 64 \<and> r = nat_str n)"
  using assms by (auto simp: validate_signal_def Let_def split: option.splits if_splits)

text \<open>
  \<open>validate_signal\<close> returns a canonical form: one of the known names without \<open>SIG\<close>, or the
  decimal form of a number between 1 and 64. A canonical form is accepted unchanged, and it is
  one literal word for the shell.
\<close>

lemma validate_signal_canonical:
  assumes "validate_signal s = Inr r"
  shows "validate_signal r = Inr r \<and> sh_words r = Some [r]
    \<and> (r \<in> set signal_names \<or> (\<exists>n. 1 \<le> n \<and> n \<le> 64 \<and> r = nat_str n))"
proof -
  have cases: "r \<in> set signal_names \<or> (\<exists>n. 1 \<le> n \<and> n \<le> 64 \<and> r = nat_str n)"
    by (rule validate_signal_cases[OF assms])
  then have fixed: "validate_signal r = Inr r"
    using signal_name_fixed signal_number_fixed by auto
  have "list_all (\<lambda>c. is_upper c \<or> is_digit c) r \<and> r \<noteq> []"
    using cases signal_names_upper nat_str_digits nat_str_nonempty
    by (auto simp: list_all_iff)
  then have "r \<noteq> [] \<and> list_all plain_char r" using upper_visible by blast
  then show ?thesis using fixed cases by (auto intro: sh_words_literal_end sh_literal_plain)
qed

theorem validate_signal_canonical_witness:
  "validate_signal ''KILL'' = Inr ''KILL'' \<and> sh_words ''KILL'' = Some [''KILL'']
    \<and> (''KILL'' \<in> set signal_names \<or> (\<exists>n. 1 \<le> n \<and> n \<le> 64 \<and> ''KILL'' = nat_str n))"
proof -
  have "validate_signal '' sigkill'' = Inr ''KILL''"
    by (simp add: validate_signal_def signal_names_def str_eval)
  then show ?thesis by (rule validate_signal_canonical)
qed

text \<open>
  The validator is laxer than its documentation: \<open>str::parse\<close> accepts a leading plus sign,
  which is then returned as it stands.
\<close>

lemma validate_pid_accepts_plus: "validate_pid ''+5'' = Inr ''+5''"
  by (simp add: validate_pid_def str_eval)

end
