(* ===== verification/FileEntry.thy ===== *)
theory FileEntry
  imports RustStr
begin

text \<open>
  \<open>crates/core/src/file_entry.rs\<close>, \<open>crates/core/src/transfer.rs\<close> and the listing order of
  \<open>crates/core/src/ssh/sftp_ops.rs\<close>: file entries, the permission string, the errors shared by
  all file transfers, and the order in which listings are shown.

  \<open>chrono\<close> renders timestamps: \<open>render_time\<close> is its formatter, \<open>None\<close> for a time out of range.
  \<open>str::to_lowercase\<close> is the parameter \<open>lower\<close>, since it is defined by the Unicode tables.
\<close>

unbundle bit_operations_syntax

section \<open>Entries\<close>

definition FILE_TRANSFER_CHUNK_SIZE :: nat where
  "FILE_TRANSFER_CHUNK_SIZE = 32 * 1024"

datatype file_entry_type = File | Directory | Symlink

record file_entry =
  fe_name :: string
  fe_size :: nat
  fe_modified :: "string option"
  fe_modified_unix :: "int option"
  fe_permissions :: "string option"
  fe_owner :: "string option"
  fe_group :: "string option"
  fe_type :: file_entry_type

definition format_unix_timestamp :: "(int \<Rightarrow> string option) \<Rightarrow> int \<Rightarrow> string" where
  "format_unix_timestamp render_time secs = unwrap_or ''invalid-timestamp'' (render_time secs)"

definition perm_flags :: "(32 word \<times> char) list" where
  "perm_flags =
     [(256, CHR ''r''), (128, CHR ''w''), (64, CHR ''x''),
      (32, CHR ''r''), (16, CHR ''w''), (8, CHR ''x''),
      (4, CHR ''r''), (2, CHR ''w''), (1, CHR ''x'')]"

definition format_permissions :: "32 word \<Rightarrow> string" where
  "format_permissions mode =
     map (\<lambda>(bit, ch). if mode AND bit \<noteq> 0 then ch else CHR ''-'') perm_flags"

section \<open>Transfer errors\<close>

datatype transfer_error =
    NotConnected string
  | Cancelled
  | Session string
  | Operation string
  | Io string

fun display_transfer_error :: "transfer_error \<Rightarrow> string" where
  "display_transfer_error (NotConnected label) = label @ '' session not connected''"
| "display_transfer_error Cancelled = ''Transfer cancelled''"
| "display_transfer_error (Session message) = message"
| "display_transfer_error (Operation message) = message"
| "display_transfer_error (Io e) = e"

text \<open>\<open>'a'\<close>, the form in which messages show a path.\<close>

definition ticked :: "string \<Rightarrow> string" where
  "ticked s = quote1 # s @ [quote1]"

section \<open>Listing order\<close>

text \<open>
  The comparator of \<open>sort_by\<close>: directories first, then the lower-case name. Its keys are a
  linear order, so the stable \<open>sort_key\<close> of the library is \<open>slice::sort_by\<close>.
\<close>

datatype listing_key = ListingKey bool string

instantiation listing_key :: linorder
begin

fun less_eq_listing_key :: "listing_key \<Rightarrow> listing_key \<Rightarrow> bool" where
  "less_eq_listing_key (ListingKey a_is_dir a_name) (ListingKey b_is_dir b_name) \<longleftrightarrow>
     (if b_is_dir \<noteq> a_is_dir then b_is_dir < a_is_dir else a_name \<le> b_name)"

definition less_listing_key :: "listing_key \<Rightarrow> listing_key \<Rightarrow> bool" where
  "less_listing_key a b \<longleftrightarrow> a \<le> b \<and> \<not> b \<le> (a::listing_key)"

instance
proof
  fix x y z :: listing_key
  show "x < y \<longleftrightarrow> x \<le> y \<and> \<not> y \<le> x" by (simp add: less_listing_key_def)
  show "x \<le> x" by (cases x) simp
  show "x \<le> y \<Longrightarrow> y \<le> z \<Longrightarrow> x \<le> z"
    by (cases x; cases y; cases z) (auto split: if_splits)
  show "x \<le> y \<Longrightarrow> y \<le> x \<Longrightarrow> x = y"
    by (cases x; cases y) (auto split: if_splits)
  show "x \<le> y \<or> y \<le> x"
    by (cases x; cases y) auto
qed

end

definition is_directory :: "file_entry \<Rightarrow> bool" where
  "is_directory e \<longleftrightarrow> fe_type e = Directory"

definition entry_key :: "(string \<Rightarrow> string) \<Rightarrow> file_entry \<Rightarrow> listing_key" where
  "entry_key lower e = ListingKey (is_directory e) (lower (fe_name e))"

definition sort_entries :: "(string \<Rightarrow> string) \<Rightarrow> file_entry list \<Rightarrow> file_entry list" where
  "sort_entries lower es = sort_key (entry_key lower) es"

section \<open>Permission strings\<close>

lemma perm_flags_bits: "perm_flags =
  map (\<lambda>k. (2 ^ k, [CHR ''x'', CHR ''w'', CHR ''r''] ! (k mod 3))) [8, 7, 6, 5, 4, 3, 2, 1, 0]"
  by (simp add: perm_flags_def)

lemma format_permissions_bits:
  "format_permissions mode =
     map (\<lambda>k. if bit mode k then [CHR ''x'', CHR ''w'', CHR ''r''] ! (k mod 3) else CHR ''-'')
       [8, 7, 6, 5, 4, 3, 2, 1, 0]"
  unfolding format_permissions_def perm_flags_bits list.map_comp
  by (rule map_cong) (simp_all add: and_exp_eq_0_iff_not_bit)

lemma all_less_9: "(\<forall>k<9. P k) \<longleftrightarrow> (\<forall>k \<in> set [8, 7, 6, 5, 4, 3, 2, 1, 0::nat]. P k)"
proof -
  have "k < 9 \<longleftrightarrow> k \<in> set [8, 7, 6, 5, 4, 3, 2, 1, 0::nat]" for k by auto
  then show ?thesis by blast
qed

lemma and_511_eq_iff:
  "(m :: 32 word) AND 511 = n AND 511 \<longleftrightarrow> (\<forall>k<9. bit m k = bit n k)"
proof -
  have mask: "(511 :: 32 word) = mask 9" by (simp add: mask_eq_exp_minus_1)
  show ?thesis
  proof
    assume eq: "m AND 511 = n AND 511"
    show "\<forall>k<9. bit m k = bit n k"
    proof (intro allI impI)
      fix k :: nat assume "k < 9"
      moreover have "bit (m AND 511) k = bit (n AND 511) k" using eq by simp
      ultimately show "bit m k = bit n k" by (simp add: mask bit_simps)
    qed
  qed (auto simp: mask bit_simps intro!: bit_word_eqI)
qed

lemma perm_char_inj:
  "((if a then [CHR ''x'', CHR ''w'', CHR ''r''] ! (k mod 3) else CHR ''-'')
     = (if b then [CHR ''x'', CHR ''w'', CHR ''r''] ! (k mod 3) else CHR ''-'')) \<longleftrightarrow> a = b"
proof -
  have "k mod 3 = 0 \<or> k mod 3 = 1 \<or> k mod 3 = 2" by linarith
  then have "[CHR ''x'', CHR ''w'', CHR ''r''] ! (k mod 3) \<noteq> CHR ''-''" by auto
  then show ?thesis by auto
qed

text \<open>
  The permission string has nine characters and shows exactly the nine permission bits: two
  modes are shown alike if and only if they agree on them, whatever their file-type bits.
\<close>

lemma format_permissions_faithful:
  "length (format_permissions m) = 9
   \<and> (format_permissions m = format_permissions n \<longleftrightarrow> m AND 511 = n AND 511)"
  unfolding and_511_eq_iff all_less_9 format_permissions_bits
  by (simp only: perm_char_inj list.map list.inject list.size length_map list.set)
     (simp add: perm_char_inj)

section \<open>Sorted listings\<close>

lemma sort_entries_perm: "mset (sort_entries lower es) = mset es"
  by (simp add: sort_entries_def)

lemma sort_entries_set [simp]: "set (sort_entries lower es) = set es"
  by (simp add: sort_entries_def)

lemma sort_entries_sorted: "sorted (map (entry_key lower) (sort_entries lower es))"
  by (simp add: sort_entries_def)

lemma sort_entries_stable:
  "filter (\<lambda>e. entry_key lower e = k) (sort_entries lower es) = filter (\<lambda>e. entry_key lower e = k) es"
  by (simp add: sort_entries_def sort_key_stable)

lemma sorted_dirs_first:
  "sorted (map (entry_key lower) es) \<Longrightarrow>
   es = filter is_directory es @ filter (\<lambda>e. \<not> is_directory e) es"
proof (induction es)
  case (Cons e es)
  then have IH: "es = filter is_directory es @ filter (\<lambda>e. \<not> is_directory e) es" by simp
  show ?case
  proof (cases "is_directory e")
    case True
    then show ?thesis using IH by simp
  next
    case False
    have "\<not> is_directory x" if "x \<in> set es" for x
    proof -
      have "entry_key lower e \<le> entry_key lower x" using Cons.prems that by simp
      then show ?thesis using False by (simp add: entry_key_def split: if_splits)
    qed
    then have "filter is_directory es = []" "filter (\<lambda>e. \<not> is_directory e) es = es"
      by (auto simp: filter_empty_conv)
    then show ?thesis using False by simp
  qed
qed simp

lemma dir_filter_sorted:
  assumes "sorted (map (entry_key lower) es)"
  shows "sorted (map (lower \<circ> fe_name) (filter (\<lambda>e. is_directory e = d) es))"
  using assms
proof (induction es)
  case (Cons e es)
  then show ?case by (auto simp: entry_key_def split: if_splits)
qed simp

end
