(* ===== verification/HostKeys.thy ===== *)
theory HostKeys
  imports FileEntry
begin

text \<open>
  The trusted host keys: \<open>crates/core/src/ssh/host_keys.rs\<close> and the handshake callback
  \<open>Client::check_server_key\<close> with the messages of \<open>crates/core/src/ssh/mod.rs\<close>.

  The \<open>HashMap\<close> of the store is an association list with distinct keys (only \<open>get\<close>, \<open>insert\<close>,
  \<open>remove\<close> and the sorted keys are used). The disk is explicit: what the file holds, whether the
  directory can be created, and what a failing write leaves behind. The operations on public keys
  come from \<open>russh\<close> and are the parameter \<open>key_ops\<close>.
\<close>

section \<open>Data\<close>

record 'k key_ops =
  public_key_base64 :: "'k \<Rightarrow> string"
  fingerprint :: "'k \<Rightarrow> string"
  parse_public_key :: "string \<Rightarrow> 'k option"

datatype verdict = Known | Unknown | Mismatch string string

record host_key_mismatch =
  mm_host :: string
  mm_port :: "16 word"
  mm_expected :: string
  mm_got :: string
  mm_store_path :: string

record store_access_error =
  sa_host :: string
  sa_port :: "16 word"
  sa_store_path :: string
  sa_operation :: string
  sa_source :: string

datatype verification_failure =
  MismatchFailure host_key_mismatch | StoreAccess store_access_error

type_synonym host_entries = "(string \<times> string) list"

record host_key_store =
  hk_path :: string
  hk_parent :: "string option"
  hk_state :: "host_entries option"

datatype known_file = Missing | Unreadable | Contents string

record disk =
  known_file :: known_file
  mkdir_fails :: bool
  write_fails :: "known_file option"

datatype store_error = ReadFailed string | MkdirFailed string | WriteFailed string

fun display_store_error :: "store_error \<Rightarrow> string" where
  "display_store_error (ReadFailed p) = ''failed to read known_hosts at '' @ p"
| "display_store_error (MkdirFailed p) = ''failed to create '' @ p"
| "display_store_error (WriteFailed p) = ''failed to write '' @ p"

section \<open>The store\<close>

definition new_store :: "string \<Rightarrow> string option \<Rightarrow> host_key_store" where
  "new_store path parent = \<lparr>hk_path = path, hk_parent = parent, hk_state = None\<rparr>"

text \<open>\<open>join\<close> and the two directories are \<open>std::path\<close> and \<open>dirs\<close>.\<close>

definition default_path :: "string option \<Rightarrow> string \<Rightarrow> (string \<Rightarrow> string \<Rightarrow> string) \<Rightarrow> string" where
  "default_path config_dir temp_dir path_join =
     path_join (path_join (unwrap_or temp_dir config_dir) ''r-shell'') ''known_hosts''"

definition make_key :: "string \<Rightarrow> 16 word \<Rightarrow> string" where
  "make_key host port =
     (if port = 22 then host else ''['' @ host @ '']:'' @ nat_str (unat port))"

definition known_hosts_line :: "string \<Rightarrow> (string \<times> string) option" where
  "known_hosts_line line =
     (let trimmed = trim line
      in if trimmed = [] \<or> starts_with ''#'' trimmed then None
         else case splitn_ws 2 trimmed of
           [host_id, key_blob] \<Rightarrow> Some (host_id, trim key_blob)
         | _ \<Rightarrow> None)"

definition parse_known_hosts :: "string \<Rightarrow> host_entries" where
  "parse_known_hosts content =
     fold (\<lambda>line m. case known_hosts_line line of
             Some (host_id, key_blob) \<Rightarrow> AList.update host_id key_blob m
           | None \<Rightarrow> m) (lines content) []"

definition load_from_disk :: "string \<Rightarrow> disk \<Rightarrow> store_error + host_entries" where
  "load_from_disk path d =
     (case known_file d of
        Missing \<Rightarrow> Inr []
      | Unreadable \<Rightarrow> Inl (ReadFailed path)
      | Contents s \<Rightarrow> if valid_utf8 s then Inr (parse_known_hosts s) else Inl (ReadFailed path))"

definition known_hosts_header :: string where
  "known_hosts_header = ''# r-shell known hosts '' @ [CHR 0xE2, CHR 0x80, CHR 0x94]
     @ '' auto-managed, one entry per host'' @ [newline]"

definition render_known_hosts :: "host_entries \<Rightarrow> string" where
  "render_known_hosts entries =
     known_hosts_header @
     concat (map (\<lambda>k. case map_of entries k of Some v \<Rightarrow> k @ '' '' @ v @ [newline] | None \<Rightarrow> [])
       (sort (map fst entries)))"

definition write_to_disk :: "host_key_store \<Rightarrow> host_entries \<Rightarrow> disk \<Rightarrow> (store_error + unit) \<times> disk" where
  "write_to_disk store entries d =
     (case (hk_parent store, mkdir_fails d) of
        (Some parent, True) \<Rightarrow> (Inl (MkdirFailed parent), d)
      | _ \<Rightarrow>
          (case write_fails d of
             Some left_behind \<Rightarrow> (Inl (WriteFailed (hk_path store)), d\<lparr>known_file := left_behind\<rparr>)
           | None \<Rightarrow> (Inr (), d\<lparr>known_file := Contents (render_known_hosts entries)\<rparr>)))"

definition fingerprint_from_stored :: "'k key_ops \<Rightarrow> string \<Rightarrow> string" where
  "fingerprint_from_stored ko blob =
     (case parse_public_key ko blob of
        Some key \<Rightarrow> fingerprint ko key
      | None \<Rightarrow> ''<unparseable stored key>'')"

text \<open>The first lines of \<open>verify\<close>, \<open>trust\<close> and \<open>forget\<close>: the entries, loaded on first use.\<close>

definition ensure_loaded :: "host_key_store \<Rightarrow> disk \<Rightarrow> store_error + host_entries" where
  "ensure_loaded store d =
     (case hk_state store of Some m \<Rightarrow> Inr m | None \<Rightarrow> load_from_disk (hk_path store) d)"

definition verify :: "'k key_ops \<Rightarrow> string \<Rightarrow> 16 word \<Rightarrow> 'k \<Rightarrow> host_key_store \<Rightarrow> disk
    \<Rightarrow> (store_error + verdict) \<times> host_key_store" where
  "verify ko host port key store d =
     (let offered = public_key_base64 ko key;
          offered_fp = fingerprint ko key;
          key_id = make_key host port
      in case ensure_loaded store d of
           Inl e \<Rightarrow> (Inl e, store)
         | Inr entries \<Rightarrow>
             (Inr (case map_of entries key_id of
                     Some stored \<Rightarrow>
                       if stored = offered then Known
                       else Mismatch (fingerprint_from_stored ko stored) offered_fp
                   | None \<Rightarrow> Unknown),
              store\<lparr>hk_state := Some entries\<rparr>))"

definition trust :: "'k key_ops \<Rightarrow> string \<Rightarrow> 16 word \<Rightarrow> 'k \<Rightarrow> host_key_store \<Rightarrow> disk
    \<Rightarrow> (store_error + unit) \<times> host_key_store \<times> disk" where
  "trust ko host port key store d =
     (let offered = public_key_base64 ko key; key_id = make_key host port
      in case ensure_loaded store d of
           Inl e \<Rightarrow> (Inl e, store, d)
         | Inr entries \<Rightarrow>
             (let snapshot = AList.update key_id offered entries
              in case write_to_disk store snapshot d of
                   (Inl e, d') \<Rightarrow> (Inl e, store\<lparr>hk_state := Some entries\<rparr>, d')
                 | (Inr _, d') \<Rightarrow> (Inr (), store\<lparr>hk_state := Some snapshot\<rparr>, d')))"

definition forget :: "string \<Rightarrow> 16 word \<Rightarrow> host_key_store \<Rightarrow> disk
    \<Rightarrow> (store_error + bool) \<times> host_key_store \<times> disk" where
  "forget host port store d =
     (let key_id = make_key host port
      in case ensure_loaded store d of
           Inl e \<Rightarrow> (Inl e, store, d)
         | Inr entries \<Rightarrow>
             (let removed = map_of entries key_id \<noteq> None; snapshot = AList.delete key_id entries
              in if \<not> removed then (Inr False, store\<lparr>hk_state := Some entries\<rparr>, d)
                 else case write_to_disk store snapshot d of
                   (Inl e, d') \<Rightarrow> (Inl e, store\<lparr>hk_state := Some entries\<rparr>, d')
                 | (Inr _, d') \<Rightarrow> (Inr True, store\<lparr>hk_state := Some snapshot\<rparr>, d')))"

section \<open>The handshake callback\<close>

record client =
  cl_host :: string
  cl_port :: "16 word"
  cl_slot :: "verification_failure option"

definition new_client :: "string \<Rightarrow> 16 word \<Rightarrow> client" where
  "new_client host port = \<lparr>cl_host = host, cl_port = port, cl_slot = None\<rparr>"

definition store_failure :: "client \<Rightarrow> host_key_store \<Rightarrow> string \<Rightarrow> store_error \<Rightarrow> verification_failure" where
  "store_failure cl store op e =
     StoreAccess \<lparr>sa_host = cl_host cl, sa_port = cl_port cl, sa_store_path = hk_path store,
                  sa_operation = op, sa_source = display_store_error e\<rparr>"

text \<open>The result is \<open>Inr accepted\<close>, or \<open>Inl\<close> the I/O error given to the SSH library.\<close>

definition check_server_key :: "'k key_ops \<Rightarrow> 'k \<Rightarrow> client \<Rightarrow> host_key_store \<Rightarrow> disk
    \<Rightarrow> (string + bool) \<times> client \<times> host_key_store \<times> disk" where
  "check_server_key ko key cl store d =
     (case verify ko (cl_host cl) (cl_port cl) key store d of
        (Inr Known, store1) \<Rightarrow> (Inr True, cl, store1, d)
      | (Inr Unknown, store1) \<Rightarrow>
          (case trust ko (cl_host cl) (cl_port cl) key store1 d of
             (Inl e, store2, d2) \<Rightarrow>
               (Inl ''failed to persist trusted SSH host key'',
                cl\<lparr>cl_slot := Some (store_failure cl store ''write'' e)\<rparr>, store2, d2)
           | (Inr _, store2, d2) \<Rightarrow> (Inr True, cl, store2, d2))
      | (Inr (Mismatch expected got), store1) \<Rightarrow>
          (Inr False,
           cl\<lparr>cl_slot := Some (MismatchFailure
                \<lparr>mm_host = cl_host cl, mm_port = cl_port cl, mm_expected = expected, mm_got = got,
                 mm_store_path = hk_path store\<rparr>)\<rparr>,
           store1, d)
      | (Inl e, store1) \<Rightarrow>
          (Inl ''failed to access SSH host-key store'',
           cl\<lparr>cl_slot := Some (store_failure cl store ''read'' e)\<rparr>, store1, d))"

definition format_mismatch :: "host_key_mismatch \<Rightarrow> string" where
  "format_mismatch m =
     ''Host key verification failed for '' @ mm_host m @ '':'' @ nat_str (unat (mm_port m)) @ ''.''
     @ [newline] @ ''Expected fingerprint (stored): SHA256:'' @ mm_expected m
     @ [newline] @ ''Offered fingerprint (server):  SHA256:'' @ mm_got m
     @ [newline] @ ''If the remote host legitimately rotated its key, remove the entry from:''
     @ [newline] @ ''  '' @ mm_store_path m"

definition format_store_access_error :: "store_access_error \<Rightarrow> string" where
  "format_store_access_error err =
     ''Host key verification could not complete for '' @ sa_host err @ '':''
     @ nat_str (unat (sa_port err)) @ ''.''
     @ [newline] @ ''r-shell could not '' @ sa_operation err @ '' the trusted host-key store at:''
     @ [newline] @ ''  '' @ sa_store_path err
     @ [newline] @ ''Underlying error: '' @ sa_source err
     @ [newline] @ ''Connection refused to avoid trusting a host key without a durable trust store.''"

fun format_verification_failure :: "verification_failure \<Rightarrow> string" where
  "format_verification_failure (MismatchFailure mismatch) = format_mismatch mismatch"
| "format_verification_failure (StoreAccess err) = format_store_access_error err"

section \<open>Concurrent handshakes\<close>

text \<open>
  Every connection runs \<open>check_server_key\<close> on the shared store, whose mutex is held during
  \<open>verify\<close> and during \<open>trust\<close> but not in between: two lock windows. \<open>conns i\<close> is the host, port
  and offered key of connection \<open>i\<close>.
\<close>

datatype phase = Handshake | Trusting | Accepted | Refused

record tofu_state =
  tofu_store :: host_key_store
  tofu_disk :: disk
  tofu_phase :: "nat \<Rightarrow> phase"

fun after_verify :: "store_error + verdict \<Rightarrow> phase" where
  "after_verify (Inr Known) = Accepted"
| "after_verify (Inr Unknown) = Trusting"
| "after_verify (Inr (Mismatch e g)) = Refused"
| "after_verify (Inl e) = Refused"

fun after_trust :: "store_error + unit \<Rightarrow> phase" where
  "after_trust (Inr u) = Accepted"
| "after_trust (Inl e) = Refused"

definition verify_window :: "'k key_ops \<Rightarrow> string \<times> 16 word \<times> 'k \<Rightarrow> nat \<Rightarrow> tofu_state \<Rightarrow> tofu_state" where
  "verify_window ko c i s =
     (case c of (host, port, key) \<Rightarrow>
        case verify ko host port key (tofu_store s) (tofu_disk s) of
          (v, store) \<Rightarrow> s\<lparr>tofu_store := store, tofu_phase := (tofu_phase s)(i := after_verify v)\<rparr>)"

definition trust_window :: "'k key_ops \<Rightarrow> string \<times> 16 word \<times> 'k \<Rightarrow> nat \<Rightarrow> tofu_state \<Rightarrow> tofu_state" where
  "trust_window ko c i s =
     (case c of (host, port, key) \<Rightarrow>
        case trust ko host port key (tofu_store s) (tofu_disk s) of
          (r, store, d) \<Rightarrow>
            s\<lparr>tofu_store := store, tofu_disk := d, tofu_phase := (tofu_phase s)(i := after_trust r)\<rparr>)"

inductive tofu_step :: "'k key_ops \<Rightarrow> (nat \<Rightarrow> string \<times> 16 word \<times> 'k) \<Rightarrow> tofu_state \<Rightarrow> tofu_state \<Rightarrow> bool"
  for ko :: "'k key_ops" and conns :: "nat \<Rightarrow> string \<times> 16 word \<times> 'k" where
  verify_step: "tofu_phase s i = Handshake \<Longrightarrow> tofu_step ko conns s (verify_window ko (conns i) i s)"
| trust_step: "tofu_phase s i = Trusting \<Longrightarrow> tofu_step ko conns s (trust_window ko (conns i) i s)"

inductive_cases tofu_stepE: "tofu_step ko conns s t"

definition tofu_init :: "disk \<Rightarrow> string \<Rightarrow> string option \<Rightarrow> tofu_state \<Rightarrow> bool" where
  "tofu_init d path parent s \<longleftrightarrow>
     tofu_store s = new_store path parent \<and> tofu_disk s = d \<and> tofu_phase s = (\<lambda>_. Handshake)"

section \<open>The file format\<close>

definition host_token :: "string \<Rightarrow> bool" where
  "host_token h \<longleftrightarrow> h \<noteq> [] \<and> list_all visible h \<and> hd h \<noteq> CHR ''#''"

definition blob_token :: "string \<Rightarrow> bool" where
  "blob_token b \<longleftrightarrow> b \<noteq> [] \<and> list_all visible b"

definition entries_ok :: "host_entries \<Rightarrow> bool" where
  "entries_ok es \<longleftrightarrow> distinct (map fst es) \<and> list_all (\<lambda>(h, b). host_token h \<and> blob_token b) es"

lemma entries_ok_lookup: "entries_ok es \<Longrightarrow> map_of es h = Some b \<Longrightarrow> host_token h \<and> blob_token b"
  by (auto simp: entries_ok_def list_all_iff dest: map_of_SomeD)

lemma splitn_ws_visible:
  "list_all visible h \<Longrightarrow> splitn_ws 2 (h @ CHR '' '' # b) = [h, b]"
  by (simp add: numeral_2_eq_2 take_word_visible ws_head_space Let_def del: ws_head.simps)

lemma known_hosts_line_entry:
  assumes "host_token h" and "blob_token b"
  shows "known_hosts_line (h @ '' '' @ b) = Some (h, b)"
proof -
  obtain c h' where h: "h = c # h'" "visible c" "c \<noteq> CHR ''#''"
    using assms(1) by (cases h) (auto simp: host_token_def)
  obtain b' d where b: "b = b' @ [d]" "visible d"
    using assms(2) by (cases b rule: rev_cases) (auto simp: blob_token_def)
  have "trim (h @ '' '' @ b) = h @ '' '' @ b"
    using trim_visible_ends[OF h(2) b(2), of "h' @ '' '' @ b'"] h(1) b(1) by simp
  moreover have "\<not> starts_with ''#'' (h @ '' '' @ b)" using h by (simp add: starts_with_iff)
  moreover have "splitn_ws 2 (h @ '' '' @ b) = [h, b]"
    using splitn_ws_visible[of h b] assms(1) by (simp add: host_token_def)
  moreover have "trim b = b" using assms(2) trim_visible by (simp add: blob_token_def)
  ultimately show ?thesis using h by (simp add: known_hosts_line_def)
qed

definition header_line :: string where
  "header_line = butlast known_hosts_header"

lemma known_hosts_line_comment: "known_hosts_line (CHR ''#'' # s) = None"
proof -
  have v: "visible (CHR ''#'')" by (simp add: visible_def byte_def)
  obtain q where "CHR ''#'' # s = trim (CHR ''#'' # s) @ q"
    using trim_end_prefix[of "CHR ''#'' # s"] by (auto simp: trim_def trim_start_visible[OF v])
  then have "trim (CHR ''#'' # s) = [] \<or> starts_with ''#'' (trim (CHR ''#'' # s))"
    by (cases "trim (CHR ''#'' # s)") (auto simp: starts_with_iff)
  then show ?thesis by (auto simp: known_hosts_line_def)
qed

lemma header_facts:
  "known_hosts_header = header_line @ [newline]" "known_hosts_line header_line = None"
  "newline \<notin> set header_line" "carriage \<notin> set header_line"
proof -
  show "known_hosts_line header_line = None"
    by (simp add: header_line_def known_hosts_header_def known_hosts_line_comment)
qed (simp_all add: header_line_def known_hosts_header_def newline_def carriage_def)

lemma visible_not_newline: "list_all visible s \<Longrightarrow> newline \<notin> set s \<and> carriage \<notin> set s"
  by (auto simp: list_all_iff visible_def char_consts byte_def)

definition entry_lines :: "host_entries \<Rightarrow> string list" where
  "entry_lines es = map (\<lambda>k. k @ '' '' @ the (map_of es k)) (sort (map fst es))"

lemma render_lines:
  "render_known_hosts es = concat (map (\<lambda>l. l @ [newline]) (header_line # entry_lines es))"
proof -
  have "(case map_of es k of Some v \<Rightarrow> k @ '' '' @ v @ [newline] | None \<Rightarrow> [])
      = (k @ '' '' @ the (map_of es k)) @ [newline]" if "k \<in> set (map fst es)" for k
  proof -
    obtain v where "map_of es k = Some v" using map_of_key[OF \<open>k \<in> set (map fst es)\<close>] by blast
    then show ?thesis by simp
  qed
  then have eq: "map (\<lambda>k. case map_of es k of Some v \<Rightarrow> k @ '' '' @ v @ [newline] | None \<Rightarrow> []) (sort (map fst es))
      = map (\<lambda>k. (k @ '' '' @ the (map_of es k)) @ [newline]) (sort (map fst es))"
    unfolding map_eq_conv set_sort by blast
  show ?thesis
    unfolding render_known_hosts_def eq entry_lines_def header_facts(1) by (simp add: comp_def)
qed

lemma entry_line_facts:
  assumes "entries_ok es" and "k \<in> set (sort (map fst es))"
  shows "host_token k" and "blob_token (the (map_of es k))"
proof -
  obtain v where "map_of es k = Some v" using map_of_key[of k es] assms(2) by auto
  then show "host_token k" "blob_token (the (map_of es k))"
    using entries_ok_lookup[OF assms(1)] by auto
qed

lemma entry_lines_clean:
  "entries_ok es \<Longrightarrow> list_all (\<lambda>l. newline \<notin> set l \<and> carriage \<notin> set l) (entry_lines es)"
  unfolding entry_lines_def list_all_iff
  using entry_line_facts visible_not_newline
  by (auto simp: host_token_def blob_token_def char_consts)

lemma parse_render_fold:
  assumes "entries_ok es"
  shows "parse_known_hosts (render_known_hosts es)
       = fold (\<lambda>(k, v). AList.update k v) (map (\<lambda>k. (k, the (map_of es k))) (sort (map fst es))) []"
proof -
  have ls: "lines (render_known_hosts es) = header_line # entry_lines es"
    unfolding render_lines
    by (rule lines_concat) (simp add: header_facts entry_lines_clean[OF assms])
  have "fold (\<lambda>line m. case known_hosts_line line of Some (h, b) \<Rightarrow> AList.update h b m | None \<Rightarrow> m)
          (map (\<lambda>k. k @ '' '' @ the (map_of es k)) ks) m
      = fold (\<lambda>(k, v). AList.update k v) (map (\<lambda>k. (k, the (map_of es k))) ks) m"
    if "set ks \<subseteq> set (sort (map fst es))" for ks m
    using that
  proof (induction ks arbitrary: m)
    case (Cons k ks)
    then have "k \<in> set (sort (map fst es))" by simp
    from known_hosts_line_entry[OF entry_line_facts[OF assms this]]
    have "known_hosts_line (k @ '' '' @ the (map_of es k)) = Some (k, the (map_of es k))" .
    then show ?case using Cons by simp
  qed simp
  then show ?thesis
    by (simp add: parse_known_hosts_def ls header_facts entry_lines_def)
qed

lemma parse_render:
  assumes "entries_ok es"
  shows "map_of (parse_known_hosts (render_known_hosts es)) = map_of es"
proof -
  have "distinct (map fst (map (\<lambda>k. (k, the (map_of es k))) (sort (map fst es))))"
    using assms by (simp add: entries_ok_def comp_def)
  then show ?thesis
    unfolding parse_render_fold[OF assms] map_of_fold_update map_of_rev_distinct[OF \<open>distinct _\<close>]
    using map_of_keys[of es] by (simp add: comp_def)
qed

interpretation known_hosts: codec render_known_hosts "map_of \<circ> parse_known_hosts" map_of entries_ok
  by unfold_locales (simp add: parse_render)

lemma valid_utf8_ascii_Cons: "byte c < 128 \<Longrightarrow> valid_utf8 (c # s) = valid_utf8 s"
  by (simp add: valid_utf8.simps[of "c # s"])

lemma valid_utf8_dash: "valid_utf8 (CHR 0xE2 # CHR 0x80 # CHR 0x94 # s) = valid_utf8 s"
  by (subst valid_utf8.simps) (simp add: byte_def is_cont_def second_ok_def)

lemma valid_utf8_render:
  assumes "entries_ok es"
  shows "valid_utf8 (render_known_hosts es)"
proof -
  have "is_ascii (concat (map (\<lambda>l. l @ [newline]) (entry_lines es)))"
    unfolding entry_lines_def is_ascii_def list_all_iff
    using entry_line_facts[OF assms]
    by (auto simp: host_token_def blob_token_def list_all_iff visible_def newline_def byte_def)
  then show ?thesis
    by (simp add: render_lines header_line_def known_hosts_header_def valid_utf8_ascii_Cons valid_utf8_dash
        valid_utf8_ascii newline_def byte_def)
qed

lemma load_rendered:
  assumes "entries_ok es" and "known_file d = Contents (render_known_hosts es)"
  obtains es' where "load_from_disk path d = Inr es'" and "map_of es' = map_of es"
  using assms valid_utf8_render parse_render by (simp add: load_from_disk_def)

section \<open>The operations on the entries\<close>

lemma entries_ok_update:
  "entries_ok es \<Longrightarrow> host_token h \<Longrightarrow> blob_token b \<Longrightarrow> entries_ok (AList.update h b es)"
  unfolding entries_ok_def
  by (induction es) (auto simp: list_all_iff dom_update split: if_splits)

lemma entries_ok_delete:
  assumes "entries_ok es"
  shows "entries_ok (AList.delete h es)"
proof -
  have "set (AList.delete h es) \<subseteq> set es" by (auto simp: AList.delete_eq)
  then show ?thesis using assms AList.distinct_delete by (auto simp: entries_ok_def list_all_iff)
qed

lemma map_of_update: "map_of (AList.update h b es) = (map_of es)(h \<mapsto> b)"
  by (simp add: update_conv')

lemma map_of_delete: "map_of (AList.delete h es) = (map_of es)(h := None)"
  by (simp add: delete_conv')

lemma trust_cases:
  assumes "ensure_loaded store d = Inr es"
  shows "(\<exists>d'. trust ko host port key store d
             = (Inr (), store\<lparr>hk_state := Some (AList.update (make_key host port) (public_key_base64 ko key) es)\<rparr>, d')
           \<and> known_file d' = Contents (render_known_hosts
                 (AList.update (make_key host port) (public_key_base64 ko key) es)))
       \<or> (\<exists>e d'. trust ko host port key store d = (Inl e, store\<lparr>hk_state := Some es\<rparr>, d'))"
  using assms
  by (auto simp: trust_def Let_def write_to_disk_def split: option.splits bool.splits)

lemma ensure_loaded_cached [simp]: "ensure_loaded (store\<lparr>hk_state := Some es\<rparr>) d = Inr es"
  by (simp add: ensure_loaded_def)

lemma hk_state_update_idem [simp]: "store\<lparr>hk_state := Some es, hk_state := Some es\<rparr> = store\<lparr>hk_state := Some es\<rparr>"
  by simp

lemma verify_eq:
  "ensure_loaded store d = Inr es \<Longrightarrow>
   verify ko host port key store d =
     (Inr (case map_of es (make_key host port) of
            None \<Rightarrow> Unknown
          | Some b \<Rightarrow> if b = public_key_base64 ko key then Known
                      else Mismatch (fingerprint_from_stored ko b) (fingerprint ko key)),
      store\<lparr>hk_state := Some es\<rparr>)"
  by (simp add: verify_def Let_def split: option.splits)

lemma decides:
  "case check_server_key ko key cl store d of (r, cl', store', d') \<Rightarrow>
     (case ensure_loaded store d of
        Inl e \<Rightarrow> (\<exists>m. r = Inl m) \<and> store' = store \<and> d' = d
          \<and> cl_slot cl' = Some (store_failure cl store ''read'' e)
      | Inr es \<Rightarrow>
          (case map_of es (make_key (cl_host cl) (cl_port cl)) of
             Some b \<Rightarrow> r = Inr (b = public_key_base64 ko key)
               \<and> store' = store\<lparr>hk_state := Some es\<rparr> \<and> d' = d
           | None \<Rightarrow>
               (let es' = AList.update (make_key (cl_host cl) (cl_port cl)) (public_key_base64 ko key) es
                in (r = Inr True \<and> hk_state store' = Some es'
                      \<and> known_file d' = Contents (render_known_hosts es'))
                 \<or> (\<exists>m e. r = Inl m \<and> hk_state store' = Some es
                      \<and> cl_slot cl' = Some (store_failure cl store ''write'' e)))))"
proof (cases "ensure_loaded store d")
  case (Inl e)
  then show ?thesis by (simp add: check_server_key_def verify_def Let_def)
next
  case (Inr es)
  show ?thesis
  proof (cases "map_of es (make_key (cl_host cl) (cl_port cl))")
    case None
    have "ensure_loaded (store\<lparr>hk_state := Some es\<rparr>) d = Inr es" by simp
    from trust_cases[OF this, where ko = ko and key = key and host = "cl_host cl" and port = "cl_port cl"]
    show ?thesis
      using Inr None by (auto simp: check_server_key_def Let_def verify_eq store_failure_def)
  qed (simp add: check_server_key_def verify_eq Inr)
qed

text \<open>A concrete key type for the examples: a key is its own blob and fingerprint.\<close>

definition demo_keys :: "string key_ops" where
  "demo_keys = \<lparr>public_key_base64 = (\<lambda>k. k), fingerprint = (\<lambda>k. k), parse_public_key = Some\<rparr>"

definition demo_disk :: disk where
  "demo_disk = \<lparr>known_file = Missing, mkdir_fails = False, write_fails = None\<rparr>"

lemma accepted_key_known:
  assumes "check_server_key ko key cl store d = (Inr True, cl1, store1, d1)"
  shows "fst (verify ko (cl_host cl) (cl_port cl) key store1 d1) = Inr Known"
proof -
  obtain es where es: "hk_state store1 = Some es"
    "map_of es (make_key (cl_host cl) (cl_port cl)) = Some (public_key_base64 ko key)"
    using decides[where ko = ko and key = key and cl = cl and store = store and d = d] assms
    by (auto simp: Let_def map_of_update split: sum.splits option.splits)
  then have "ensure_loaded store1 d1 = Inr es" by (simp add: ensure_loaded_def)
  then show ?thesis using es by (simp add: verify_eq)
qed

lemma demo_trust:
  "trust demo_keys ''h'' 22 ''k'' (new_store ''f'' None) demo_disk
     = (Inr (), \<lparr>hk_path = ''f'', hk_parent = None, hk_state = Some [(''h'', ''k'')]\<rparr>,
        demo_disk\<lparr>known_file := Contents (render_known_hosts [(''h'', ''k'')])\<rparr>)"
  by (simp add: trust_def demo_keys_def new_store_def demo_disk_def ensure_loaded_def
      load_from_disk_def make_key_def write_to_disk_def Let_def)

text \<open>
  C1. What the handshake callback does with an offered key, by the entries of the store: a host
  with an entry is accepted exactly when the stored blob is the offered one, and nothing
  changes; a host without one is accepted only after the entry has reached the file and the
  cache; when the store cannot be read or written the key is not accepted and no entry is
  added to the cache.
\<close>

theorem check_server_key_decides:
  "case check_server_key ko key cl store d of (r, cl', store', d') \<Rightarrow>
     (case ensure_loaded store d of
        Inl e \<Rightarrow> (\<exists>m. r = Inl m) \<and> store' = store \<and> d' = d
          \<and> cl_slot cl' = Some (store_failure cl store ''read'' e)
      | Inr es \<Rightarrow>
          (case map_of es (make_key (cl_host cl) (cl_port cl)) of
             Some b \<Rightarrow> r = Inr (b = public_key_base64 ko key)
               \<and> store' = store\<lparr>hk_state := Some es\<rparr> \<and> d' = d
           | None \<Rightarrow>
               (let es' = AList.update (make_key (cl_host cl) (cl_port cl)) (public_key_base64 ko key) es
                in (r = Inr True \<and> hk_state store' = Some es'
                      \<and> known_file d' = Contents (render_known_hosts es'))
                 \<or> (\<exists>m e. r = Inl m \<and> hk_state store' = Some es
                      \<and> cl_slot cl' = Some (store_failure cl store ''write'' e)))))"
  by (rule decides)

text \<open>
  C2. Trust on first use pins the key: once a key has been accepted for a host and port, a
  handshake with a different key is refused, the store and the file stay as they are, and the
  report shows the fingerprints of both keys.
\<close>

theorem accepted_key_is_pinned:
  assumes "check_server_key ko key cl store d = (Inr True, cl1, store1, d1)"
    and "cl_host cl2 = cl_host cl" and "cl_port cl2 = cl_port cl"
    and "public_key_base64 ko key' \<noteq> public_key_base64 ko key"
  shows "\<exists>cl3 m. check_server_key ko key' cl2 store1 d1 = (Inr False, cl3, store1, d1)
     \<and> cl_slot cl3 = Some (MismatchFailure m)
     \<and> mm_expected m = fingerprint_from_stored ko (public_key_base64 ko key)
     \<and> mm_got m = fingerprint ko key'"
proof -
  obtain es where es: "hk_state store1 = Some es"
    "map_of es (make_key (cl_host cl) (cl_port cl)) = Some (public_key_base64 ko key)"
    using decides[where ko = ko and key = key and cl = cl and store = store and d = d] assms(1)
    by (auto simp: Let_def map_of_update split: sum.splits option.splits)
  then have l: "ensure_loaded store1 d1 = Inr es" and st: "store1\<lparr>hk_state := Some es\<rparr> = store1"
    by (simp_all add: ensure_loaded_def)
  have "verify ko (cl_host cl2) (cl_port cl2) key' store1 d1 =
      (Inr (Mismatch (fingerprint_from_stored ko (public_key_base64 ko key)) (fingerprint ko key')), store1)"
    using es assms st by (simp add: verify_eq[OF l])
  then show ?thesis by (simp add: check_server_key_def)
qed

theorem accepted_key_is_pinned_witness:
  "\<exists>cl1 store1 d1 cl3 m.
     check_server_key demo_keys ''k'' (new_client ''h'' 22) (new_store ''f'' None) demo_disk
       = (Inr True, cl1, store1, d1)
   \<and> check_server_key demo_keys ''x'' (new_client ''h'' 22) store1 d1 = (Inr False, cl3, store1, d1)
   \<and> cl_slot cl3 = Some (MismatchFailure m) \<and> mm_expected m = ''k'' \<and> mm_got m = ''x''"
proof -
  have "check_server_key demo_keys ''k'' (new_client ''h'' 22) (new_store ''f'' None) demo_disk
     = (Inr True, new_client ''h'' 22, \<lparr>hk_path = ''f'', hk_parent = None, hk_state = Some [(''h'', ''k'')]\<rparr>,
        demo_disk\<lparr>known_file := Contents (render_known_hosts [(''h'', ''k'')])\<rparr>)" (is "_ = (_, ?cl, ?st, ?d)")
    by (simp add: check_server_key_def verify_def trust_def demo_keys_def new_store_def demo_disk_def
        ensure_loaded_def load_from_disk_def make_key_def write_to_disk_def new_client_def Let_def)
  note h = this
  have "public_key_base64 demo_keys ''x'' \<noteq> public_key_base64 demo_keys ''k''"
    by (simp add: demo_keys_def)
  from accepted_key_is_pinned[OF h refl refl this] h show ?thesis
    by (fastforce simp: fingerprint_from_stored_def demo_keys_def)
qed



lemma forget_cases:
  assumes "forget host port store d = (Inr True, store', d')"
  shows "fst (verify ko host port key store' d') = Inr Unknown"
proof -
  obtain es where es: "ensure_loaded store d = Inr es"
    using assms by (cases "ensure_loaded store d") (auto simp: forget_def Let_def)
  then have "hk_state store' = Some (AList.delete (make_key host port) es)"
    using assms by (auto simp: forget_def Let_def split: prod.splits sum.splits if_splits)
  then have "ensure_loaded store' d' = Inr (AList.delete (make_key host port) es)"
    by (simp add: ensure_loaded_def)
  then show ?thesis by (simp add: verify_eq map_of_delete)
qed

section \<open>Handshakes in parallel\<close>

definition key_id_of :: "string \<times> 16 word \<times> 'k \<Rightarrow> string" where
  "key_id_of c = make_key (fst c) (fst (snd c))"

definition has_entry :: "tofu_state \<Rightarrow> string \<Rightarrow> bool" where
  "has_entry s k \<longleftrightarrow> (\<exists>es. hk_state (tofu_store s) = Some es \<and> map_of es k \<noteq> None)"

definition tofu_inv :: "(nat \<Rightarrow> string \<times> 16 word \<times> 'k) \<Rightarrow> tofu_state \<Rightarrow> bool" where
  "tofu_inv conns s \<longleftrightarrow> (\<forall>i. tofu_phase s i = Accepted \<longrightarrow> has_entry s (key_id_of (conns i)))"

lemma verify_window_entry:
  "has_entry s k \<Longrightarrow> has_entry (verify_window ko c i s) k"
  by (auto simp: has_entry_def verify_window_def verify_eq ensure_loaded_def split: prod.splits)

lemma verify_window_accepts:
  assumes "tofu_phase (verify_window ko c i s) i = Accepted"
  shows "has_entry (verify_window ko c i s) (key_id_of c)"
proof (cases "ensure_loaded (tofu_store s) (tofu_disk s)")
  case (Inr es)
  then show ?thesis using assms
    by (cases c) (auto simp: has_entry_def verify_window_def verify_eq key_id_of_def split: option.splits)
qed (use assms in \<open>cases c, auto simp: verify_window_def verify_def Let_def\<close>)

lemma trust_window_entry:
  assumes "has_entry s k"
  shows "has_entry (trust_window ko c i s) k"
proof -
  obtain es where es: "hk_state (tofu_store s) = Some es" "map_of es k \<noteq> None"
    using assms by (auto simp: has_entry_def)
  then have "ensure_loaded (tofu_store s) (tofu_disk s) = Inr es" by (simp add: ensure_loaded_def)
  from trust_cases[OF this, where ko = ko and host = "fst c" and port = "fst (snd c)" and key = "snd (snd c)"]
  show ?thesis using es by (cases c) (auto simp: has_entry_def trust_window_def map_of_update)
qed

lemma trust_window_accepts:
  assumes "tofu_phase (trust_window ko c i s) i = Accepted"
  shows "has_entry (trust_window ko c i s) (key_id_of c)"
proof (cases "ensure_loaded (tofu_store s) (tofu_disk s)")
  case (Inr es)
  from trust_cases[OF this, where ko = ko and host = "fst c" and port = "fst (snd c)" and key = "snd (snd c)"]
  show ?thesis using assms
    by (cases c) (auto simp: has_entry_def trust_window_def map_of_update key_id_of_def)
qed (use assms in \<open>cases c, auto simp: trust_window_def trust_def Let_def\<close>)

lemma window_other_phase:
  "j \<noteq> i \<Longrightarrow> tofu_phase (verify_window ko c i s) j = tofu_phase s j"
  "j \<noteq> i \<Longrightarrow> tofu_phase (trust_window ko c i s) j = tofu_phase s j"
  by (cases c; simp add: verify_window_def trust_window_def split: prod.splits)+

interpretation tofu: inv_system "tofu_init d path parent" "tofu_step ko conns" "tofu_inv conns"
  for d path parent ko conns
proof unfold_locales
  fix s show "tofu_init d path parent s \<Longrightarrow> tofu_inv conns s"
    by (simp add: tofu_init_def tofu_inv_def)
next
  fix s t
  assume inv: "tofu_inv conns s" and "tofu_step ko conns s t"
  from this(2) show "tofu_inv conns t"
  proof (rule tofu_stepE)
    fix i assume t: "t = verify_window ko (conns i) i s"
    show ?thesis unfolding tofu_inv_def t
      using inv verify_window_entry verify_window_accepts window_other_phase(1)
      by (metis tofu_inv_def)
  next
    fix i assume t: "t = trust_window ko (conns i) i s"
    show ?thesis unfolding tofu_inv_def t
      using inv trust_window_entry trust_window_accepts window_other_phase(2)
      by (metis tofu_inv_def)
  qed
qed

text \<open>
  However the lock windows of concurrent handshakes interleave, a connection is accepted only
  with an entry for its host and port in the store.
\<close>

lemma accepted_connection_has_entry:
  assumes "reach (tofu_init d path parent) (tofu_step ko conns) s" and "tofu_phase s i = Accepted"
  shows "has_entry s (key_id_of (conns i))"
  using tofu.reach_inv[OF assms(1)] assms(2) by (simp add: tofu_inv_def)

text \<open>Two first connections to one host, offered different keys.\<close>

definition race_conns :: "nat \<Rightarrow> string \<times> 16 word \<times> string" where
  "race_conns i = (''h'', 22, if i = 0 then ''k'' else ''x'')"

definition race_start :: tofu_state where
  "race_start = \<lparr>tofu_store = new_store ''f'' None, tofu_disk = demo_disk, tofu_phase = \<lambda>_. Handshake\<rparr>"

lemma race_init: "tofu_init demo_disk ''f'' None race_start"
  by (simp add: tofu_init_def race_start_def)

lemmas race_defs = verify_window_def trust_window_def verify_def trust_def race_start_def race_conns_def
  demo_keys_def new_store_def demo_disk_def ensure_loaded_def load_from_disk_def make_key_def
  write_to_disk_def

definition raced :: tofu_state where
  "raced = trust_window demo_keys (race_conns 1) 1 (trust_window demo_keys (race_conns 0) 0
     (verify_window demo_keys (race_conns 1) 1 (verify_window demo_keys (race_conns 0) 0 race_start)))"

lemma reach_verify:
  "reach I (tofu_step ko conns) s \<Longrightarrow> tofu_phase s i = Handshake \<Longrightarrow>
   reach I (tofu_step ko conns) (verify_window ko (conns i) i s)"
  by (rule reach_step, assumption, rule verify_step)

lemma reach_trust:
  "reach I (tofu_step ko conns) s \<Longrightarrow> tofu_phase s i = Trusting \<Longrightarrow>
   reach I (tofu_step ko conns) (trust_window ko (conns i) i s)"
  by (rule reach_step, assumption, rule trust_step)

lemma raced_reachable: "reach (tofu_init demo_disk ''f'' None) (tofu_step demo_keys race_conns) raced"
  unfolding raced_def
  by (intro reach_trust reach_verify reach_init race_init) (simp_all add: race_defs Let_def)


lemma accepted_connection_has_entry_witness: "has_entry raced ''h''"
proof -
  have "tofu_phase raced 0 = Accepted" by (simp add: raced_def race_defs Let_def)
  from accepted_connection_has_entry[OF raced_reachable this] show ?thesis
    by (simp add: key_id_of_def race_conns_def make_key_def)
qed

section \<open>Store keys\<close>

lemma digits_colon: "CHR '':'' \<notin> set (nat_str n)"
  using nat_str_digits[of n] by (auto simp: list_all_iff char_defs)

text \<open>Different hosts and ports have different store keys, except for a host that is itself
  written in brackets.\<close>

lemma make_key_inject:
  assumes "make_key h p = make_key h' p'" and "\<not> starts_with ''['' h" and "\<not> starts_with ''['' h'"
  shows "h = h' \<and> p = p'"
proof (cases "p = 22 \<or> p' = 22")
  case True
  then show ?thesis using assms by (auto simp: make_key_def starts_with_iff split: if_splits)
next
  case False
  then have e: "(h @ '']'') @ CHR '':'' # nat_str (unat p) = (h' @ '']'') @ CHR '':'' # nat_str (unat p')"
    using assms(1) by (simp add: make_key_def)
  have "Some (h @ '']'', nat_str (unat p)) = Some (h' @ '']'', nat_str (unat p'))"
    using rsplit_once_char_present[OF digits_colon] e by metis
  then show ?thesis by (simp add: word_unat_eq_iff)
qed

end
