(* ===== verification/SftpOps.thy ===== *)
theory SftpOps
  imports FileEntry
begin

text \<open>
  \<open>crates/core/src/ssh/sftp_ops.rs\<close> and the two clients that delegate to it
  (\<open>SshClient\<close> in \<open>crates/core/src/ssh/mod.rs\<close> and \<open>StandaloneSftpClient\<close> in
  \<open>crates/core/src/sftp_client.rs\<close>).

  The SFTP server and the local disk are the parameter \<open>sftp_env\<close>: what opening a file gives
  (a stream of read results, or an error), the failure of the n-th write and of the flush with the
  number of bytes that are in the file by then (a write may have been cut short, and earlier ones may
  still be buffered), and the result of each directory operation. A cancellation token is seen through the value of
  \<open>is_cancelled()\<close> at the check before the n-th read.
\<close>

section \<open>The outside world\<close>

datatype read_result = ReadErr string | ReadBytes string

record dir_entry =
  de_name :: string
  de_size :: "nat option"
  de_mtime :: "nat option"
  de_permissions :: "32 word option"
  de_uid :: "nat option"
  de_gid :: "nat option"
  de_is_dir :: bool
  de_is_symlink :: bool

record sftp_env =
  read_dir :: "string \<Rightarrow> string + dir_entry list"
  open_remote :: "string \<Rightarrow> string + read_result list"
  create_remote :: "string \<Rightarrow> string option"
  open_local :: "string \<Rightarrow> string + read_result list"
  create_local :: "string \<Rightarrow> string option"
  write_error :: "nat \<Rightarrow> (nat \<times> string) option"
  flush_error :: "(nat \<times> string) option"
  mkdir_error :: "string \<Rightarrow> string option"
  rename_error :: "string \<Rightarrow> string \<Rightarrow> string option"
  remove_file_error :: "string \<Rightarrow> string option"
  remove_dir_error :: "string \<Rightarrow> string option"

definition op_error :: "string \<Rightarrow> string option \<Rightarrow> transfer_error + unit" where
  "op_error message e = (case e of None \<Rightarrow> Inr () | Some m \<Rightarrow> Inl (Operation (message @ '': '' @ m)))"

section \<open>Listing\<close>

definition entry_of :: "(int \<Rightarrow> string option) \<Rightarrow> dir_entry \<Rightarrow> file_entry" where
  "entry_of render_time attrs =
     (let mtime_secs = map_option int (de_mtime attrs)
      in \<lparr>fe_name = de_name attrs,
          fe_size = unwrap_or 0 (de_size attrs),
          fe_modified = map_option (format_unix_timestamp render_time) mtime_secs,
          fe_modified_unix = mtime_secs,
          fe_permissions = map_option format_permissions (de_permissions attrs),
          fe_owner = map_option nat_str (de_uid attrs),
          fe_group = map_option nat_str (de_gid attrs),
          fe_type = (if de_is_dir attrs then Directory
                     else if de_is_symlink attrs then Symlink else File)\<rparr>)"

fun list_dir_loop :: "(int \<Rightarrow> string option) \<Rightarrow> dir_entry list \<Rightarrow> file_entry list" where
  "list_dir_loop render_time [] = []"
| "list_dir_loop render_time (e # es) =
     (if de_name e = ''.'' \<or> de_name e = ''..'' then list_dir_loop render_time es
      else entry_of render_time e # list_dir_loop render_time es)"

definition list_dir :: "(string \<Rightarrow> string) \<Rightarrow> (int \<Rightarrow> string option) \<Rightarrow> sftp_env \<Rightarrow> string
    \<Rightarrow> transfer_error + file_entry list" where
  "list_dir lower render_time env path =
     and_then (map_err (\<lambda>e. Operation (''Failed to list directory '' @ ticked path @ '': '' @ e))
                 (read_dir env path))
       (\<lambda>entries. Inr (sort_entries lower (list_dir_loop render_time entries)))"

section \<open>Streaming\<close>

text \<open>
  The loop of \<open>download_file\<close> and \<open>upload_file\<close>. \<open>k\<close> counts the iterations, the record holds
  what has been written to the destination, the running total and the calls of \<open>progress\<close>.
  The stream ends (a read of no bytes) after the last element of the list.
\<close>

record xfer =
  written :: string
  total_bytes :: nat
  progress_log :: "nat list"

definition xfer_start :: xfer where
  "xfer_start = \<lparr>written = [], total_bytes = 0, progress_log = []\<rparr>"

definition xfer_chunk :: "string \<Rightarrow> xfer \<Rightarrow> xfer" where
  "xfer_chunk b st =
     st\<lparr>written := written st @ b, total_bytes := total_bytes st + length b,
        progress_log := progress_log st @ [total_bytes st + length b]\<rparr>"

fun copy_loop :: "(nat \<Rightarrow> bool) option \<Rightarrow> (nat \<Rightarrow> (nat \<times> string) option) \<Rightarrow> nat \<Rightarrow> read_result list \<Rightarrow> xfer
    \<Rightarrow> transfer_error option \<times> xfer" where
  "copy_loop cancel werr k reads st =
     (if (case cancel of Some is_cancelled \<Rightarrow> is_cancelled k | None \<Rightarrow> False)
      then (Some Cancelled, st)
      else case reads of
        [] \<Rightarrow> (None, st)
      | ReadErr e # _ \<Rightarrow> (Some (Io e), st)
      | ReadBytes b # rs \<Rightarrow>
          if b = [] then (None, st)
          else case werr k of
            Some (m, e) \<Rightarrow> (Some (Io e), st\<lparr>written := take m (written st @ b)\<rparr>)
          | None \<Rightarrow> copy_loop cancel werr (Suc k) rs (xfer_chunk b st))"

definition finish_copy :: "sftp_env \<Rightarrow> transfer_error option \<times> xfer
    \<Rightarrow> (transfer_error + nat) \<times> xfer" where
  "finish_copy env r =
     (case r of
        (Some e, st) \<Rightarrow> (Inl e, st)
      | (None, st) \<Rightarrow>
          (case flush_error env of
             Some (m, e) \<Rightarrow> (Inl (Io e), st\<lparr>written := take m (written st)\<rparr>)
           | None \<Rightarrow> (Inr (total_bytes st), st)))"

definition download_file :: "sftp_env \<Rightarrow> string \<Rightarrow> string \<Rightarrow> (nat \<Rightarrow> bool) option
    \<Rightarrow> (transfer_error + nat) \<times> xfer" where
  "download_file env remote_path local_path cancel =
     (case open_remote env remote_path of
        Inl e \<Rightarrow>
          (Inl (Operation (''Failed to open remote file '' @ ticked remote_path @ '': '' @ e)), xfer_start)
      | Inr reads \<Rightarrow>
          (case create_local env local_path of
             Some e \<Rightarrow>
               (Inl (Operation (''Failed to create local file '' @ ticked local_path @ '': '' @ e)),
                xfer_start)
           | None \<Rightarrow> finish_copy env (copy_loop cancel (write_error env) 0 reads xfer_start)))"

definition upload_file :: "sftp_env \<Rightarrow> string \<Rightarrow> string \<Rightarrow> (nat \<Rightarrow> bool) option
    \<Rightarrow> (transfer_error + nat) \<times> xfer" where
  "upload_file env local_path remote_path cancel =
     (case open_local env local_path of
        Inl e \<Rightarrow>
          (Inl (Operation (''Failed to open local file '' @ ticked local_path @ '': '' @ e)), xfer_start)
      | Inr reads \<Rightarrow>
          (case create_remote env remote_path of
             Some e \<Rightarrow>
               (Inl (Operation (''Failed to create remote file '' @ ticked remote_path @ '': '' @ e)),
                xfer_start)
           | None \<Rightarrow> finish_copy env (copy_loop cancel (write_error env) 0 reads xfer_start)))"

fun memory_loop :: "read_result list \<Rightarrow> string \<Rightarrow> transfer_error + string" where
  "memory_loop [] buffer = Inr buffer"
| "memory_loop (ReadErr e # rs) buffer = Inl (Io e)"
| "memory_loop (ReadBytes b # rs) buffer =
     (if b = [] then Inr buffer else memory_loop rs (buffer @ b))"

definition download_to_memory :: "sftp_env \<Rightarrow> string \<Rightarrow> transfer_error + string" where
  "download_to_memory env remote_path =
     and_then (map_err (\<lambda>e. Operation (''Failed to open remote file '' @ ticked remote_path @ '': '' @ e))
                 (open_remote env remote_path))
       (\<lambda>reads. memory_loop reads [])"

text \<open>\<open>slice::chunks(n)\<close> for \<open>n > 0\<close>.\<close>

function chunks :: "nat \<Rightarrow> 'a list \<Rightarrow> 'a list list" where
  "chunks n xs = (if xs = [] \<or> n = 0 then [] else take n xs # chunks n (drop n xs))"
  by pat_completeness auto
termination
  by (relation "measure (\<lambda>(n, xs). length xs)") auto

declare chunks.simps [simp del]

fun write_chunks :: "(nat \<Rightarrow> (nat \<times> string) option) \<Rightarrow> nat \<Rightarrow> string list \<Rightarrow> string \<Rightarrow> transfer_error option \<times> string" where
  "write_chunks werr k [] out = (None, out)"
| "write_chunks werr k (c # cs) out =
     (case werr k of
        Some (m, e) \<Rightarrow> (Some (Io e), take m (out @ c))
      | None \<Rightarrow> write_chunks werr (Suc k) cs (out @ c))"

definition upload_from_bytes :: "sftp_env \<Rightarrow> string \<Rightarrow> string \<Rightarrow> (transfer_error + nat) \<times> string" where
  "upload_from_bytes env data remote_path =
     (case create_remote env remote_path of
        Some e \<Rightarrow>
          (Inl (Operation (''Failed to create remote file '' @ ticked remote_path @ '': '' @ e)), [])
      | None \<Rightarrow>
          (case write_chunks (write_error env) 0 (chunks FILE_TRANSFER_CHUNK_SIZE data) [] of
             (Some e, out) \<Rightarrow> (Inl e, out)
           | (None, out) \<Rightarrow>
               (case flush_error env of
                  Some (m, e) \<Rightarrow> (Inl (Io e), take m out)
                | None \<Rightarrow> (Inr (length data), out))))"

section \<open>Directory operations\<close>

definition create_dir :: "sftp_env \<Rightarrow> string \<Rightarrow> transfer_error + unit" where
  "create_dir env path =
     op_error (''Failed to create directory '' @ ticked path) (mkdir_error env path)"

definition rename_path :: "sftp_env \<Rightarrow> string \<Rightarrow> string \<Rightarrow> transfer_error + unit" where
  "rename_path env old_path new_path =
     op_error (''Failed to rename '' @ ticked old_path @ '' to '' @ ticked new_path)
       (rename_error env old_path new_path)"

definition delete_file :: "sftp_env \<Rightarrow> string \<Rightarrow> transfer_error + unit" where
  "delete_file env path =
     op_error (''Failed to delete file '' @ ticked path) (remove_file_error env path)"

definition delete_dir :: "sftp_env \<Rightarrow> string \<Rightarrow> transfer_error + unit" where
  "delete_dir env path =
     op_error (''Failed to delete directory '' @ ticked path) (remove_dir_error env path)"

section \<open>Listings\<close>

lemma list_dir_loop_eq:
  "list_dir_loop render_time es =
     map (entry_of render_time) (filter (\<lambda>e. de_name e \<noteq> ''.'' \<and> de_name e \<noteq> ''..'') es)"
  by (induction es) auto

lemma entry_of_name [simp]: "fe_name (entry_of render_time e) = de_name e"
  by (simp add: entry_of_def Let_def)

text \<open>
  C23. A listing has one entry for each directory entry the server reports except \<open>.\<close> and \<open>..\<close>,
  all directories before all other entries, and each group in the order of the lower-case
  names.
\<close>

theorem list_dir_listing:
  assumes "list_dir lower render_time env path = Inr out" and "read_dir env path = Inr es"
  shows "mset out =
      mset (map (entry_of render_time) (filter (\<lambda>e. de_name e \<noteq> ''.'' \<and> de_name e \<noteq> ''..'') es))
    \<and> out = filter is_directory out @ filter (\<lambda>e. \<not> is_directory e) out
    \<and> sorted (map (lower \<circ> fe_name) (filter is_directory out))
    \<and> sorted (map (lower \<circ> fe_name) (filter (\<lambda>e. \<not> is_directory e) out))"
proof -
  have out: "out = sort_entries lower (list_dir_loop render_time es)"
    using assms by (simp add: list_dir_def)
  have s: "sorted (map (entry_key lower) out)" by (simp add: out sort_entries_sorted)
  have "mset out = mset (list_dir_loop render_time es)" by (simp add: out sort_entries_perm)
  then show ?thesis
    using sorted_dirs_first[OF s] dir_filter_sorted[OF s, of True] dir_filter_sorted[OF s, of False]
    by (simp add: list_dir_loop_eq)
qed

definition demo_entry :: "string \<Rightarrow> bool \<Rightarrow> dir_entry" where
  "demo_entry n d = \<lparr>de_name = n, de_size = None, de_mtime = Some 0, de_permissions = Some 493,
     de_uid = Some 0, de_gid = None, de_is_dir = d, de_is_symlink = False\<rparr>"

definition demo_env :: sftp_env where
  "demo_env =
     \<lparr>read_dir = (\<lambda>_. Inr [demo_entry ''.'' True, demo_entry ''b'' False, demo_entry ''A'' True]),
      open_remote = (\<lambda>_. Inr [ReadBytes ''ab'', ReadBytes ''c'']), create_remote = (\<lambda>_. None),
      open_local = (\<lambda>_. Inr [ReadBytes ''ab'', ReadBytes ''c'']), create_local = (\<lambda>_. None),
      write_error = (\<lambda>_. None), flush_error = None, mkdir_error = (\<lambda>_. None),
      rename_error = (\<lambda>_ _. None), remove_file_error = (\<lambda>_. None),
      remove_dir_error = (\<lambda>_. None)\<rparr>"

theorem list_dir_listing_witness:
  "\<exists>out es. list_dir to_ascii_lowercase (\<lambda>_. None) demo_env ''/'' = Inr out
    \<and> read_dir demo_env ''/'' = Inr es
    \<and> mset out = mset (map (entry_of (\<lambda>_. None))
        (filter (\<lambda>e. de_name e \<noteq> ''.'' \<and> de_name e \<noteq> ''..'') es))"
proof -
  obtain out es where h: "list_dir to_ascii_lowercase (\<lambda>_. None) demo_env ''/'' = Inr out"
    "read_dir demo_env ''/'' = Inr es"
    by (simp add: list_dir_def demo_env_def)
  then show ?thesis using list_dir_listing[OF h] by blast
qed

section \<open>Transfers\<close>

text \<open>The bytes of the first \<open>n\<close> reads, up to the end of the stream.\<close>

fun data_chunks :: "read_result list \<Rightarrow> string list" where
  "data_chunks [] = []"
| "data_chunks (ReadErr e # rs) = []"
| "data_chunks (ReadBytes b # rs) = (if b = [] then [] else b # data_chunks rs)"

fun prefix_sums :: "nat \<Rightarrow> 'a list list \<Rightarrow> nat list" where
  "prefix_sums n [] = []"
| "prefix_sums n (b # bs) = (n + length b) # prefix_sums (n + length b) bs"

definition clean_stream :: "read_result list \<Rightarrow> bool" where
  "clean_stream reads \<longleftrightarrow> list_all (\<lambda>r. case r of ReadErr _ \<Rightarrow> False | ReadBytes b \<Rightarrow> b \<noteq> []) reads"

declare copy_loop.simps [simp del]

lemma xfer_chunk_simps [simp]:
  "written (xfer_chunk b st) = written st @ b"
  "total_bytes (xfer_chunk b st) = total_bytes st + length b"
  "progress_log (xfer_chunk b st) = progress_log st @ [total_bytes st + length b]"
  by (simp_all add: xfer_chunk_def)

lemma xfer_start_simps [simp]:
  "written xfer_start = []" "total_bytes xfer_start = 0" "progress_log xfer_start = []"
  by (simp_all add: xfer_start_def)

text \<open>A cut of a prefix is a prefix.\<close>

lemma cut_prefix:
  assumes "xs @ rest = ys"
  shows "\<exists>rest. take m xs @ rest = ys"
proof (rule exI)
  show "take m xs @ drop m xs @ rest = ys" using assms by (simp only: append_assoc[symmetric] append_take_drop_id)
qed

text \<open>Whatever happens, the destination holds a prefix of the source, cut at the chunk of the last
  progress report unless a write failed.\<close>

lemma copy_loop_prefix:
  "copy_loop cancel werr k reads st = (e, st') \<Longrightarrow>
   \<exists>n. n \<le> length (data_chunks reads)
     \<and> (\<exists>rest. written st' @ rest = written st @ concat (take (Suc n) (data_chunks reads)))
     \<and> (e = None \<or> e = Some Cancelled \<longrightarrow> written st' = written st @ concat (take n (data_chunks reads)))
     \<and> total_bytes st' = total_bytes st + length (concat (take n (data_chunks reads)))
     \<and> progress_log st' = progress_log st @ prefix_sums (total_bytes st) (take n (data_chunks reads))
     \<and> (e = None \<longrightarrow> n = length (data_chunks reads))
     \<and> (e = Some Cancelled \<longrightarrow> (\<exists>c. cancel = Some c \<and> c (k + n)))"
proof (induction cancel werr k reads st arbitrary: e st' rule: copy_loop.induct)
  case (1 cancel werr k reads st)
  show ?case
  proof (cases "\<exists>c. cancel = Some c \<and> c k")
    case True
    then have "e = Some Cancelled" "st' = st"
      using "1.prems" by (auto simp: copy_loop.simps[of cancel werr k])
    then show ?thesis using True by (intro exI[of _ 0]) auto
  next
    case nc: False
    then have nocancel: "\<not> (case cancel of Some c \<Rightarrow> c k | None \<Rightarrow> False)"
      by (auto split: option.splits)
    show ?thesis
    proof (cases "\<exists>b rs. reads = ReadBytes b # rs \<and> b \<noteq> [] \<and> werr k = None")
      case True
      then obtain b rs where r: "reads = ReadBytes b # rs" "b \<noteq> []" "werr k = None" by blast
      then have "copy_loop cancel werr (Suc k) rs (xfer_chunk b st) = (e, st')"
        using "1.prems" nocancel by (simp add: copy_loop.simps[of cancel werr k])
      from "1.IH"[OF nocancel r(1) refl r(2,3) this] obtain n rest where
        n: "n \<le> length (data_chunks rs)"
          "written st' @ rest = written (xfer_chunk b st) @ concat (take (Suc n) (data_chunks rs))"
          "e = None \<or> e = Some Cancelled \<longrightarrow>
             written st' = written (xfer_chunk b st) @ concat (take n (data_chunks rs))"
          "total_bytes st' = total_bytes (xfer_chunk b st) + length (concat (take n (data_chunks rs)))"
          "progress_log st' = progress_log (xfer_chunk b st)
             @ prefix_sums (total_bytes (xfer_chunk b st)) (take n (data_chunks rs))"
          "e = None \<longrightarrow> n = length (data_chunks rs)"
          "e = Some Cancelled \<longrightarrow> (\<exists>c. cancel = Some c \<and> c (Suc k + n))"
        by blast
      then show ?thesis using r by (intro exI[of _ "Suc n"]) auto
    next
      case False
      show ?thesis
      proof (cases "\<exists>b rs. reads = ReadBytes b # rs \<and> b \<noteq> []")
        case True
        then obtain b rs m msg where r: "reads = ReadBytes b # rs" "b \<noteq> []" "werr k = Some (m, msg)"
          using False by (cases "werr k") auto
        then have w: "e = Some (Io msg)" "st' = st\<lparr>written := take m (written st @ b)\<rparr>"
          using "1.prems" nocancel by (auto simp: copy_loop.simps[of cancel werr k])
        have "\<exists>rest. take m (written st @ b) @ rest = written st @ b" by (rule exI, rule append_take_drop_id)
        then show ?thesis using r w(1,2) by (intro exI[of _ 0]) (simp del: take_append)
      next
        case other: False
        then have "st' = st" "e \<noteq> Some Cancelled" "data_chunks reads = []"
          using "1.prems" nocancel
          by (auto simp: copy_loop.simps[of cancel werr k] split: list.splits read_result.splits if_splits)
        then show ?thesis by (intro exI[of _ 0]) simp
      qed
    qed
  qed
qed

lemma copy_loop_success:
  assumes "clean_stream reads" and "\<And>k. werr k = None" and "\<And>c k. cancel = Some c \<Longrightarrow> \<not> c k"
  shows "fst (copy_loop cancel werr k reads st) = None"
  using assms(1)
proof (induction reads arbitrary: k st)
  case Nil
  then show ?case using assms(3) by (auto simp: copy_loop.simps split: option.splits)
next
  case (Cons r reads)
  then show ?case using assms(2,3)
    by (auto simp: clean_stream_def copy_loop.simps[of _ _ _ "_ # _"] split: option.splits read_result.splits)
qed

lemma data_chunks_clean:
  "clean_stream reads \<Longrightarrow> reads = map ReadBytes (data_chunks reads)"
  by (induction reads) (auto simp: clean_stream_def split: read_result.splits)



lemma chunks_concat: "0 < n \<Longrightarrow> concat (chunks n xs) = xs"
proof (induction n xs rule: chunks.induct)
  case (1 n xs)
  then show ?case by (cases "xs = []") (simp_all add: chunks.simps[of n xs] chunks.simps[of n "[]"])
qed

lemma chunks_bounded: "c \<in> set (chunks n xs) \<Longrightarrow> 0 < length c \<and> length c \<le> n"
proof (induction n xs rule: chunks.induct)
  case (1 n xs)
  then show ?case by (auto simp: chunks.simps[of n xs] split: if_splits)
qed

lemma write_chunks_prefix:
  "write_chunks werr k cs out = (e, out') \<Longrightarrow>
   (\<exists>rest. out' @ rest = out @ concat cs) \<and> (e = None \<longrightarrow> out' = out @ concat cs)"
proof (induction werr k cs out rule: write_chunks.induct)
  case (2 werr k c cs out)
  show ?case
  proof (cases "werr k")
    case None
    then show ?thesis using 2 by auto
  next
    case (Some f)
    then obtain m msg where "out' = take m (out @ c)" "e = Some (Io msg)" using 2 by (cases f) auto
    then show ?thesis using cut_prefix[of "out @ c" "concat cs" _ m] by (simp del: take_append)
  qed
qed simp

lemma upload_from_bytes_ok:
  assumes "upload_from_bytes env data path = (Inr n, out)"
  shows "out = data \<and> n = length data"
proof -
  obtain e o' where w:
    "write_chunks (write_error env) 0 (chunks FILE_TRANSFER_CHUNK_SIZE data) [] = (e, o')"
    by (cases "write_chunks (write_error env) 0 (chunks FILE_TRANSFER_CHUNK_SIZE data) []")
  then have "e = None" "o' = out" "n = length data"
    using assms by (auto simp: upload_from_bytes_def split: option.splits)
  then show ?thesis
    using write_chunks_prefix[OF w] chunks_concat[of FILE_TRANSFER_CHUNK_SIZE data]
    by (auto simp: FILE_TRANSFER_CHUNK_SIZE_def)
qed

lemma memory_loop_clean:
  "clean_stream reads \<Longrightarrow> memory_loop reads buffer = Inr (buffer @ concat (data_chunks reads))"
  by (induction reads buffer rule: memory_loop.induct) (auto simp: clean_stream_def)

text \<open>
  C20. Uploading a buffer and reading the file back, in whatever pieces the server returns it,
  gives the buffer again; the upload reports its length.
\<close>

theorem upload_download_roundtrip:
  assumes "upload_from_bytes env data path = (Inr n, out)"
    and "open_remote env' path = Inr (map ReadBytes pieces)"
    and "concat pieces = out" and "[] \<notin> set pieces"
  shows "download_to_memory env' path = Inr data \<and> n = length data"
proof -
  have "clean_stream (map ReadBytes pieces)"
    using assms(4) by (auto simp: clean_stream_def list_all_iff)
  moreover have "data_chunks (map ReadBytes pieces) = pieces"
    using assms(4) by (induction pieces) auto
  ultimately show ?thesis
    using assms(2,3) upload_from_bytes_ok[OF assms(1)] memory_loop_clean[of "map ReadBytes pieces" "[]"]
    by (simp add: download_to_memory_def)
qed

theorem upload_download_roundtrip_witness:
  "download_to_memory demo_env ''f'' = Inr ''abc'' \<and> (3::nat) = length ''abc''"
proof (rule upload_download_roundtrip[of demo_env "''abc''" "''f''" 3 "''abc''" demo_env "[''ab'', ''c'']"])
  show "upload_from_bytes demo_env ''abc'' ''f'' = (Inr 3, ''abc'')"
    by (simp add: upload_from_bytes_def demo_env_def chunks.simps FILE_TRANSFER_CHUNK_SIZE_def)
  show "open_remote demo_env ''f'' = Inr (map ReadBytes [''ab'', ''c''])"
    by (simp add: demo_env_def)
qed simp_all

end
