(* ===== verification/SshExec.thy ===== *)
theory SshExec
  imports FileEntry
begin

text \<open>
  What an SSH channel does with the messages it receives (\<open>crates/core/src/ssh/mod.rs\<close>): the
  output of a command, collected or streamed line by line, and the two tasks of a PTY session.
  The messages of a channel are a list; its end is the \<open>None\<close> of \<open>channel.wait()\<close>. Which branch of
  a \<open>select!\<close> runs is part of the event sequence.
\<close>

section \<open>Command output\<close>

record command_output =
  stdout :: string
  stderr :: string
  exit_code :: "32 word option"

definition is_success :: "command_output \<Rightarrow> bool" where
  "is_success out \<longleftrightarrow> exit_code out = Some 0"

definition combined :: "command_output \<Rightarrow> string" where
  "combined out =
     (if stderr out = [] then stdout out
      else if stdout out = [] then stderr out
      else stdout out @ (if ends_with [newline] (stdout out) then [] else [newline]) @ stderr out)"

datatype channel_msg =
    Data string
  | ExtendedData string
  | ExitStatus "32 word"
  | Eof
  | Close
  | OtherMsg

definition no_output :: command_output where
  "no_output = \<lparr>stdout = [], stderr = [], exit_code = None\<rparr>"

fun exec_loop :: "channel_msg list \<Rightarrow> bool \<Rightarrow> command_output \<Rightarrow> command_output" where
  "exec_loop [] eof_received out = out"
| "exec_loop (Data d # ms) eof_received out =
     exec_loop ms eof_received (out\<lparr>stdout := stdout out @ from_utf8_lossy d\<rparr>)"
| "exec_loop (ExtendedData d # ms) eof_received out =
     exec_loop ms eof_received (out\<lparr>stderr := stderr out @ from_utf8_lossy d\<rparr>)"
| "exec_loop (ExitStatus c # ms) eof_received out =
     (if eof_received then out\<lparr>exit_code := Some c\<rparr>
      else exec_loop ms eof_received (out\<lparr>exit_code := Some c\<rparr>))"
| "exec_loop (Eof # ms) eof_received out =
     (if exit_code out \<noteq> None then out else exec_loop ms True out)"
| "exec_loop (Close # ms) eof_received out = out"
| "exec_loop (OtherMsg # ms) eof_received out = exec_loop ms eof_received out"

section \<open>Streaming\<close>

text \<open>
  \<open>room\<close> is the number of lines the receiver still takes before it is dropped, \<open>None\<close> if it never
  is. A failed send fires the cancellation token.
\<close>

record stream =
  stdout_buf :: string
  stderr_buf :: string
  sent :: "string list"
  room :: "nat option"
  stream_cancelled :: bool

definition stream_start :: "nat option \<Rightarrow> stream" where
  "stream_start r = \<lparr>stdout_buf = [], stderr_buf = [], sent = [], room = r, stream_cancelled = False\<rparr>"

text \<open>\<open>tx.send(line)\<close>: whether it succeeded, and the new state.\<close>

definition send_line :: "string \<Rightarrow> stream \<Rightarrow> bool \<times> stream" where
  "send_line line st =
     (case room st of
        None \<Rightarrow> (True, st\<lparr>sent := sent st @ [line]\<rparr>)
      | Some n \<Rightarrow> if n = 0 then (False, st)
                  else (True, st\<lparr>sent := sent st @ [line], room := Some (n - 1)\<rparr>))"

definition chomp :: "string \<Rightarrow> string" where
  "chomp line = trim_end_chars [carriage, newline] line"

text \<open>
  The \<open>while\<close> loop over a buffer: complete lines are removed and sent, with \<open>mark\<close> in front. After
  a failed send the line is gone from the buffer and the loop stops.
\<close>

function drain_lines :: "string \<Rightarrow> string \<Rightarrow> stream \<Rightarrow> string \<times> stream" where
  "drain_lines mark buf st =
     (case split_once [newline] buf of
        None \<Rightarrow> (buf, st)
      | Some (a, rest) \<Rightarrow>
          (case send_line (mark @ chomp (a @ [newline])) st of
             (False, st') \<Rightarrow> (rest, st'\<lparr>stream_cancelled := True\<rparr>)
           | (True, st') \<Rightarrow> drain_lines mark rest st'))"
  by pat_completeness auto
termination
  by (relation "measure (\<lambda>(mark, buf, st). length buf)") (auto dest!: split_once_Some)

declare drain_lines.simps [simp del]

definition flush_buffer :: "string \<Rightarrow> string \<Rightarrow> stream \<Rightarrow> stream" where
  "flush_buffer mark buf st = (if buf = [] then st else snd (send_line (mark @ chomp buf) st))"

definition end_of_stream :: "stream \<Rightarrow> stream" where
  "end_of_stream st = flush_buffer ''!'' (stderr_buf st) (flush_buffer [] (stdout_buf st) st)"

text \<open>An event is the cancellation branch or the message branch of the \<open>select!\<close>.\<close>

datatype stream_event = CancelBranch | MsgBranch "channel_msg option"

fun stream_task :: "stream_event list \<Rightarrow> stream \<Rightarrow> stream" where
  "stream_task [] st = st"
| "stream_task (CancelBranch # es) st = st"
| "stream_task (MsgBranch (Some (Data d)) # es) st =
     (case drain_lines [] (stdout_buf st @ from_utf8_lossy d) st of
        (buf, st') \<Rightarrow> stream_task es (st'\<lparr>stdout_buf := buf\<rparr>))"
| "stream_task (MsgBranch (Some (ExtendedData d)) # es) st =
     (case drain_lines ''!'' (stderr_buf st @ from_utf8_lossy d) st of
        (buf, st') \<Rightarrow> stream_task es (st'\<lparr>stderr_buf := buf\<rparr>))"
| "stream_task (MsgBranch (Some Eof) # es) st = end_of_stream st"
| "stream_task (MsgBranch (Some Close) # es) st = end_of_stream st"
| "stream_task (MsgBranch None # es) st = end_of_stream st"
| "stream_task (MsgBranch (Some (ExitStatus c)) # es) st = stream_task es st"
| "stream_task (MsgBranch (Some OtherMsg) # es) st = stream_task es st"

section \<open>PTY tasks\<close>

text \<open>
  The input task writes what it receives; a message carries the results of \<open>write_all\<close> and
  \<open>flush\<close>. The result is the data written.
\<close>

datatype input_event = InputCancelled | InputData string bool bool | InputClosed

fun input_task :: "input_event list \<Rightarrow> string list \<Rightarrow> string list" where
  "input_task [] w = w"
| "input_task (InputCancelled # es) w = w"
| "input_task (InputClosed # es) w = w"
| "input_task (InputData d write_ok flush_ok # es) w =
     (if \<not> write_ok then w else if \<not> flush_ok then w @ [d] else input_task es (w @ [d]))"

text \<open>
  The output task forwards data of both streams (\<open>send_ok\<close>: the receiver is alive) and applies
  resize requests; the flag is the result of \<open>window_change\<close>, which does not end the task.
\<close>

datatype output_event =
    OutputCancelled
  | OutputMsg "channel_msg option" bool
  | Resize "32 word" "32 word" bool
  | ResizeClosed

record pty_output =
  forwarded :: "string list"
  window_size :: "(32 word \<times> 32 word) option"

fun output_task :: "output_event list \<Rightarrow> pty_output \<Rightarrow> pty_output" where
  "output_task [] st = st"
| "output_task (OutputCancelled # es) st = st"
| "output_task (OutputMsg (Some (Data d)) send_ok # es) st =
     (if send_ok then output_task es (st\<lparr>forwarded := forwarded st @ [d]\<rparr>) else st)"
| "output_task (OutputMsg (Some (ExtendedData d)) send_ok # es) st =
     (if send_ok then output_task es (st\<lparr>forwarded := forwarded st @ [d]\<rparr>) else st)"
| "output_task (OutputMsg (Some Eof) send_ok # es) st = st"
| "output_task (OutputMsg (Some Close) send_ok # es) st = st"
| "output_task (OutputMsg None send_ok # es) st = st"
| "output_task (OutputMsg (Some (ExitStatus c)) send_ok # es) st = output_task es st"
| "output_task (OutputMsg (Some OtherMsg) send_ok # es) st = output_task es st"
| "output_task (Resize cols rows ok # es) st =
     output_task es (if ok then st\<lparr>window_size := Some (cols, rows)\<rparr> else st)"
| "output_task (ResizeClosed # es) st = st"

section \<open>Collected output\<close>

text \<open>The messages the loop of \<open>execute_command_full\<close> looks at before it stops.\<close>

fun consumed :: "channel_msg list \<Rightarrow> bool \<Rightarrow> bool \<Rightarrow> channel_msg list" where
  "consumed [] eof code = []"
| "consumed (ExitStatus c # ms) eof code = ExitStatus c # (if eof then [] else consumed ms eof True)"
| "consumed (Eof # ms) eof code = Eof # (if code then [] else consumed ms True code)"
| "consumed (Close # ms) eof code = [Close]"
| "consumed (m # ms) eof code = m # consumed ms eof code"

fun data_of :: "channel_msg \<Rightarrow> string" where
  "data_of (Data d) = d" | "data_of _ = []"

fun extended_of :: "channel_msg \<Rightarrow> string" where
  "extended_of (ExtendedData d) = d" | "extended_of _ = []"

fun status_of :: "channel_msg \<Rightarrow> 32 word option" where
  "status_of (ExitStatus c) = Some c" | "status_of _ = None"

definition last_status :: "32 word option \<Rightarrow> channel_msg list \<Rightarrow> 32 word option" where
  "last_status = foldl (\<lambda>acc m. case status_of m of Some c \<Rightarrow> Some c | None \<Rightarrow> acc)"

lemma last_status_simps [simp]:
  "last_status acc [] = acc"
  "last_status acc (m # ms) = last_status (case status_of m of Some c \<Rightarrow> Some c | None \<Rightarrow> acc) ms"
  by (simp_all add: last_status_def)

lemma exec_loop_consumed:
  "exec_loop ms eof out =
     (let used = consumed ms eof (exit_code out \<noteq> None)
      in \<lparr>stdout = stdout out @ concat (map (\<lambda>m. from_utf8_lossy (data_of m)) used),
          stderr = stderr out @ concat (map (\<lambda>m. from_utf8_lossy (extended_of m)) used),
          exit_code = last_status (exit_code out) used\<rparr>)"
  by (induction ms eof out rule: exec_loop.induct)
     (simp_all add: Let_def from_utf8_lossy.simps[of "[]"])

text \<open>
  A command's output is exactly what the server sent before the loop stopped: the stdout
  bytes in order and the stderr bytes in order, with the last exit status; when every chunk is
  valid UTF-8, the text is the concatenation of the chunks, however they were split.
\<close>

lemma exec_collects_output:
  assumes "\<forall>m \<in> set ms. valid_utf8 (data_of m) \<and> valid_utf8 (extended_of m)"
  shows "exec_loop ms False no_output =
     (let used = consumed ms False False
      in \<lparr>stdout = concat (map data_of used), stderr = concat (map extended_of used),
          exit_code = last_status None used\<rparr>)"
proof -
  have sub: "set (consumed ms eof code) \<subseteq> set ms" for eof code
    by (induction ms eof code rule: consumed.induct) auto
  then have "\<forall>m \<in> set (consumed ms False False). valid_utf8 (data_of m) \<and> valid_utf8 (extended_of m)"
    using assms by blast
  note ok = this
  have d: "map (\<lambda>m. from_utf8_lossy (data_of m)) (consumed ms False False) = map data_of (consumed ms False False)"
    by (rule map_cong[OF refl]) (simp add: from_utf8_lossy_valid ok)
  have e: "map (\<lambda>m. from_utf8_lossy (extended_of m)) (consumed ms False False) = map extended_of (consumed ms False False)"
    by (rule map_cong[OF refl]) (simp add: from_utf8_lossy_valid ok)
  show ?thesis by (simp add: exec_loop_consumed no_output_def Let_def d e)
qed

lemma exec_collects_output_witness:
  "exec_loop [Data ''a'', ExtendedData ''e'', Eof, Data ''b'', ExitStatus 3, Data ''x''] False no_output
     = \<lparr>stdout = ''ab'', stderr = ''e'', exit_code = Some 3\<rparr>"
  by (subst exec_collects_output)
     (simp_all add: valid_utf8.simps byte_def)

text \<open>
  The conversion to text is done on each chunk by itself, so a character whose bytes arrive
  in two packets is destroyed: the output depends on how the network split it.
\<close>

lemma split_character_is_lost:
  "stdout (exec_loop [Data [CHR 0xC3, CHR 0xA9]] False no_output) = [CHR 0xC3, CHR 0xA9]
   \<and> stdout (exec_loop [Data [CHR 0xC3], Data [CHR 0xA9]] False no_output) = replacement @ replacement"
  by (simp add: no_output_def from_utf8_lossy.simps byte_def is_cont_def)

section \<open>Streamed lines\<close>

text \<open>The lines of a complete text: its pieces between newlines, an empty last piece left out.\<close>

definition text_lines :: "string \<Rightarrow> string list" where
  "text_lines s =
     map chomp (butlast (split_char newline s))
     @ (if last (split_char newline s) = [] then [] else [chomp (last (split_char newline s))])"

lemma drain_lines_open:
  "room st = None \<Longrightarrow>
   drain_lines mark buf st =
     (last (split_char newline buf),
      st\<lparr>sent := sent st @ map (\<lambda>l. mark @ chomp l) (butlast (split_char newline buf))\<rparr>)"
proof (induction mark buf st rule: drain_lines.induct)
  case (1 mark buf st)
  show ?case
  proof (cases "split_once [newline] buf")
    case None
    then have "split_char newline buf = [buf]"
      by (simp add: split_once_char_absent split_char_none)
    then show ?thesis using None by (simp add: drain_lines.simps)
  next
    case (Some ab)
    obtain a rest where ab: "ab = (a, rest)" by (cases ab)
    have buf: "buf = a @ newline # rest" using split_once_Some Some ab by fastforce
    have a: "newline \<notin> set a" using split_once_char_first Some ab by fast
    have s: "split_char newline buf = a # split_char newline rest"
      using a by (simp add: buf split_char_cons)
    have c: "chomp (a @ [newline]) = chomp a" by (simp add: chomp_def trim_end_chars_def)
    have send: "send_line (mark @ chomp (a @ [newline])) st
        = (True, st\<lparr>sent := sent st @ [mark @ chomp a]\<rparr>)"
      using 1(2) by (simp add: send_line_def c)
    have "drain_lines mark buf st = drain_lines mark rest (st\<lparr>sent := sent st @ [mark @ chomp a]\<rparr>)"
      unfolding drain_lines.simps[of mark buf st] Some ab by (simp add: send)
    also have "\<dots> = (last (split_char newline rest), st\<lparr>sent := (sent st @ [mark @ chomp a])
        @ map (\<lambda>l. mark @ chomp l) (butlast (split_char newline rest))\<rparr>)"
      using 1(1)[OF Some[unfolded ab] refl send[symmetric] refl] 1(2) by simp
    finally show ?thesis by (simp add: s)
  qed
qed

lemma text_lines_append:
  "text_lines (a @ b) = map chomp (butlast (split_char newline a)) @ text_lines (last (split_char newline a) @ b)"
  by (simp add: text_lines_def split_char_append[of newline a b] butlast_append)

lemma text_lines_piece: "newline \<notin> set s \<Longrightarrow> text_lines s = (if s = [] then [] else [chomp s])"
  by (simp add: text_lines_def split_char_none)

lemma shuffles_prepend_left: "zs \<in> shuffles xs ys \<Longrightarrow> as @ zs \<in> shuffles (as @ xs) ys"
  by (induction as) (auto intro: Cons_in_shuffles_leftI)

lemma shuffles_prepend_right: "zs \<in> shuffles xs ys \<Longrightarrow> as @ zs \<in> shuffles xs (as @ ys)"
  by (induction as) (auto intro: Cons_in_shuffles_rightI)

fun plain_msg :: "channel_msg \<Rightarrow> bool" where
  "plain_msg Eof = False" | "plain_msg Close = False"
| "plain_msg m = (valid_utf8 (data_of m) \<and> valid_utf8 (extended_of m))"

lemma flush_buffer_open:
  "room st = None \<Longrightarrow>
   flush_buffer mark buf st = st\<lparr>sent := sent st @ (if buf = [] then [] else [mark @ chomp buf])\<rparr>"
  by (simp add: flush_buffer_def send_line_def)

lemma stream_task_lines:
  assumes "list_all plain_msg ms" and "room st = None"
    and "newline \<notin> set (stdout_buf st)" and "newline \<notin> set (stderr_buf st)"
  shows "\<exists>new. sent (stream_task (map (\<lambda>m. MsgBranch (Some m)) ms @ [MsgBranch None]) st) = sent st @ new
    \<and> new \<in> shuffles (text_lines (stdout_buf st @ concat (map data_of ms)))
        (map (\<lambda>l. ''!'' @ l) (text_lines (stderr_buf st @ concat (map extended_of ms))))"
  using assms
proof (induction ms arbitrary: st)
  case Nil
  then show ?case
    by (auto simp: end_of_stream_def flush_buffer_open text_lines_piece Cons_in_shuffles_iff)
next
  case (Cons m ms)
  show ?case
  proof (cases m)
    case (Data d)
    let ?pieces = "split_char newline (stdout_buf st @ d)"
    let ?st = "st\<lparr>sent := sent st @ map chomp (butlast ?pieces), stdout_buf := last ?pieces\<rparr>"
    have v: "from_utf8_lossy d = d" using Cons.prems Data by (simp add: from_utf8_lossy_valid)
    have "newline \<notin> set (last ?pieces)" by (rule split_char_last_clean)
    then have "list_all plain_msg ms" "room ?st = None" "newline \<notin> set (stdout_buf ?st)" "newline \<notin> set (stderr_buf ?st)"
      using Cons.prems by simp_all
    from Cons.IH[OF this] obtain new where new: "sent (stream_task (map (\<lambda>m. MsgBranch (Some m)) ms @ [MsgBranch None]) ?st) = sent ?st @ new"
      "new \<in> shuffles (text_lines (stdout_buf ?st @ concat (map data_of ms)))
          (map (\<lambda>l. ''!'' @ l) (text_lines (stderr_buf ?st @ concat (map extended_of ms))))"
      by blast
    then show ?thesis
      using Data v Cons.prems shuffles_prepend_left[OF new(2), of "map chomp (butlast ?pieces)"]
        text_lines_append[of "stdout_buf st @ d" "concat (map data_of ms)"]
      by (intro exI[of _ "map chomp (butlast ?pieces) @ new"]) (simp add: drain_lines_open)
  next
    case (ExtendedData d)
    let ?pieces = "split_char newline (stderr_buf st @ d)"
    let ?st = "st\<lparr>sent := sent st @ map (\<lambda>l. ''!'' @ chomp l) (butlast ?pieces), stderr_buf := last ?pieces\<rparr>"
    have v: "from_utf8_lossy d = d" using Cons.prems ExtendedData by (simp add: from_utf8_lossy_valid)
    have "newline \<notin> set (last ?pieces)" by (rule split_char_last_clean)
    then have "list_all plain_msg ms" "room ?st = None" "newline \<notin> set (stdout_buf ?st)" "newline \<notin> set (stderr_buf ?st)"
      using Cons.prems by simp_all
    from Cons.IH[OF this] obtain new where new: "sent (stream_task (map (\<lambda>m. MsgBranch (Some m)) ms @ [MsgBranch None]) ?st) = sent ?st @ new"
      "new \<in> shuffles (text_lines (stdout_buf ?st @ concat (map data_of ms)))
          (map (\<lambda>l. ''!'' @ l) (text_lines (stderr_buf ?st @ concat (map extended_of ms))))"
      by blast
    then show ?thesis
      using ExtendedData v Cons.prems
        shuffles_prepend_right[OF new(2), of "map (\<lambda>l. ''!'' @ chomp l) (butlast ?pieces)"]
        text_lines_append[of "stderr_buf st @ d" "concat (map extended_of ms)"]
      by (intro exI[of _ "map (\<lambda>l. ''!'' @ chomp l) (butlast ?pieces) @ new"])
         (simp add: drain_lines_open comp_def)
  qed (use Cons in simp_all)
qed



section \<open>PTY tasks\<close>

text \<open>Whatever the events, a task only forwards data it received, in order.\<close>

fun received :: "output_event \<Rightarrow> string list" where
  "received (OutputMsg (Some (Data d)) ok) = [d]"
| "received (OutputMsg (Some (ExtendedData d)) ok) = [d]"
| "received _ = []"

lemma output_task_prefix:
  "\<exists>n. forwarded (output_task es st) = forwarded st @ take n (concat (map received es))"
proof (induction es st rule: output_task.induct)
  case (3 d send_ok es st)
  then show ?case
    by (cases send_ok) (auto intro: exI[of _ 0] exI[of _ "Suc n" for n])
next
  case (4 d send_ok es st)
  then show ?case
    by (cases send_ok) (auto intro: exI[of _ 0] exI[of _ "Suc n" for n])
qed (auto intro: exI[of _ 0])

lemma output_task_cancelled: "output_task (OutputCancelled # es) st = st"
  by simp

end
