(* ===== verification/PtyRegistry.thy ===== *)
theory PtyRegistry
  imports Prelude
begin

text \<open>
  \<open>crates/core/src/ssh/pty_registry.rs\<close>: the live PTY sessions and the generation counters that
  guard against a stale close. Cancellation tokens are numbers and \<open>cancelled\<close> is the set of
  fired ones; the channels of a session are identified by a number.

  The two maps have a lock each. The second half of the theory runs the operations as their lock
  windows, interleaved in any order.
\<close>

section \<open>The registry\<close>

record pty_session =
  pty_channels :: nat
  pty_cancel :: nat

record pty_registry =
  sessions :: "string \<Rightarrow> pty_session option"
  generations :: "string \<Rightarrow> 64 word option"
  cancelled :: "nat set"

definition new_registry :: pty_registry where
  "new_registry = \<lparr>sessions = Map.empty, generations = Map.empty, cancelled = {}\<rparr>"

text \<open>\<open>sessions.remove(id)\<close> followed by \<open>cancel.cancel()\<close> on what was there.\<close>

definition take_session :: "string \<Rightarrow> pty_registry \<Rightarrow> pty_registry" where
  "take_session cid r =
     (case sessions r cid of
        Some old \<Rightarrow> r\<lparr>sessions := (sessions r)(cid := None), cancelled := insert (pty_cancel old) (cancelled r)\<rparr>
      | None \<Rightarrow> r)"

definition cancel_existing :: "string \<Rightarrow> pty_registry \<Rightarrow> pty_registry" where
  "cancel_existing cid r = take_session cid r"

definition bump_generation :: "string \<Rightarrow> pty_registry \<Rightarrow> 64 word \<times> pty_registry" where
  "bump_generation cid r =
     (let g = unwrap_or 0 (generations r cid) + 1
      in (g, r\<lparr>generations := (generations r)(cid \<mapsto> g)\<rparr>))"

definition put_session :: "string \<Rightarrow> pty_session \<Rightarrow> pty_registry \<Rightarrow> pty_registry" where
  "put_session cid s r = r\<lparr>sessions := (sessions r)(cid \<mapsto> s)\<rparr>"

definition insert_session :: "string \<Rightarrow> pty_session \<Rightarrow> pty_registry \<Rightarrow> 64 word \<times> pty_registry" where
  "insert_session cid s r =
     (let (current_gen, r1) = bump_generation cid r in (current_gen, put_session cid s r1))"

definition get_session :: "string \<Rightarrow> pty_registry \<Rightarrow> pty_session option" where
  "get_session cid r = sessions r cid"

definition cancel_token :: "string \<Rightarrow> pty_registry \<Rightarrow> nat option" where
  "cancel_token cid r = map_option pty_cancel (sessions r cid)"

definition is_stale :: "string \<Rightarrow> 64 word option \<Rightarrow> pty_registry \<Rightarrow> bool" where
  "is_stale cid expected_gen r =
     (case expected_gen of
        Some expected \<Rightarrow> unwrap_or 0 (generations r cid) \<noteq> expected
      | None \<Rightarrow> False)"

definition remove_session :: "string \<Rightarrow> 64 word option \<Rightarrow> pty_registry \<Rightarrow> pty_registry" where
  "remove_session cid expected_gen r =
     (if is_stale cid expected_gen r then r else take_session cid r)"

definition drop_generation :: "string \<Rightarrow> pty_registry \<Rightarrow> pty_registry" where
  "drop_generation cid r = r\<lparr>generations := (generations r)(cid := None)\<rparr>"

definition purge :: "string \<Rightarrow> pty_registry \<Rightarrow> pty_registry" where
  "purge cid r = drop_generation cid (take_session cid r)"

section \<open>Operations in sequence\<close>

datatype pty_op =
    CancelExisting string
  | Insert string pty_session
  | Remove string "64 word option"
  | Purge string

fun run_op :: "pty_op \<Rightarrow> pty_registry \<Rightarrow> pty_registry" where
  "run_op (CancelExisting cid) r = cancel_existing cid r"
| "run_op (Insert cid s) r = snd (insert_session cid s r)"
| "run_op (Remove cid g) r = remove_session cid g r"
| "run_op (Purge cid) r = purge cid r"

fun inserts :: "string \<Rightarrow> pty_op list \<Rightarrow> nat" where
  "inserts cid [] = 0"
| "inserts cid (Insert c s # ops) = (if c = cid then 1 else 0) + inserts cid ops"
| "inserts cid (_ # ops) = inserts cid ops"

lemma take_session_simps [simp]:
  "generations (take_session cid r) = generations r"
  "sessions (take_session cid r) = (sessions r)(cid := None)"
  by (auto simp: take_session_def split: option.splits)

lemma cancelled_take_session:
  "cancelled (take_session cid r) = cancelled r \<union> pty_cancel ` set_option (sessions r cid)"
  by (auto simp: take_session_def split: option.splits)

lemmas registry_ops = cancel_existing_def bump_generation_def put_session_def insert_session_def
  remove_session_def drop_generation_def purge_def

lemma generation_of_run:
  "Purge cid \<notin> set ops \<Longrightarrow>
   unwrap_or 0 (generations (fold run_op ops r) cid)
     = unwrap_or 0 (generations r cid) + of_nat (inserts cid ops)"
proof (induction cid ops arbitrary: r rule: inserts.induct)
  case (2 cid c s ops)
  then show ?case by (simp add: registry_ops Let_def)
next
qed (auto simp: registry_ops)

text \<open>
  C25. A close that carries the generation of an earlier session is ignored: once a newer session
  has been inserted for the connection, whatever else happened short of a purge, it changes
  nothing.
\<close>

theorem stale_close_ignored:
  assumes "insert_session cid s r0 = (g, r1)"
    and "Purge cid \<notin> set ops" and "0 < inserts cid ops" and "inserts cid ops < 2 ^ 64"
  shows "remove_session cid (Some g) (fold run_op ops r1) = fold run_op ops r1"
proof -
  have g: "unwrap_or 0 (generations r1 cid) = g"
    using assms(1) by (auto simp: registry_ops Let_def)
  have "(of_nat (inserts cid ops) :: 64 word) \<noteq> 0"
    using assms(3,4) by (auto simp: word_of_nat_eq_0_iff dest: nat_dvd_not_less)
  then show ?thesis
    using generation_of_run[OF assms(2), of r1] g by (simp add: remove_session_def is_stale_def)
qed

theorem stale_close_ignored_witness:
  "let (g, r1) = insert_session ''c'' \<lparr>pty_channels = 0, pty_cancel = 0\<rparr> new_registry;
       ops = [Remove ''c'' None, Insert ''c'' \<lparr>pty_channels = 1, pty_cancel = 1\<rparr>]
   in remove_session ''c'' (Some g) (fold run_op ops r1) = fold run_op ops r1"
  unfolding Let_def case_prod_beta
  by (rule stale_close_ignored[OF prod.collapse[symmetric]]) simp_all

text \<open>
  A purge restarts the counter, so the guard does not survive it: the close of the first
  session of a connection, arriving after the connection was purged and a new first session was
  inserted, cancels the new session.
\<close>

lemma purge_defeats_the_guard:
  assumes "insert_session cid s (purge cid r) = (g, r1)" and "insert_session cid s' (purge cid r1) = (g', r2)"
  shows "g' = g \<and> sessions (remove_session cid (Some g) r2) cid = None
    \<and> pty_cancel s' \<in> cancelled (remove_session cid (Some g) r2)"
  using assms by (auto simp: registry_ops Let_def is_stale_def cancelled_take_session)

theorem purge_defeats_the_guard_witness:
  "let (g, r1) = insert_session ''c'' \<lparr>pty_channels = 0, pty_cancel = 0\<rparr> (purge ''c'' new_registry);
       (g', r2) = insert_session ''c'' \<lparr>pty_channels = 1, pty_cancel = 1\<rparr> (purge ''c'' r1)
   in 1 \<in> cancelled (remove_session ''c'' (Some g) r2)"
  unfolding Let_def case_prod_beta
  using purge_defeats_the_guard[OF prod.collapse[symmetric] prod.collapse[symmetric],
      where cid = "''c''" and s = "\<lparr>pty_channels = 0, pty_cancel = 0\<rparr>" and r = new_registry
      and s' = "\<lparr>pty_channels = 1, pty_cancel = 1\<rparr>"]
  by simp

section \<open>Operations as lock windows\<close>

datatype pty_pc =
    Start pty_op
  | InsertBumped string pty_session "64 word"
  | RemoveChecked string
  | PurgeTaken string
  | Returned "64 word option"

fun window :: "pty_pc \<Rightarrow> pty_registry \<Rightarrow> pty_pc \<times> pty_registry" where
  "window (Start (CancelExisting cid)) r = (Returned None, take_session cid r)"
| "window (Start (Insert cid s)) r = (case bump_generation cid r of (g, r1) \<Rightarrow> (InsertBumped cid s g, r1))"
| "window (InsertBumped cid s g) r = (Returned (Some g), put_session cid s r)"
| "window (Start (Remove cid expected_gen)) r =
     (if is_stale cid expected_gen r then (Returned None, r) else (RemoveChecked cid, r))"
| "window (RemoveChecked cid) r = (Returned None, take_session cid r)"
| "window (Start (Purge cid)) r = (PurgeTaken cid, take_session cid r)"
| "window (PurgeTaken cid) r = (Returned None, drop_generation cid r)"
| "window (Returned g) r = (Returned g, r)"

type_synonym pty_system = "(nat \<Rightarrow> pty_pc) \<times> pty_registry"

inductive pty_step :: "pty_system \<Rightarrow> pty_system \<Rightarrow> bool" where
  run_window: "window (pcs i) r = (pc', r') \<Longrightarrow> pty_step (pcs, r) (pcs(i := pc'), r')"

inductive_cases pty_stepE: "pty_step (pcs, r) t"

text \<open>Run alone, the windows of an operation are the operation.\<close>

lemma windows_run_op:
  "snd (window (fst (window (Start op) r)) (snd (window (Start op) r))) = run_op op r"
  by (cases op) (simp_all add: registry_ops Let_def split: prod.splits)

text \<open>Each process that inserts brings a session with a token of its own.\<close>

definition pty_init :: "pty_system \<Rightarrow> bool" where
  "pty_init st \<longleftrightarrow> snd st = new_registry
     \<and> (\<forall>i. \<exists>op. fst st i = Start op \<and> (\<forall>cid s. op = Insert cid s \<longrightarrow> pty_cancel s = i))"

fun pending_session :: "pty_pc \<Rightarrow> pty_session option" where
  "pending_session (Start (Insert cid s)) = Some s"
| "pending_session (InsertBumped cid s g) = Some s"
| "pending_session _ = None"

definition pty_inv :: "pty_system \<Rightarrow> bool" where
  "pty_inv st \<longleftrightarrow>
     (\<forall>i s. pending_session (fst st i) = Some s \<longrightarrow> pty_cancel s = i \<and> i \<notin> cancelled (snd st))
   \<and> (\<forall>cid s. sessions (snd st) cid = Some s \<longrightarrow>
        pending_session (fst st (pty_cancel s)) = None \<and> pty_cancel s \<notin> cancelled (snd st))
   \<and> (\<forall>c c' s s'. sessions (snd st) c = Some s \<longrightarrow> sessions (snd st) c' = Some s' \<longrightarrow>
        pty_cancel s = pty_cancel s' \<longrightarrow> c = c')"

lemma pty_init_inv:
  assumes "pty_init st"
  shows "pty_inv st"
proof -
  have "pty_cancel s = i" if p: "pending_session (fst st i) = Some s" for i s
  proof -
    obtain op where op: "fst st i = Start op" "\<forall>cid s. op = Insert cid s \<longrightarrow> pty_cancel s = i"
      using assms unfolding pty_init_def by blast
    then show ?thesis using p by (cases op) auto
  qed
  then show ?thesis using assms by (simp add: pty_init_def pty_inv_def new_registry_def)
qed

lemma pty_inv_take:
  assumes "pty_inv (pcs, r)" and "pending_session pc' = None"
  shows "pty_inv (pcs(i := pc'), take_session cid r)"
  using assms unfolding pty_inv_def
  by (auto simp: cancelled_take_session split: if_splits)

lemma pty_inv_put:
  assumes inv: "pty_inv (pcs, r)" and pc: "pcs i = InsertBumped cid s g"
  shows "pty_inv (pcs(i := Returned (Some g)), put_session cid s r)"
proof -
  have "pending_session (pcs i) = Some s" using pc by simp
  then have new: "pty_cancel s = i" "i \<notin> cancelled r" "pending_session (pcs i) \<noteq> None"
    using inv unfolding pty_inv_def by auto
  then have other: "pty_cancel s' \<noteq> i" if "sessions r c = Some s'" for c s'
    using inv that new(3) unfolding pty_inv_def by (metis fst_conv snd_conv)
  show ?thesis
    using inv new other unfolding pty_inv_def
    by (auto simp: put_session_def split: if_splits)
qed

lemma pty_inv_same:
  assumes "pty_inv (pcs, r)" and "sessions r' = sessions r" and "cancelled r' = cancelled r"
    and "pending_session pc' = None \<or> pending_session pc' = pending_session (pcs i)"
  shows "pty_inv (pcs(i := pc'), r')"
proof -
  have p: "pending_session ((pcs(i := pc')) j) = None
      \<or> pending_session ((pcs(i := pc')) j) = pending_session (pcs j)" for j
    using assms(4) by auto
  have old: "pending_session (pcs j) = Some s" if "pending_session ((pcs(i := pc')) j) = Some s" for j s
    using p[of j] that by auto
  have none: "pending_session ((pcs(i := pc')) j) = None" if "pending_session (pcs j) = None" for j
    using p[of j] that by auto
  show ?thesis
    unfolding pty_inv_def fst_conv snd_conv assms(2,3)
    using assms(1)[unfolded pty_inv_def fst_conv snd_conv] old none by blast
qed

lemma pty_step_inv:
  assumes "pty_inv (pcs, r)" and "window (pcs i) r = (pc', r')"
  shows "pty_inv (pcs(i := pc'), r')"
proof (cases "pcs i")
  case (Start op)
  show ?thesis
  proof (cases op)
    case (Insert cid s)
    then show ?thesis using Start assms(2)
      by (auto simp: bump_generation_def Let_def intro!: pty_inv_same[OF assms(1)])
  next
    case (Remove cid g)
    then show ?thesis using Start assms(2)
      by (auto split: if_splits intro!: pty_inv_same[OF assms(1)])
  qed (use Start assms pty_inv_take[OF assms(1)] in auto)
next
  case (InsertBumped cid s g)
  then show ?thesis using assms pty_inv_put[OF assms(1) InsertBumped] by simp
next
  case (RemoveChecked cid)
  then show ?thesis using assms pty_inv_take[OF assms(1)] by auto
next
  case (PurgeTaken cid)
  then show ?thesis using assms
    by (auto simp: drop_generation_def intro!: pty_inv_same[OF assms(1)])
next
  case (Returned g)
  then show ?thesis using assms by (auto intro!: pty_inv_same[OF assms(1)])
qed

interpretation pty: inv_system pty_init pty_step pty_inv
proof unfold_locales
  fix st st'
  assume inv: "pty_inv st" and step: "pty_step st st'"
  obtain pcs r where st: "st = (pcs, r)" by (cases st)
  from step[unfolded st] show "pty_inv st'"
    by (rule pty_stepE) (use inv st pty_step_inv in auto)
qed (rule pty_init_inv)

text \<open>
  In every interleaving of the registry's lock windows, a session that can be looked up has not
  been cancelled, and two connections never share one.
\<close>

lemma registered_session_live:
  assumes "reach pty_init pty_step (pcs, r)" and "get_session cid r = Some s"
  shows "pty_cancel s \<notin> cancelled r
    \<and> (\<forall>cid' s'. get_session cid' r = Some s' \<longrightarrow> pty_cancel s' = pty_cancel s \<longrightarrow> cid' = cid)"
  using pty.reach_inv[OF assms(1)] assms(2) by (simp add: pty_inv_def get_session_def)

section \<open>A close that races with a new session\<close>

text \<open>Process 0 inserts the first session, process 1 closes it, process 2 inserts the next one.\<close>

definition race_pcs :: "nat \<Rightarrow> pty_pc" where
  "race_pcs i = Start (if i = 1 then Remove ''c'' (Some 1)
     else Insert ''c'' \<lparr>pty_channels = i, pty_cancel = i\<rparr>)"

fun schedule :: "nat list \<Rightarrow> pty_system \<Rightarrow> pty_system" where
  "schedule [] st = st"
| "schedule (i # is) (pcs, r) = (case window (pcs i) r of (pc', r') \<Rightarrow> schedule is (pcs(i := pc'), r'))"

lemma reach_schedule: "reach I pty_step st \<Longrightarrow> reach I pty_step (schedule is st)"
proof (induction "is" st rule: schedule.induct)
  case (2 i "is" pcs r)
  obtain pc' r' where w: "window (pcs i) r = (pc', r')" by (cases "window (pcs i) r")
  then have "reach I pty_step (pcs(i := pc'), r')"
    using 2(2) by (blast intro: reach_step run_window)
  then show ?case using 2(1)[OF w[symmetric]] w by simp
qed simp

lemma race_pcs_init: "pty_init (race_pcs, new_registry)"
  by (auto simp: pty_init_def race_pcs_def)

text \<open>
  The generation check of a close and its removal are two lock windows, so the guard does not
  hold across them: a close of generation 1 that has passed the check removes and cancels the
  session of generation 2 inserted in between.
\<close>

lemma checked_close_kills_newer_session:
  "\<exists>pcs r. reach pty_init pty_step (pcs, r)
     \<and> pcs 1 = Returned None \<and> pcs 2 = Returned (Some 2)
     \<and> get_session ''c'' r = None \<and> 2 \<in> cancelled r"
proof -
  let ?st = "schedule [0, 0, 1, 2, 2, 1] (race_pcs, new_registry)"
  have "reach pty_init pty_step ?st" by (intro reach_schedule reach_init race_pcs_init)
  moreover have "fst ?st 1 = Returned None \<and> fst ?st 2 = Returned (Some 2)
     \<and> get_session ''c'' (snd ?st) = None \<and> 2 \<in> cancelled (snd ?st)"
    by (simp add: race_pcs_def new_registry_def bump_generation_def put_session_def is_stale_def
        take_session_def get_session_def Let_def)
  ultimately show ?thesis
    by (intro exI[of _ "fst ?st"] exI[of _ "snd ?st"]) (simp only: prod.collapse)
qed

lemma registered_session_live_witness:
  "let st = schedule [0, 0] (race_pcs, new_registry) in
   get_session ''c'' (snd st) = Some \<lparr>pty_channels = 0, pty_cancel = 0\<rparr> \<and> 0 \<notin> cancelled (snd st)"
proof -
  let ?st = "schedule [0, 0] (race_pcs, new_registry)"
  have r: "reach pty_init pty_step (fst ?st, snd ?st)"
    unfolding prod.collapse by (intro reach_schedule reach_init race_pcs_init)
  have g: "get_session ''c'' (snd ?st) = Some \<lparr>pty_channels = 0, pty_cancel = 0\<rparr>"
    by (simp add: race_pcs_def new_registry_def bump_generation_def put_session_def get_session_def Let_def)
  have "pty_cancel \<lparr>pty_channels = 0, pty_cancel = 0\<rparr> \<notin> cancelled (snd ?st)"
    using registered_session_live[OF r g] by blast
  then show ?thesis using g by (simp only: Let_def pty_session.select_convs) simp
qed

end
