(* ===== verification/SshClient.thy ===== *)
theory SshClient
  imports HostKeys SftpOps SshExec PtyRegistry
begin

text \<open>
  The SSH client (\<open>crates/core/src/ssh/mod.rs\<close>, \<open>crates/core/src/ssh/error.rs\<close>) and the
  standalone SFTP client (\<open>crates/core/src/sftp_client.rs\<close>): connecting, authenticating, the
  lazily opened SFTP session and the operations that go through it.

  The SSH library is explicit: \<open>handshake\<close> is what the server does on a connection attempt,
  \<open>ssh_session\<close> what it answers on an established session, \<open>agent\<close> the SSH agent. Private keys
  are opaque; the parameter \<open>key_files\<close> is the file system and the key parser.
\<close>

section \<open>Errors and configuration\<close>

datatype ssh_error =
    HostKeyVerification verification_failure
  | ConnectTimeout nat
  | Connect string "16 word" string
  | Auth string
  | KeyLoad string
  | SshNotConnected
  | Transport string

fun display_ssh_error :: "ssh_error \<Rightarrow> string" where
  "display_ssh_error (HostKeyVerification f) = format_verification_failure f"
| "display_ssh_error (ConnectTimeout seconds) =
     ''Connection timed out after '' @ nat_str seconds @ ''s. Please check the host address and network.''"
| "display_ssh_error (Connect host port message) = message"
| "display_ssh_error (Auth message) = message"
| "display_ssh_error (KeyLoad message) = message"
| "display_ssh_error SshNotConnected = ''Not connected''"
| "display_ssh_error (Transport message) = message"

datatype auth_method =
    PasswordAuth string
  | PublicKeyAuth string "string option"
  | AgentAuth "string option"

record ssh_config =
  sc_host :: string
  sc_port :: "16 word"
  sc_username :: string
  sc_auth_method :: auth_method

text \<open>What \<open>Debug\<close> shows: the name of the structure and the fields given to the formatter.\<close>

datatype debug_value =
    DebugStr string
  | DebugPort "16 word"
  | DebugOption "string option"
  | DebugStruct string "(string \<times> debug_value) list"

definition redact_option :: "string option \<Rightarrow> debug_value" where
  "redact_option v = DebugStr (unwrap_or ''<none>'' (map_option (\<lambda>_. ''<redacted>'') v))"

fun debug_auth_method :: "auth_method \<Rightarrow> debug_value" where
  "debug_auth_method (PasswordAuth password) =
     DebugStruct ''AuthMethod::Password'' [(''password'', DebugStr ''<redacted>'')]"
| "debug_auth_method (PublicKeyAuth key_path passphrase) =
     DebugStruct ''AuthMethod::PublicKey''
       [(''key_path'', DebugStr key_path), (''passphrase'', redact_option passphrase)]"
| "debug_auth_method (AgentAuth identity_hint) =
     DebugStruct ''AuthMethod::Agent'' [(''identity_hint'', DebugOption identity_hint)]"

definition debug_ssh_config :: "ssh_config \<Rightarrow> debug_value" where
  "debug_ssh_config c =
     DebugStruct ''SshConfig''
       [(''host'', DebugStr (sc_host c)), (''port'', DebugPort (sc_port c)),
        (''username'', DebugStr (sc_username c)), (''auth_method'', debug_auth_method (sc_auth_method c))]"

datatype sftp_auth_method = SftpPassword string | SftpPublicKey string "string option"

record sftp_config =
  sf_host :: string
  sf_port :: "16 word"
  sf_username :: string
  sf_auth_method :: sftp_auth_method

fun debug_sftp_auth :: "sftp_auth_method \<Rightarrow> debug_value" where
  "debug_sftp_auth (SftpPassword password) =
     DebugStruct ''SftpAuthMethod::Password'' [(''password'', DebugStr ''<redacted>'')]"
| "debug_sftp_auth (SftpPublicKey key_path passphrase) =
     DebugStruct ''SftpAuthMethod::PublicKey''
       [(''key_path'', DebugStr key_path), (''passphrase'', redact_option passphrase)]"

definition debug_sftp_config :: "sftp_config \<Rightarrow> debug_value" where
  "debug_sftp_config c =
     DebugStruct ''SftpConfig''
       [(''host'', DebugStr (sf_host c)), (''port'', DebugPort (sf_port c)),
        (''username'', DebugStr (sf_username c)), (''auth_method'', debug_sftp_auth (sf_auth_method c))]"

section \<open>Algorithms\<close>

datatype hash_alg = Sha256 | Sha512

datatype ecdsa_curve = NistP256 | NistP384 | NistP521

datatype key_algorithm = Ed25519 | Ecdsa ecdsa_curve | Rsa "hash_alg option" | OtherAlgorithm

definition PREFERRED_HOST_KEY_ALGOS :: "key_algorithm list" where
  "PREFERRED_HOST_KEY_ALGOS =
     [Ed25519, Ecdsa NistP256, Ecdsa NistP521, Rsa (Some Sha256), Rsa (Some Sha512), Rsa None]"

datatype kex_name =
    CURVE25519 | CURVE25519_PRE_RFC_8731 | DH_G16_SHA512 | DH_G14_SHA256 | DH_G14_SHA1 | DH_G1_SHA1
  | EXTENSION_SUPPORT_AS_CLIENT | EXTENSION_OPENSSH_STRICT_KEX_AS_CLIENT

definition PREFERRED_KEX_ALGOS :: "kex_name list" where
  "PREFERRED_KEX_ALGOS =
     [CURVE25519, CURVE25519_PRE_RFC_8731, DH_G16_SHA512, DH_G14_SHA256, DH_G14_SHA1, DH_G1_SHA1,
      EXTENSION_SUPPORT_AS_CLIENT, EXTENSION_OPENSSH_STRICT_KEX_AS_CLIENT]"

text \<open>The fields of the library's configuration that are set; the others are its defaults.\<close>

record client_config =
  cc_key :: "key_algorithm list"
  cc_kex :: "kex_name list"
  cc_keepalive_interval :: "nat option"
  cc_keepalive_max :: nat

definition handshake_config :: client_config where
  "handshake_config = \<lparr>cc_key = PREFERRED_HOST_KEY_ALGOS, cc_kex = PREFERRED_KEX_ALGOS,
     cc_keepalive_interval = Some 60, cc_keepalive_max = 3\<rparr>"

text \<open>The signature algorithms tried with a key, in order.\<close>

definition hash_algs :: "key_algorithm \<Rightarrow> hash_alg option list" where
  "hash_algs alg = (case alg of Rsa _ \<Rightarrow> [Some Sha512, Some Sha256, None] | _ \<Rightarrow> [None])"

fun try_hash_algs :: "(hash_alg option \<Rightarrow> string + bool) \<Rightarrow> hash_alg option list \<Rightarrow> ssh_error + bool" where
  "try_hash_algs authenticate [] = Inr False"
| "try_hash_algs authenticate (h # hs) =
     (case authenticate h of
        Inl e \<Rightarrow> Inl (Auth (''Public key authentication failed: '' @ e
                   @ ''. The key may not be authorized on the server.''))
      | Inr success \<Rightarrow> if success then Inr True else try_hash_algs authenticate hs)"

section \<open>Agent identities and key files\<close>

text \<open>\<open>encode\<close> is the base64 form of an identity's public key.\<close>

definition select_agent_identity :: "('i \<Rightarrow> string) \<Rightarrow> 'i list \<Rightarrow> string option \<Rightarrow> 'i option" where
  "select_agent_identity encode identities identity_hint =
     (let hint = (case map_option trim identity_hint of
                    Some h \<Rightarrow> if h = [] then None else Some h
                  | None \<Rightarrow> None)
      in case hint of
           None \<Rightarrow> (case identities of [] \<Rightarrow> None | i # _ \<Rightarrow> Some i)
         | Some h \<Rightarrow>
             List.find (\<lambda>i. str_contains h (encode i) \<or> str_contains (encode i) h) identities)"

definition expand_home_path :: "string option \<Rightarrow> (string \<Rightarrow> string \<Rightarrow> string) \<Rightarrow> string \<Rightarrow> string option" where
  "expand_home_path home_dir path_join path =
     (case strip_prefix ''~/'' path of
        Some rest \<Rightarrow> map_option (\<lambda>home. path_join home rest) home_dir
      | None \<Rightarrow> if path = ''~'' then home_dir else Some path)"

datatype metadata_result = MetaOk | MetaNotFound | MetaDenied | MetaError string

record 'p key_files =
  home_dir :: "string option"
  path_join :: "string \<Rightarrow> string \<Rightarrow> string"
  file_metadata :: "string \<Rightarrow> metadata_result"
  load_secret_key :: "string \<Rightarrow> string option \<Rightarrow> string + 'p"

definition arrow :: string where
  "arrow = [CHR 0xE2, CHR 0x86, CHR 0x92]"

definition load_private_key :: "'p key_files \<Rightarrow> string \<Rightarrow> string option \<Rightarrow> ssh_error + 'p" where
  "load_private_key fs key_path passphrase =
     (case expand_home_path (home_dir fs) (path_join fs) key_path of
        None \<Rightarrow> Inl (KeyLoad (''Cannot resolve '' @ ticked ''~'' @ '' in SSH key path '' @ ticked key_path
                    @ '': home directory unknown.''))
      | Some expanded \<Rightarrow>
          (let location = (if expanded \<noteq> key_path
                           then expanded @ '' (expanded from '' @ key_path @ '')'' else expanded)
           in case file_metadata fs expanded of
                MetaNotFound \<Rightarrow>
                  Inl (KeyLoad (''SSH key file not found: '' @ location
                    @ ''. Please check the file path and try again.''))
              | MetaDenied \<Rightarrow>
                  Inl (KeyLoad (''Permission denied reading SSH key at '' @ location @ ''.'' @ [newline]
                    @ ''On macOS this usually means r-shell hasn'' @ [quote1] @ ''t been granted access to this file. ''
                    @ ''Open System Settings '' @ arrow @ '' Privacy & Security '' @ arrow
                    @ '' Full Disk Access (or App Management / Files and Folders), ''
                    @ ''add r-shell to the list, then try again.''))
              | MetaError e \<Rightarrow>
                  Inl (KeyLoad (''Cannot access SSH key at '' @ location @ '': '' @ e))
              | MetaOk \<Rightarrow>
                  map_err (\<lambda>msg. KeyLoad
                    (if str_contains ''encrypted'' msg \<or> str_contains ''passphrase'' msg
                     then ''Failed to decrypt SSH key at '' @ expanded
                       @ ''. The key may be encrypted. Please provide the correct passphrase.''
                     else ''Failed to load SSH key from '' @ expanded @ '': '' @ msg
                       @ ''. Ensure the file is a valid SSH private key (RSA, Ed25519, or ECDSA).''))
                    (load_secret_key fs expanded passphrase)))"

section \<open>The SSH library and the server\<close>

record 'p ssh_session =
  authenticate_password :: "string \<Rightarrow> string \<Rightarrow> string + bool"
  authenticate_publickey :: "string \<Rightarrow> 'p \<Rightarrow> hash_alg option \<Rightarrow> string + bool"
  authenticate_agent :: "string \<Rightarrow> string \<Rightarrow> hash_alg option \<Rightarrow> string + bool"
  channel_open_session :: "string option"
  channel_exec :: "string \<Rightarrow> string option"
  channel_messages :: "string \<Rightarrow> channel_msg list"
  request_subsystem :: "string option"
  sftp_init :: "string + sftp_env"
  channel_open_direct_tcpip :: "string \<Rightarrow> 16 word \<Rightarrow> string option"
  request_pty :: "32 word \<Rightarrow> 32 word \<Rightarrow> string option"
  request_shell :: "string option"
  other_references :: bool

text \<open>
  A connection attempt times out or fails before a host key is offered, or the server offers a
  key; when it is accepted the handshake goes on to a session, an error or the timeout.
\<close>

datatype 'p after_key = Established "'p ssh_session" | LateTimeout | LateError string

datatype ('k, 'p) handshake = HandshakeTimeout | HandshakeError string | OffersKey 'k "'p after_key"

record agent =
  agent_connect :: "string option"
  request_identities :: "string + string list"

record ('k, 'p) ssh_world =
  keys :: "'k key_ops"
  attempt :: "client_config \<Rightarrow> string \<Rightarrow> 16 word \<Rightarrow> ('k, 'p) handshake"
  key_refused :: string
  io_error :: "string \<Rightarrow> string"
  ssh_agent :: agent
  algorithm :: "'p \<Rightarrow> key_algorithm"
  files :: "'p key_files"

section \<open>Connecting\<close>

datatype 'p resolved_auth =
    ResolvedPassword string
  | ResolvedKey 'p "string option"
  | ResolvedAgent "string option"

text \<open>The handshake: the error text of the library, or the session; \<open>None\<close> is the timeout.\<close>

definition run_handshake :: "('k, 'p) ssh_world \<Rightarrow> string \<Rightarrow> 16 word \<Rightarrow> client \<Rightarrow> host_key_store \<Rightarrow> disk
    \<Rightarrow> (string + 'p ssh_session) option \<times> client \<times> host_key_store \<times> disk" where
  "run_handshake w host port cl store d =
     (case attempt w handshake_config host port of
        HandshakeTimeout \<Rightarrow> (None, cl, store, d)
      | HandshakeError e \<Rightarrow> (Some (Inl e), cl, store, d)
      | OffersKey key rest \<Rightarrow>
          (case check_server_key (keys w) key cl store d of
             (Inl e, cl', store', d') \<Rightarrow> (Some (Inl (io_error w e)), cl', store', d')
           | (Inr accepted, cl', store', d') \<Rightarrow>
               if \<not> accepted then (Some (Inl (key_refused w)), cl', store', d')
               else (case rest of
                       Established s \<Rightarrow> (Some (Inr s), cl', store', d')
                     | LateTimeout \<Rightarrow> (None, cl', store', d')
                     | LateError e \<Rightarrow> (Some (Inl e), cl', store', d'))))"

definition looks_like_reset :: "string \<Rightarrow> bool" where
  "looks_like_reset msg \<longleftrightarrow> str_contains ''reset by peer'' msg \<or> str_contains ''ConnectionReset'' msg
     \<or> str_contains ''kex_exchange_identification'' msg"

definition connect_error :: "string \<Rightarrow> 16 word \<Rightarrow> client \<Rightarrow> string \<Rightarrow> ssh_error" where
  "connect_error host port cl e =
     (case cl_slot cl of
        Some failure \<Rightarrow> HostKeyVerification failure
      | None \<Rightarrow>
          Connect host port
            (if looks_like_reset e
             then ''The SSH server at '' @ host @ '':'' @ nat_str (unat port)
               @ '' accepted the TCP connection but then reset it during the handshake ('' @ e @ '').''
               @ [newline, newline]
               @ ''This usually means the server is rejecting your source IP ''
               @ ''or SSH client via a firewall / access list. Try:'' @ [newline]
               @ ''- Confirm your public IP is on the server'' @ [quote1] @ ''s allowlist (ask ''
               @ ''the service operator).'' @ [newline]
               @ ''- Connect over a VPN that terminates inside the allowed network.'' @ [newline]
               @ ''- Verify the host and port are correct for external access ''
               @ ''(some services publish a different SFTP endpoint).''
             else ''Failed to connect to '' @ host @ '':'' @ nat_str (unat port) @ '': '' @ e))"

definition nonempty_hint :: "string option \<Rightarrow> string option" where
  "nonempty_hint hint = (case hint of Some h \<Rightarrow> if h = [] then None else Some h | None \<Rightarrow> None)"

fun key_hint_for_error :: "'p resolved_auth \<Rightarrow> string option" where
  "key_hint_for_error (ResolvedPassword password) = None"
| "key_hint_for_error (ResolvedKey key key_path_hint) = key_path_hint"
| "key_hint_for_error (ResolvedAgent identity_hint) =
     Some (unwrap_or ''SSH agent'' (nonempty_hint identity_hint))"

definition no_identity :: "string option \<Rightarrow> ssh_error" where
  "no_identity identity_hint =
     Auth (case nonempty_hint identity_hint of
             Some hint \<Rightarrow> ''SSH agent has no identity matching '' @ ticked hint
               @ ''. Add the key to your agent or clear the identity hint.''
           | None \<Rightarrow> ''SSH agent has no identities. Add a key to your agent and try again.'')"

fun authenticate :: "('k, 'p) ssh_world \<Rightarrow> 'p ssh_session \<Rightarrow> string \<Rightarrow> 'p resolved_auth \<Rightarrow> ssh_error + bool" where
  "authenticate w s username (ResolvedPassword password) =
     map_err (\<lambda>e. Auth (''Password authentication failed: '' @ e)) (authenticate_password s username password)"
| "authenticate w s username (ResolvedKey key key_path_hint) =
     try_hash_algs (authenticate_publickey s username key) (hash_algs (algorithm w key))"
| "authenticate w s username (ResolvedAgent identity_hint) =
     (case agent_connect (ssh_agent w) of
        Some e \<Rightarrow> Inl (Auth (''SSH agent authentication is enabled, but r-shell could not connect to SSH_AUTH_SOCK: '' @ e))
      | None \<Rightarrow>
          and_then (map_err (\<lambda>e. Auth (''SSH agent did not return identities: '' @ e))
                      (request_identities (ssh_agent w)))
            (\<lambda>identities.
               and_then (ok_or (no_identity identity_hint)
                           (select_agent_identity (\<lambda>i. i) identities identity_hint))
                 (\<lambda>identity.
                    map_err (\<lambda>e. Auth (''SSH agent authentication failed: '' @ e))
                      (authenticate_agent s username identity None))))"

definition auth_refused :: "string \<Rightarrow> string \<Rightarrow> string option \<Rightarrow> ssh_error" where
  "auth_refused username host hint =
     Auth (case hint of
             None \<Rightarrow> ''Authentication failed for '' @ username @ ''@'' @ host @ '' with password authentication.''
           | Some path \<Rightarrow> ''Authentication failed for '' @ username @ ''@'' @ host @ '' using public key '' @ path @ ''.'')"

definition connect_authenticated :: "('k, 'p) ssh_world \<Rightarrow> string \<Rightarrow> 16 word \<Rightarrow> string \<Rightarrow> 'p resolved_auth
    \<Rightarrow> nat \<Rightarrow> host_key_store \<Rightarrow> disk \<Rightarrow> (ssh_error + 'p ssh_session) \<times> host_key_store \<times> disk" where
  "connect_authenticated w host port username auth timeout store d =
     (case run_handshake w host port (new_client host port) store d of
        (None, cl, store', d') \<Rightarrow> (Inl (ConnectTimeout timeout), store', d')
      | (Some (Inl e), cl, store', d') \<Rightarrow> (Inl (connect_error host port cl e), store', d')
      | (Some (Inr s), cl, store', d') \<Rightarrow>
          (and_then (authenticate w s username auth)
             (\<lambda>ok. if ok then Inr s else Inl (auth_refused username host (key_hint_for_error auth))),
           store', d'))"

section \<open>The clients\<close>

record 'p ssh_client =
  sc_session :: "'p ssh_session option"
  sc_sftp :: "sftp_env option"

definition new_ssh_client :: "'p ssh_client" where
  "new_ssh_client = \<lparr>sc_session = None, sc_sftp = None\<rparr>"

fun resolve_auth :: "('k, 'p) ssh_world \<Rightarrow> auth_method \<Rightarrow> ssh_error + 'p resolved_auth" where
  "resolve_auth w (PasswordAuth password) = Inr (ResolvedPassword password)"
| "resolve_auth w (PublicKeyAuth key_path passphrase) =
     and_then (load_private_key (files w) key_path passphrase) (\<lambda>key. Inr (ResolvedKey key (Some key_path)))"
| "resolve_auth w (AgentAuth identity_hint) = Inr (ResolvedAgent identity_hint)"

definition ssh_connect :: "('k, 'p) ssh_world \<Rightarrow> ssh_config \<Rightarrow> 'p ssh_client \<Rightarrow> host_key_store \<Rightarrow> disk
    \<Rightarrow> (ssh_error + unit) \<times> 'p ssh_client \<times> host_key_store \<times> disk" where
  "ssh_connect w config c store d =
     (case resolve_auth w (sc_auth_method config) of
        Inl e \<Rightarrow> (Inl e, c, store, d)
      | Inr auth \<Rightarrow>
          (case connect_authenticated w (sc_host config) (sc_port config) (sc_username config) auth 10 store d of
             (Inl e, store', d') \<Rightarrow> (Inl e, c, store', d')
           | (Inr s, store', d') \<Rightarrow> (Inr (), c\<lparr>sc_session := Some s\<rparr>, store', d')))"

definition open_channel :: "'p ssh_client \<Rightarrow> string \<Rightarrow> ssh_error + 'p ssh_session" where
  "open_channel c command =
     (case sc_session c of
        None \<Rightarrow> Inl SshNotConnected
      | Some s \<Rightarrow>
          (case channel_open_session s of
             Some e \<Rightarrow> Inl (Transport e)
           | None \<Rightarrow> (case channel_exec s command of Some e \<Rightarrow> Inl (Transport e) | None \<Rightarrow> Inr s)))"

definition execute_command_full :: "'p ssh_client \<Rightarrow> string \<Rightarrow> ssh_error + command_output" where
  "execute_command_full c command =
     and_then (open_channel c command) (\<lambda>s. Inr (exec_loop (channel_messages s command) False no_output))"

definition execute_command :: "'p ssh_client \<Rightarrow> string \<Rightarrow> ssh_error + string" where
  "execute_command c command = and_then (execute_command_full c command) (\<lambda>out. Inr (combined out))"

text \<open>The streaming call returns once the task is spawned; its result is what the receiver gets.\<close>

definition execute_command_streaming :: "'p ssh_client \<Rightarrow> string \<Rightarrow> nat option \<Rightarrow> ssh_error + (stream_event list \<Rightarrow> stream)" where
  "execute_command_streaming c command r =
     and_then (open_channel c command) (\<lambda>s. Inr (\<lambda>events. stream_task events (stream_start r)))"

definition open_direct_tcpip :: "'p ssh_client \<Rightarrow> string \<Rightarrow> 16 word \<Rightarrow> ssh_error + unit" where
  "open_direct_tcpip c host port =
     (case sc_session c of
        None \<Rightarrow> Inl SshNotConnected
      | Some s \<Rightarrow> (case channel_open_direct_tcpip s host port of Some e \<Rightarrow> Inl (Transport e) | None \<Rightarrow> Inr ()))"

definition create_pty_session :: "'p ssh_client \<Rightarrow> 32 word \<Rightarrow> 32 word \<Rightarrow> pty_session \<Rightarrow> ssh_error + pty_session" where
  "create_pty_session c cols rows fresh =
     (case sc_session c of
        Some s \<Rightarrow>
          (case channel_open_session s of
             Some e \<Rightarrow> Inl (Transport e)
           | None \<Rightarrow>
               (case request_pty s cols rows of
                  Some e \<Rightarrow> Inl (Transport e)
                | None \<Rightarrow> (case request_shell s of Some e \<Rightarrow> Inl (Transport e) | None \<Rightarrow> Inr fresh)))
      | None \<Rightarrow> Inl SshNotConnected)"

text \<open>The flag says whether the transport was closed: only the last reference closes it.\<close>

definition ssh_disconnect :: "'p ssh_client \<Rightarrow> (ssh_error + unit) \<times> bool \<times> 'p ssh_client" where
  "ssh_disconnect c =
     (Inr (),
      (case sc_session c of Some s \<Rightarrow> \<not> other_references s | None \<Rightarrow> False),
      c\<lparr>sc_sftp := None, sc_session := None\<rparr>)"

section \<open>File operations\<close>

definition open_sftp :: "'p ssh_session \<Rightarrow> string + sftp_env" where
  "open_sftp s =
     (case channel_open_session s of
        Some e \<Rightarrow> Inl (''Failed to open SFTP channel: '' @ e)
      | None \<Rightarrow>
          (case request_subsystem s of
             Some e \<Rightarrow> Inl (''Failed to start SFTP subsystem: '' @ e)
           | None \<Rightarrow> map_err (\<lambda>e. ''Failed to initialise SFTP session: '' @ e) (sftp_init s)))"

definition sftp_session :: "'p ssh_client \<Rightarrow> (transfer_error + sftp_env) \<times> 'p ssh_client" where
  "sftp_session c =
     (case sc_session c of
        None \<Rightarrow> (Inl (NotConnected ''SSH''), c)
      | Some s \<Rightarrow>
          (case sc_sftp c of
             Some sftp \<Rightarrow> (Inr sftp, c)
           | None \<Rightarrow>
               (case open_sftp s of
                  Inl m \<Rightarrow> (Inl (Session m), c)
                | Inr sftp \<Rightarrow> (Inr sftp, c\<lparr>sc_sftp := Some sftp\<rparr>))))"

text \<open>The common shape of the file operations: get the SFTP session, then run the operation.\<close>

definition with_sftp :: "('c \<Rightarrow> (transfer_error + sftp_env) \<times> 'c) \<Rightarrow> (transfer_error \<Rightarrow> 'r)
    \<Rightarrow> (sftp_env \<Rightarrow> 'r) \<Rightarrow> 'c \<Rightarrow> 'r \<times> 'c" where
  "with_sftp get fail op c =
     (case get c of (Inl e, c') \<Rightarrow> (fail e, c') | (Inr sftp, c') \<Rightarrow> (op sftp, c'))"

definition transfer_failed :: "transfer_error \<Rightarrow> (transfer_error + nat) \<times> xfer" where
  "transfer_failed e = (Inl e, xfer_start)"

definition ssh_list_dir where
  "ssh_list_dir lower render_time path =
     with_sftp sftp_session Inl (\<lambda>sftp. list_dir lower render_time sftp path)"

definition ssh_download_file_with_progress where
  "ssh_download_file_with_progress remote_path local_path cancel =
     with_sftp sftp_session transfer_failed (\<lambda>sftp. download_file sftp remote_path local_path cancel)"

definition ssh_download_file where
  "ssh_download_file remote_path local_path = ssh_download_file_with_progress remote_path local_path None"

definition ssh_download_file_to_memory where
  "ssh_download_file_to_memory remote_path =
     with_sftp sftp_session Inl (\<lambda>sftp. download_to_memory sftp remote_path)"

definition ssh_upload_file_with_progress where
  "ssh_upload_file_with_progress local_path remote_path cancel =
     with_sftp sftp_session transfer_failed (\<lambda>sftp. upload_file sftp local_path remote_path cancel)"

definition ssh_upload_file where
  "ssh_upload_file local_path remote_path = ssh_upload_file_with_progress local_path remote_path None"

definition ssh_upload_file_from_bytes where
  "ssh_upload_file_from_bytes data remote_path =
     with_sftp sftp_session (\<lambda>e. (Inl e, [])) (\<lambda>sftp. upload_from_bytes sftp data remote_path)"

definition ssh_create_dir where
  "ssh_create_dir path = with_sftp sftp_session Inl (\<lambda>sftp. create_dir sftp path)"

definition ssh_rename where
  "ssh_rename old_path new_path = with_sftp sftp_session Inl (\<lambda>sftp. rename_path sftp old_path new_path)"

definition ssh_delete_file where
  "ssh_delete_file path = with_sftp sftp_session Inl (\<lambda>sftp. delete_file sftp path)"

definition ssh_delete_dir where
  "ssh_delete_dir path = with_sftp sftp_session Inl (\<lambda>sftp. delete_dir sftp path)"

section \<open>The standalone SFTP client\<close>

record 'p sftp_client =
  sfc_session :: "'p ssh_session option"
  sfc_sftp :: "sftp_env option"

fun resolve_sftp_auth :: "('k, 'p) ssh_world \<Rightarrow> sftp_auth_method \<Rightarrow> ssh_error + 'p resolved_auth" where
  "resolve_sftp_auth w (SftpPassword password) = Inr (ResolvedPassword password)"
| "resolve_sftp_auth w (SftpPublicKey key_path passphrase) =
     and_then (load_private_key (files w) key_path passphrase) (\<lambda>key. Inr (ResolvedKey key (Some key_path)))"

definition sftp_open :: "'p ssh_session \<Rightarrow> ssh_error + sftp_env" where
  "sftp_open s =
     (case channel_open_session s of
        Some e \<Rightarrow> Inl (Transport e)
      | None \<Rightarrow>
          (case request_subsystem s of
             Some e \<Rightarrow> Inl (Transport e)
           | None \<Rightarrow> map_err Transport (sftp_init s)))"

definition sftp_connect :: "('k, 'p) ssh_world \<Rightarrow> sftp_config \<Rightarrow> host_key_store \<Rightarrow> disk
    \<Rightarrow> (ssh_error + 'p sftp_client) \<times> host_key_store \<times> disk" where
  "sftp_connect w config store d =
     (case resolve_sftp_auth w (sf_auth_method config) of
        Inl e \<Rightarrow> (Inl e, store, d)
      | Inr auth \<Rightarrow>
          (case connect_authenticated w (sf_host config) (sf_port config) (sf_username config) auth 10 store d of
             (Inl e, store', d') \<Rightarrow> (Inl e, store', d')
           | (Inr s, store', d') \<Rightarrow>
               (and_then (sftp_open s) (\<lambda>sftp. Inr \<lparr>sfc_session = Some s, sfc_sftp = Some sftp\<rparr>),
                store', d')))"

definition sftp_disconnect :: "'p sftp_client \<Rightarrow> (ssh_error + unit) \<times> bool \<times> 'p sftp_client" where
  "sftp_disconnect c =
     (Inr (),
      (case sfc_session c of Some s \<Rightarrow> \<not> other_references s | None \<Rightarrow> False),
      c\<lparr>sfc_sftp := None, sfc_session := None\<rparr>)"

definition sftp :: "'p sftp_client \<Rightarrow> (transfer_error + sftp_env) \<times> 'p sftp_client" where
  "sftp c = (ok_or (NotConnected ''SFTP'') (sfc_sftp c), c)"

definition sftp_list_dir where
  "sftp_list_dir lower render_time path = with_sftp sftp Inl (\<lambda>s. list_dir lower render_time s path)"

definition sftp_download_file where
  "sftp_download_file remote_path local_path =
     with_sftp sftp transfer_failed (\<lambda>s. download_file s remote_path local_path None)"

definition sftp_upload_file where
  "sftp_upload_file local_path remote_path =
     with_sftp sftp transfer_failed (\<lambda>s. upload_file s local_path remote_path None)"

definition sftp_create_dir where
  "sftp_create_dir path = with_sftp sftp Inl (\<lambda>s. create_dir s path)"

definition sftp_rename where
  "sftp_rename old_path new_path = with_sftp sftp Inl (\<lambda>s. rename_path s old_path new_path)"

definition sftp_delete_file where
  "sftp_delete_file path = with_sftp sftp Inl (\<lambda>s. delete_file s path)"

definition sftp_delete_dir where
  "sftp_delete_dir path = with_sftp sftp Inl (\<lambda>s. delete_dir s path)"

section \<open>Connections and host keys\<close>

lemma check_server_key_slot:
  assumes "check_server_key ko key (new_client host port) store d = (r, cl, store', d')"
  shows "(r = Inr True \<and> cl_slot cl = None) \<or> (r \<noteq> Inr True \<and> cl_slot cl \<noteq> None)"
  using assms by (auto simp: check_server_key_def new_client_def split: prod.splits sum.splits verdict.splits)

lemma session_handshake:
  assumes "connect_authenticated w host port username auth timeout store d = (Inr s, store', d')"
  shows "\<exists>key cl. attempt w handshake_config host port = OffersKey key (Established s)
    \<and> check_server_key (keys w) key (new_client host port) store d = (Inr True, cl, store', d')
    \<and> authenticate w s username auth = Inr True"
  using assms
  by (auto simp: connect_authenticated_def run_handshake_def and_then_Inr_iff
      split: prod.splits option.splits sum.splits handshake.splits after_key.splits if_splits)

text \<open>
  C4. A session is handed out only when the server offered a host key that the trust store
  accepted during this handshake, and the authentication on that session succeeded; afterwards that
  key is the one the store knows for the host and port.
\<close>

theorem session_has_trusted_key:
  assumes "connect_authenticated w host port username auth timeout store d = (Inr s, store', d')"
  shows "\<exists>key cl. attempt w handshake_config host port = OffersKey key (Established s)
    \<and> check_server_key (keys w) key (new_client host port) store d = (Inr True, cl, store', d')
    \<and> authenticate w s username auth = Inr True
    \<and> fst (verify (keys w) host port key store' d') = Inr Known"
proof -
  obtain key cl where h: "attempt w handshake_config host port = OffersKey key (Established s)"
    "check_server_key (keys w) key (new_client host port) store d = (Inr True, cl, store', d')"
    "authenticate w s username auth = Inr True"
    using session_handshake[OF assms] by blast
  then show ?thesis using accepted_key_known[OF h(2)] by (auto simp: new_client_def)
qed

text \<open>
  C27. When the offered key is refused, or the trust store cannot be used, the connection fails with
  the details of the verification failure, whatever the credentials: they are not used.
\<close>

theorem refused_key_ends_connection:
  assumes "attempt w handshake_config host port = OffersKey key rest"
    and "fst (check_server_key (keys w) key (new_client host port) store d) \<noteq> Inr True"
  shows "\<exists>failure. \<forall>username auth timeout.
     fst (connect_authenticated w host port username auth timeout store d) = Inl (HostKeyVerification failure)"
proof -
  obtain r cl store' d' where c: "check_server_key (keys w) key (new_client host port) store d = (r, cl, store', d')"
    by (metis prod.exhaust)
  then have r: "r \<noteq> Inr True" using assms(2) by simp
  then obtain failure where slot: "cl_slot cl = Some failure" using check_server_key_slot[OF c] by auto
  have "\<exists>e. run_handshake w host port (new_client host port) store d = (Some (Inl e), cl, store', d')"
    using r by (cases r) (auto simp: run_handshake_def assms(1) c)
  then show ?thesis by (auto simp: connect_authenticated_def connect_error_def slot)
qed

text \<open>A small world for the examples: one server, password \<open>pw\<close>, an SFTP subsystem.\<close>

definition demo_session :: "unit ssh_session" where
  "demo_session = \<lparr>authenticate_password = (\<lambda>u p. Inr (p = ''pw'')), authenticate_publickey = (\<lambda>_ _ _. Inr False),
     authenticate_agent = (\<lambda>_ _ _. Inr False), channel_open_session = None, channel_exec = (\<lambda>_. None),
     channel_messages = (\<lambda>_. []), request_subsystem = None, sftp_init = Inr demo_env,
     channel_open_direct_tcpip = (\<lambda>_ _. None), request_pty = (\<lambda>_ _. None), request_shell = None,
     other_references = False\<rparr>"

definition demo_world :: "(string, unit) ssh_world" where
  "demo_world = \<lparr>keys = demo_keys, attempt = (\<lambda>_ _ _. OffersKey ''k'' (Established demo_session)),
     key_refused = ''Unknown server key'', io_error = (\<lambda>e. e),
     ssh_agent = \<lparr>agent_connect = Some ''none'', request_identities = Inr []\<rparr>, algorithm = (\<lambda>_. Ed25519),
     files = \<lparr>home_dir = None, path_join = (\<lambda>a b. a @ b), file_metadata = (\<lambda>_. MetaNotFound),
              load_secret_key = (\<lambda>_ _. Inl [])\<rparr>\<rparr>"

theorem session_has_trusted_key_witness:
  "\<exists>key cl store' d'. attempt demo_world handshake_config ''h'' 22 = OffersKey key (Established demo_session)
    \<and> check_server_key (keys demo_world) key (new_client ''h'' 22) (new_store ''f'' None) demo_disk
        = (Inr True, cl, store', d')
    \<and> fst (verify (keys demo_world) ''h'' 22 key store' d') = Inr Known"
proof -
  let ?r = "connect_authenticated demo_world ''h'' 22 ''u'' (ResolvedPassword ''pw'') 10 (new_store ''f'' None) demo_disk"
  have "fst ?r = Inr demo_session"
    by (simp add: connect_authenticated_def run_handshake_def demo_world_def demo_session_def check_server_key_def
        verify_def trust_def demo_keys_def new_store_def demo_disk_def ensure_loaded_def load_from_disk_def
        make_key_def write_to_disk_def new_client_def Let_def)
  then have "?r = (Inr demo_session, fst (snd ?r), snd (snd ?r))" by (metis prod.collapse)
  from session_has_trusted_key[OF this] show ?thesis by blast
qed

theorem refused_key_ends_connection_witness:
  "\<exists>failure. fst (connect_authenticated demo_world ''h'' 22 ''u'' (ResolvedPassword ''pw'') 10
     \<lparr>hk_path = ''f'', hk_parent = None, hk_state = Some [(''h'', ''other'')]\<rparr> demo_disk)
     = Inl (HostKeyVerification failure)"
proof -
  have a: "attempt demo_world handshake_config ''h'' 22 = OffersKey ''k'' (Established demo_session)"
    by (simp add: demo_world_def)
  have c: "fst (check_server_key (keys demo_world) ''k'' (new_client ''h'' 22)
      \<lparr>hk_path = ''f'', hk_parent = None, hk_state = Some [(''h'', ''other'')]\<rparr> demo_disk) \<noteq> Inr True"
    by (simp add: demo_world_def check_server_key_def verify_def ensure_loaded_def new_client_def
        make_key_def demo_keys_def)
  from refused_key_ends_connection[OF a c] show ?thesis by blast
qed

section \<open>Authentication\<close>

text \<open>A key of the agent is tried once, an RSA key with its SHA-1 signature.\<close>

lemma agent_key_once:
  "agent_connect (ssh_agent w) = None \<Longrightarrow> request_identities (ssh_agent w) = Inr [identity] \<Longrightarrow>
   authenticate w s username (ResolvedAgent None)
     = map_err (\<lambda>e. Auth (''SSH agent authentication failed: '' @ e)) (authenticate_agent s username identity None)"
  by (simp add: and_then_def map_err_def ok_or_def select_agent_identity_def)

text \<open>An RSA key is offered with SHA-512 first and with SHA-1 only when both SHA-2 forms were refused.\<close>

lemma rsa_key_order:
  "try_hash_algs f (hash_algs (Rsa h)) = Inr True \<longleftrightarrow>
     f (Some Sha512) = Inr True
   \<or> f (Some Sha512) = Inr False \<and> f (Some Sha256) = Inr True
   \<or> f (Some Sha512) = Inr False \<and> f (Some Sha256) = Inr False \<and> f None = Inr True"
  by (auto simp: hash_algs_def split: sum.splits bool.splits)

lemma select_agent_identity_in:
  "select_agent_identity encode identities hint = Some i \<Longrightarrow> i \<in> set identities"
  by (auto simp: select_agent_identity_def Let_def find_Some_iff split: option.splits list.splits if_splits)

lemma select_agent_identity_blank:
  "trim h = [] \<Longrightarrow> select_agent_identity encode (i # is) (Some h) = Some i"
  by (simp add: select_agent_identity_def)

lemma expand_home_path_plain:
  "strip_prefix ''~/'' path = None \<Longrightarrow> path \<noteq> ''~'' \<Longrightarrow> expand_home_path home pj path = Some path"
  by (simp add: expand_home_path_def)

section \<open>Secrets\<close>

text \<open>Configurations that differ only in their secrets.\<close>

fun same_but_secret :: "auth_method \<Rightarrow> auth_method \<Rightarrow> bool" where
  "same_but_secret (PasswordAuth p) (PasswordAuth q) = True"
| "same_but_secret (PublicKeyAuth k p) (PublicKeyAuth l q) = (k = l \<and> (p = None) = (q = None))"
| "same_but_secret (AgentAuth h) (AgentAuth i) = (h = i)"
| "same_but_secret _ _ = False"

fun same_sftp_but_secret :: "sftp_auth_method \<Rightarrow> sftp_auth_method \<Rightarrow> bool" where
  "same_sftp_but_secret (SftpPassword p) (SftpPassword q) = True"
| "same_sftp_but_secret (SftpPublicKey k p) (SftpPublicKey l q) = (k = l \<and> (p = None) = (q = None))"
| "same_sftp_but_secret _ _ = False"

lemma redact_option_eq_iff: "redact_option p = redact_option q \<longleftrightarrow> (p = None) = (q = None)"
  by (cases p; cases q) (simp_all add: redact_option_def)

lemma debug_auth_eq_iff: "debug_auth_method a = debug_auth_method b \<longleftrightarrow> same_but_secret a b"
  by (cases a; cases b) (auto simp: redact_option_eq_iff)

lemma debug_sftp_auth_eq_iff: "debug_sftp_auth a = debug_sftp_auth b \<longleftrightarrow> same_sftp_but_secret a b"
  by (cases a; cases b) (auto simp: redact_option_eq_iff)

text \<open>
  C35. The debug form of a connection configuration shows everything except the secrets: two
  configurations are shown alike exactly when they agree on host, port, user, method, key path
  and hint, and on whether a passphrase is set. The password and the passphrase cannot be read
  from it.
\<close>

theorem debug_shows_all_but_secrets:
  "(debug_ssh_config c = debug_ssh_config c' \<longleftrightarrow>
      sc_host c = sc_host c' \<and> sc_port c = sc_port c' \<and> sc_username c = sc_username c'
      \<and> same_but_secret (sc_auth_method c) (sc_auth_method c'))
   \<and> (debug_sftp_config f = debug_sftp_config f' \<longleftrightarrow>
      sf_host f = sf_host f' \<and> sf_port f = sf_port f' \<and> sf_username f = sf_username f'
      \<and> same_sftp_but_secret (sf_auth_method f) (sf_auth_method f'))"
  by (simp add: debug_ssh_config_def debug_sftp_config_def debug_auth_eq_iff debug_sftp_auth_eq_iff)

section \<open>File operations on one session\<close>

text \<open>
  What the file operations of a client rely on: asking for the SFTP session gives the same one
  again, and a failed request leaves the client as it was.
\<close>

locale sftp_entry =
  fixes get :: "'c \<Rightarrow> (transfer_error + sftp_env) \<times> 'c"
  assumes get_again: "get c = (Inr s, c') \<Longrightarrow> get c' = (Inr s, c')"
    and get_failed: "get c = (Inl e, c') \<Longrightarrow> c' = c"
begin

lemma failed_operation: "get c = (Inl e, c') \<Longrightarrow> with_sftp get fail op c = (fail e, c)"
  using get_failed by (auto simp: with_sftp_def)

lemma operation_result: "get c = (Inr s, c') \<Longrightarrow> with_sftp get fail op c = (op s, c')"
  by (simp add: with_sftp_def)

lemma next_operation:
  "get c = (Inr s, c') \<Longrightarrow> with_sftp get fail op c = (r, c1) \<Longrightarrow>
   with_sftp get fail' op' c1 = (op' s, c1)"
  using get_again by (auto simp: with_sftp_def)

lemma operations_share_session:
  "get c = (Inr s, c') \<Longrightarrow>
   fst (with_sftp get fail2 op2 (snd (with_sftp get fail1 op1 c))) = op2 s"
  using get_again by (auto simp: with_sftp_def)

end

interpretation ssh_entry: sftp_entry sftp_session
  by unfold_locales (auto simp: sftp_session_def split: option.splits sum.splits)

interpretation standalone_entry: sftp_entry sftp
  by unfold_locales (auto simp: sftp_def ok_or_def split: option.splits)

interpretation ssh_protocol: protocol_client "\<lambda>c. (fst (ssh_disconnect c), snd (snd (ssh_disconnect c)))"
    "\<lambda>c. sc_session c \<noteq> None \<or> sc_sftp c \<noteq> None"
  by unfold_locales (simp_all add: ssh_disconnect_def)

interpretation sftp_protocol: protocol_client "\<lambda>c. (fst (sftp_disconnect c), snd (snd (sftp_disconnect c)))"
    "\<lambda>c. sfc_session c \<noteq> None \<or> sfc_sftp c \<noteq> None"
  by unfold_locales (simp_all add: sftp_disconnect_def)

text \<open>
  The SFTP channel is opened once: after an operation of the SSH client that reached the
  server, a later upload writes to the same SFTP session and opens nothing, whatever a new
  channel would give.
\<close>

lemma sftp_session_reused:
  assumes "ssh_list_dir lower render_time path c = (Inr entries, c1)"
  shows "\<exists>sftp. sc_sftp c1 = Some sftp \<and> list_dir lower render_time sftp path = Inr entries
    \<and> ssh_upload_file_from_bytes data target c1 = (upload_from_bytes sftp data target, c1)"
proof -
  obtain r c' where g: "sftp_session c = (r, c')" by (cases "sftp_session c")
  have op: "with_sftp sftp_session Inl (\<lambda>sftp. list_dir lower render_time sftp path) c = (Inr entries, c1)"
    using assms by (simp add: ssh_list_dir_def)
  then obtain s where s: "r = Inr s" "c' = c1" "list_dir lower render_time s path = Inr entries"
    using g by (cases r) (auto simp: with_sftp_def)
  have "sc_sftp c1 = Some s"
    using g s by (auto simp: sftp_session_def split: option.splits sum.splits)
  then show ?thesis
    using ssh_entry.next_operation[OF g[unfolded s(1)] op] s(3) by (auto simp: ssh_upload_file_from_bytes_def)
qed

theorem sftp_session_reused_witness:
  "ssh_upload_file_from_bytes ''abc'' ''f'' \<lparr>sc_session = Some demo_session, sc_sftp = Some demo_env\<rparr>
     = (upload_from_bytes demo_env ''abc'' ''f'', \<lparr>sc_session = Some demo_session, sc_sftp = Some demo_env\<rparr>)"
proof -
  let ?c = "\<lparr>sc_session = Some demo_session, sc_sftp = None\<rparr>"
  have "ssh_list_dir to_ascii_lowercase (\<lambda>_. None) ''/'' ?c
      = (Inr (sort_entries to_ascii_lowercase
           (list_dir_loop (\<lambda>_. None) [demo_entry ''.'' True, demo_entry ''b'' False, demo_entry ''A'' True])),
         ?c\<lparr>sc_sftp := Some demo_env\<rparr>)"
    by (simp add: ssh_list_dir_def with_sftp_def sftp_session_def open_sftp_def demo_session_def
        list_dir_def demo_env_def)
  from sftp_session_reused[OF this, of "''abc''" "''f''"] show ?thesis by auto
qed

end
