(* ===== verification/Tunnel.thy ===== *)
theory Tunnel
  imports SshClient
begin

text \<open>
  SSH local forwarding, \<open>crates/core/src/ssh/tunnel.rs\<close>. The accept loop and a forwarder are run on the
  events they select; the cancellation tokens of tunnels are numbers.
\<close>

record ssh_tunnel_ref =
  tr_ssh_connection_id :: string
  tr_remote_host :: string
  tr_remote_port :: "16 word"

text \<open>The last three fields are what the accept task has captured.\<close>

record ssh_tunnel =
  tn_local_port :: "16 word"
  tn_cancel :: nat
  tn_ssh_client :: nat
  tn_remote_host :: string
  tn_remote_port :: "16 word"

text \<open>\<open>listen\<close> is the outcome of listening on \<open>127.0.0.1:0\<close>: an error or the port.\<close>

definition tunnel_open :: "(string \<Rightarrow> string + 16 word) \<Rightarrow> nat \<Rightarrow> nat \<Rightarrow> string \<Rightarrow> 16 word \<Rightarrow> string + ssh_tunnel" where
  "tunnel_open listen cancel ssh_client remote_host remote_port =
     and_then (listen ''127.0.0.1:0'')
       (\<lambda>port. Inr \<lparr>tn_local_port = port, tn_cancel = cancel, tn_ssh_client = ssh_client,
                    tn_remote_host = remote_host, tn_remote_port = remote_port\<rparr>)"

section \<open>The accept loop\<close>

datatype 'i accept_event = AcceptCancelled | Accepted 'i | AcceptFailed string

text \<open>The connections that get a forwarder.\<close>

fun run_accept_loop :: "'i accept_event list \<Rightarrow> 'i list" where
  "run_accept_loop [] = []"
| "run_accept_loop (AcceptCancelled # es) = []"
| "run_accept_loop (Accepted i # es) = i # run_accept_loop es"
| "run_accept_loop (AcceptFailed e # es) = run_accept_loop es"

text \<open>After the cancellation no connection is forwarded.\<close>

lemma accept_loop_cancelled:
  "run_accept_loop (es @ AcceptCancelled # fs) = run_accept_loop es"
  by (induction es rule: run_accept_loop.induct) simp_all

section \<open>A forwarder\<close>

text \<open>
  One direction: what \<open>tokio::io::copy\<close> has written, whether its source has ended, and whether the
  write side was shut down, which happens when the copy returns.
\<close>

record copy_state =
  cp_sent :: string
  cp_shut :: bool

definition copy_start :: copy_state where
  "copy_start = \<lparr>cp_sent = [], cp_shut = False\<rparr>"

datatype copy_event = CopyChunk string | CopyEnd | CopyError string

fun copy_one :: "copy_event \<Rightarrow> copy_state \<Rightarrow> copy_state" where
  "copy_one (CopyChunk chunk) s = s\<lparr>cp_sent := cp_sent s @ chunk\<rparr>"
| "copy_one CopyEnd s = s\<lparr>cp_shut := True\<rparr>"
| "copy_one (CopyError e) s = s\<lparr>cp_shut := True\<rparr>"

datatype splice_event = LocalToSsh copy_event | SshToLocal copy_event | SpliceCancelled

text \<open>
  \<open>try_join!\<close> of the copies beside the cancellation: it returns with the first error, and without one
  when both have ended; a copy that has returned has no more events. \<open>None\<close>: it still waits.
\<close>

definition copies_done :: "copy_event \<Rightarrow> copy_state \<Rightarrow> (string + unit) option" where
  "copies_done ev other =
     (case ev of
        CopyChunk _ \<Rightarrow> None
      | CopyError e \<Rightarrow> Some (Inl e)
      | CopyEnd \<Rightarrow> if cp_shut other then Some (Inr ()) else None)"

fun splice :: "splice_event list \<Rightarrow> copy_state \<Rightarrow> copy_state
    \<Rightarrow> (string + unit) option \<times> copy_state \<times> copy_state" where
  "splice [] up down = (None, up, down)"
| "splice (SpliceCancelled # es) up down = (Some (Inr ()), up, down)"
| "splice (LocalToSsh ev # es) up down =
     (if cp_shut up then splice es up down
      else case copies_done ev down of
        Some r \<Rightarrow> (Some r, copy_one ev up, down)
      | None \<Rightarrow> splice es (copy_one ev up) down)"
| "splice (SshToLocal ev # es) up down =
     (if cp_shut down then splice es up down
      else case copies_done ev up of
        Some r \<Rightarrow> (Some r, up, copy_one ev down)
      | None \<Rightarrow> splice es up (copy_one ev down))"

definition forward_one :: "'p ssh_client \<Rightarrow> string \<Rightarrow> 16 word \<Rightarrow> splice_event list
    \<Rightarrow> (string + unit) option \<times> copy_state \<times> copy_state" where
  "forward_one client remote_host remote_port events =
     (case open_direct_tcpip client remote_host remote_port of
        Inl e \<Rightarrow> (Some (Inl (display_ssh_error e)), copy_start, copy_start)
      | Inr _ \<Rightarrow> splice events copy_start copy_start)"

section \<open>What a forwarder does\<close>

text \<open>The chunks read in one direction before it ended.\<close>

fun chunks_up :: "splice_event list \<Rightarrow> string list" where
  "chunks_up [] = []"
| "chunks_up (LocalToSsh (CopyChunk c) # es) = c # chunks_up es"
| "chunks_up (LocalToSsh _ # es) = []"
| "chunks_up (_ # es) = chunks_up es"

fun chunks_down :: "splice_event list \<Rightarrow> string list" where
  "chunks_down [] = []"
| "chunks_down (SshToLocal (CopyChunk c) # es) = c # chunks_down es"
| "chunks_down (SshToLocal _ # es) = []"
| "chunks_down (_ # es) = chunks_down es"

lemma splice_prefix_up:
  "splice es up down = (r, up', down') \<Longrightarrow>
   \<exists>n. cp_sent up' = cp_sent up @ concat (take n (if cp_shut up then [] else chunks_up es))"
proof (induction es up down rule: splice.induct)
  case (3 ev es up down)
  show ?case
  proof (cases ev)
    case (CopyChunk c)
    show ?thesis
    proof (cases "cp_shut up")
      case False
      then obtain n where "cp_sent up' = (cp_sent up @ c) @ concat (take n (chunks_up es))"
        using 3 CopyChunk by (auto simp: copies_done_def)
      then show ?thesis using False CopyChunk by (intro exI[of _ "Suc n"]) simp
    qed (use 3 in auto)
  qed (use 3 in \<open>auto simp: copies_done_def split: if_splits\<close>)
next
  case (4 ev es up down)
  then show ?case by (cases ev) (auto simp: copies_done_def split: if_splits intro: exI[of _ 0])
qed (auto intro: exI[of _ 0])

lemma splice_prefix_down:
  "splice es up down = (r, up', down') \<Longrightarrow>
   \<exists>n. cp_sent down' = cp_sent down @ concat (take n (if cp_shut down then [] else chunks_down es))"
proof (induction es up down rule: splice.induct)
  case (4 ev es up down)
  show ?case
  proof (cases ev)
    case (CopyChunk c)
    show ?thesis
    proof (cases "cp_shut down")
      case False
      then obtain n where "cp_sent down' = (cp_sent down @ c) @ concat (take n (chunks_down es))"
        using 4 CopyChunk by (auto simp: copies_done_def)
      then show ?thesis using False CopyChunk by (intro exI[of _ "Suc n"]) simp
    qed (use 4 in auto)
  qed (use 4 in \<open>auto simp: copies_done_def split: if_splits\<close>)
next
  case (3 ev es up down)
  then show ?case by (cases ev) (auto simp: copies_done_def split: if_splits intro: exI[of _ 0])
qed (auto intro: exI[of _ 0])

text \<open>A forwarder that returns without an error and without its cancellation has copied both directions to their ends.\<close>

lemma splice_complete:
  "splice es up down = (Some (Inr ()), up', down') \<Longrightarrow> SpliceCancelled \<notin> set es \<Longrightarrow>
   cp_sent up' = cp_sent up @ concat (if cp_shut up then [] else chunks_up es)
   \<and> cp_sent down' = cp_sent down @ concat (if cp_shut down then [] else chunks_down es)
   \<and> cp_shut up' \<and> cp_shut down'"
proof (induction es up down rule: splice.induct)
  case (3 ev es up down)
  then show ?case by (cases ev) (auto simp: copies_done_def split: if_splits)
next
  case (4 ev es up down)
  then show ?case by (cases ev) (auto simp: copies_done_def split: if_splits)
qed auto

text \<open>
  The end of one direction does not end the other, in spite of the comment at the splice: the server's
  chunks are still written to a client that has closed its half, and the forwarder waits.
\<close>

lemma half_closed_goes_on:
  "\<not> cp_shut up \<Longrightarrow> \<not> cp_shut down \<Longrightarrow>
   splice (LocalToSsh CopyEnd # map (SshToLocal \<circ> CopyChunk) cs) up down =
     (None, up\<lparr>cp_shut := True\<rparr>, down\<lparr>cp_sent := cp_sent down @ concat cs\<rparr>)"
proof -
  have "\<not> cp_shut d \<Longrightarrow> splice (map (SshToLocal \<circ> CopyChunk) cs) u d = (None, u, d\<lparr>cp_sent := cp_sent d @ concat cs\<rparr>)" for u d
    by (induction cs arbitrary: d) (simp_all add: copies_done_def)
  then show "\<not> cp_shut up \<Longrightarrow> \<not> cp_shut down \<Longrightarrow> ?thesis" by (simp add: copies_done_def)
qed

text \<open>The cancellation ends a forwarder at once, in spite of the comment on the lifetime of tunnels.\<close>

lemma cancelled_forwarder_stops:
  "\<not> cp_shut up \<Longrightarrow> \<not> cp_shut down \<Longrightarrow>
   fst (splice (map (LocalToSsh \<circ> CopyChunk) cs @ SpliceCancelled # es) up down) = Some (Inr ())"
  by (induction cs arbitrary: up) (simp_all add: copies_done_def)

text \<open>Through a client without a session nothing is forwarded.\<close>

lemma no_session_no_forward:
  "sc_session client = None \<Longrightarrow>
   forward_one client host port events = (Some (Inl (display_ssh_error SshNotConnected)), copy_start, copy_start)"
  by (simp add: forward_one_def open_direct_tcpip_def)

end
