(* ===== verification/Ftp.thy ===== *)
theory Ftp
  imports SftpOps
begin

text \<open>
  The FTP/FTPS client, \<open>crates/core/src/ftp_client.rs\<close>. The FTP library and the local disk are
  the record \<open>ftp_stream\<close>: what each command of the control connection gives. Both stream kinds run
  the same operations; connecting tells them apart.
\<close>

section \<open>Data\<close>

datatype ftp_error = FtpConnect string | FtpTls string | FtpAuth string | FtpProtocol string

fun display_ftp_error :: "ftp_error \<Rightarrow> string" where
  "display_ftp_error (FtpConnect message) = message"
| "display_ftp_error (FtpTls message) = message"
| "display_ftp_error (FtpAuth message) = message"
| "display_ftp_error (FtpProtocol message) = message"

record ftp_config =
  ftp_host :: string
  ftp_port :: "16 word"
  ftp_username :: string
  ftp_password :: string
  ftps_enabled :: bool
  ftp_anonymous :: bool
  allow_invalid_certs :: bool

record ftp_stream =
  ftp_list :: "string \<Rightarrow> string + string list"
  ftp_retr :: "string \<Rightarrow> string + read_result list"
  ftp_put :: "string \<Rightarrow> string option"
  ftp_local_open :: "string \<Rightarrow> string + read_result list"
  ftp_local_create :: "string \<Rightarrow> string option"
  ftp_write_error :: "nat \<Rightarrow> (nat \<times> string) option"
  ftp_flush_error :: "(nat \<times> string) option"
  ftp_finalize :: "string option"
  ftp_mkdir :: "string \<Rightarrow> string option"
  ftp_rename_error :: "string \<Rightarrow> string \<Rightarrow> string option"
  ftp_rm :: "string \<Rightarrow> string option"
  ftp_rmdir :: "string \<Rightarrow> string option"
  ftp_quit :: "string option"

datatype stream_kind = Plain ftp_stream | Secure ftp_stream

fun stream_of :: "stream_kind \<Rightarrow> ftp_stream" where
  "stream_of (Plain s) = s"
| "stream_of (Secure s) = s"

text \<open>
  The flag is the state of the control connection: a transfer was begun whose closing reply nobody has
  read, so it would be taken for the reply to the next command.
\<close>

record ftp_client =
  ftp_kind :: "stream_kind option"
  ftp_unfinished :: bool

section \<open>Connecting\<close>

text \<open>
  What the server does: \<open>None\<close> is the timeout of the TCP connection. The flag of the TLS handshake
  says whether invalid certificates are accepted.
\<close>

record ftp_server =
  ftp_tcp :: "string \<Rightarrow> (string + ftp_stream) option"
  ftp_tls :: "bool \<Rightarrow> string \<Rightarrow> ftp_stream \<Rightarrow> string + ftp_stream"
  ftp_login :: "ftp_stream \<Rightarrow> string \<Rightarrow> string \<Rightarrow> string option"
  ftp_binary :: "ftp_stream \<Rightarrow> string option"

definition ftp_addr :: "ftp_config \<Rightarrow> string" where
  "ftp_addr config = ftp_host config @ '':'' @ nat_str (unat (ftp_port config))"

definition ftp_connect_stream :: "ftp_server \<Rightarrow> ftp_config \<Rightarrow> ftp_error + stream_kind" where
  "ftp_connect_stream srv config =
     (if ftps_enabled config
      then case ftp_tcp srv (ftp_addr config) of
             None \<Rightarrow> Inl (FtpConnect (''FTPS connection timed out after 15s. Check host '' @ ftp_host config
                       @ '' and port '' @ nat_str (unat (ftp_port config)) @ ''.''))
           | Some (Inl e) \<Rightarrow> Inl (FtpConnect (''FTPS TCP connect to '' @ ftp_addr config @ '' failed: '' @ e))
           | Some (Inr s) \<Rightarrow>
               (case ftp_tls srv (allow_invalid_certs config) (ftp_host config) s of
                  Inl e \<Rightarrow> Inl (FtpTls (''FTPS TLS handshake failed: '' @ e
                    @ ''. If the server uses a self-signed certificate, re-connect with ''
                    @ ticked ''Allow invalid TLS certificates'' @ '' enabled.''))
                | Inr t \<Rightarrow> Inr (Secure t))
      else case ftp_tcp srv (ftp_addr config) of
             None \<Rightarrow> Inl (FtpConnect (''FTP connection timed out after 15s. Check host '' @ ftp_host config
                       @ '' and port '' @ nat_str (unat (ftp_port config)) @ ''.''))
           | Some (Inl e) \<Rightarrow> Inl (FtpConnect (''FTP TCP connect to '' @ ftp_addr config @ '' failed: '' @ e))
           | Some (Inr s) \<Rightarrow> Inr (Plain s))"

definition ftp_credentials :: "ftp_config \<Rightarrow> string \<times> string" where
  "ftp_credentials config =
     (if ftp_anonymous config then (''anonymous'', ''anonymous@'')
      else (ftp_username config, ftp_password config))"

definition ftp_connect :: "ftp_server \<Rightarrow> ftp_config \<Rightarrow> ftp_error + ftp_client" where
  "ftp_connect srv config =
     and_then (ftp_connect_stream srv config)
       (\<lambda>kind. let (user, pass) = ftp_credentials config in
          case ftp_login srv (stream_of kind) user pass of
            Some e \<Rightarrow> Inl (FtpAuth (''FTP authentication failed for user '' @ ticked user @ '': '' @ e))
          | None \<Rightarrow>
              (case ftp_binary srv (stream_of kind) of
                 Some e \<Rightarrow> Inl (FtpProtocol (''Failed to set binary transfer type: '' @ e))
               | None \<Rightarrow> Inr \<lparr>ftp_kind = Some kind, ftp_unfinished = False\<rparr>))"

text \<open>A failing \<open>QUIT\<close> is only logged.\<close>

definition ftp_disconnect :: "ftp_client \<Rightarrow> (ftp_error + unit) \<times> ftp_client" where
  "ftp_disconnect c = (Inr (), c\<lparr>ftp_kind := None\<rparr>)"

section \<open>Listings\<close>

definition name_only :: "string \<Rightarrow> string option \<Rightarrow> file_entry_type \<Rightarrow> file_entry" where
  "name_only name permissions file_type =
     \<lparr>fe_name = name, fe_size = 0, fe_modified = None, fe_modified_unix = None,
      fe_permissions = permissions, fe_owner = None, fe_group = None, fe_type = file_type\<rparr>"

definition list_line_type :: "string \<Rightarrow> file_entry_type" where
  "list_line_type perms_str =
     (if starts_with ''d'' perms_str then Directory
      else if starts_with ''l'' perms_str then Symlink else File)"

definition parse_ftp_list_line :: "string \<Rightarrow> file_entry option" where
  "parse_ftp_list_line raw =
     (let line = trim raw in
      if line = [] then None
      else let parts = splitn_ws 9 line; tokens = split_whitespace line in
      if length parts < 9
      then (if tokens = [] then None else Some (name_only (last tokens) None File))
      else let perms_str = parts ! 0; file_type = list_line_type perms_str in
      if length tokens < 9
      then Some (name_only (if tokens = [] then [] else last tokens) (Some perms_str) file_type)
      else let full_name = join '' '' (drop 8 tokens) in
        Some \<lparr>fe_name = (if file_type = Symlink then split_first '' -> '' full_name else full_name),
              fe_size = unwrap_or 0 (parse_uint u64_max (tokens ! 4)),
              fe_modified = Some (tokens ! 5 @ '' '' @ tokens ! 6 @ '' '' @ tokens ! 7),
              fe_modified_unix = None, fe_permissions = Some perms_str,
              fe_owner = None, fe_group = None, fe_type = file_type\<rparr>)"

definition collect_list_lines :: "string list \<Rightarrow> file_entry list" where
  "collect_list_lines entries =
     filter (\<lambda>e. fe_name e \<noteq> ''.'' \<and> fe_name e \<noteq> ''..'') (List.map_filter parse_ftp_list_line entries)"

text \<open>The \<open>ftp_stream!\<close> macro: the stream of the client, or the error.\<close>

definition with_stream :: "ftp_client \<Rightarrow> (transfer_error \<Rightarrow> 'r) \<Rightarrow> (ftp_stream \<Rightarrow> 'r) \<Rightarrow> 'r" where
  "with_stream c fail op =
     (case ftp_kind c of None \<Rightarrow> fail (NotConnected ''FTP'') | Some k \<Rightarrow> op (stream_of k))"

definition ftp_list_dir :: "(string \<Rightarrow> string) \<Rightarrow> string \<Rightarrow> ftp_client \<Rightarrow> transfer_error + file_entry list" where
  "ftp_list_dir lower path c =
     with_stream c Inl (\<lambda>s.
       and_then (map_err (\<lambda>e. Operation (''Failed to list directory '' @ ticked path @ '': '' @ e)) (ftp_list s path))
         (\<lambda>entries. Inr (sort_entries lower (collect_list_lines entries))))"

section \<open>Transfers\<close>

text \<open>
  The loop of both transfers: the error, and what is in the destination. A failing write comes with the
  number of bytes that are there by then.
\<close>

fun ftp_copy :: "string \<Rightarrow> string \<Rightarrow> (nat \<Rightarrow> (nat \<times> string) option) \<Rightarrow> nat \<Rightarrow> read_result list \<Rightarrow> string
    \<Rightarrow> transfer_error option \<times> string" where
  "ftp_copy read_msg write_msg werr k [] out = (None, out)"
| "ftp_copy read_msg write_msg werr k (ReadErr e # rs) out = (Some (Operation (read_msg @ e)), out)"
| "ftp_copy read_msg write_msg werr k (ReadBytes b # rs) out =
     (if b = [] then (None, out)
      else case werr k of
        Some (m, e) \<Rightarrow> (Some (Operation (write_msg @ e)), take m (out @ b))
      | None \<Rightarrow> ftp_copy read_msg write_msg werr (Suc k) rs (out @ b))"

text \<open>The results are the number of bytes, the content of the destination if it was touched, and the
  client.\<close>

definition ftp_download_file :: "string \<Rightarrow> string \<Rightarrow> ftp_client
    \<Rightarrow> (transfer_error + nat) \<times> string option \<times> ftp_client" where
  "ftp_download_file remote local c =
     with_stream c (\<lambda>e. (Inl e, None, c)) (\<lambda>s.
       case ftp_retr s remote of
         Inl e \<Rightarrow> (Inl (Operation (''Failed to download file '' @ ticked remote @ '': '' @ e)), None, c)
       | Inr reads \<Rightarrow>
           (let c1 = c\<lparr>ftp_unfinished := True\<rparr> in
            case ftp_local_create s local of
              Some e \<Rightarrow> (Inl (Operation (''Failed to create local file '' @ ticked local @ '': '' @ e)), None, c1)
            | None \<Rightarrow>
                (case ftp_copy ''Failed to read download stream: '' ''Failed to write local file: ''
                        (ftp_write_error s) 0 reads [] of
                   (Some e, out) \<Rightarrow> (Inl e, Some out, c1)
                 | (None, out) \<Rightarrow>
                     (case ftp_flush_error s of
                        Some (m, e) \<Rightarrow> (Inl (Operation (''Failed to flush local file: '' @ e)), Some (take m out), c1)
                      | None \<Rightarrow>
                          (let c2 = c1\<lparr>ftp_unfinished := False\<rparr> in
                           case ftp_finalize s of
                             Some e \<Rightarrow> (Inl (Operation (''Failed to finalize download: '' @ e)), Some out, c2)
                           | None \<Rightarrow> (Inr (length out), Some out, c2))))))"

definition ftp_upload_file :: "string \<Rightarrow> string \<Rightarrow> ftp_client
    \<Rightarrow> (transfer_error + nat) \<times> string option \<times> ftp_client" where
  "ftp_upload_file local remote c =
     with_stream c (\<lambda>e. (Inl e, None, c)) (\<lambda>s.
       case ftp_put s remote of
         Some e \<Rightarrow> (Inl (Operation (''Failed to open upload stream: '' @ e)), None, c)
       | None \<Rightarrow>
           (let c1 = c\<lparr>ftp_unfinished := True\<rparr> in
            case ftp_local_open s local of
              Inl e \<Rightarrow> (Inl (Operation (''Failed to open local file '' @ ticked local @ '': '' @ e)), Some [], c1)
            | Inr reads \<Rightarrow>
                (case ftp_copy ''Failed to read local file: '' ''Failed to write upload stream: ''
                        (ftp_write_error s) 0 reads [] of
                   (Some e, out) \<Rightarrow> (Inl e, Some out, c1)
                 | (None, out) \<Rightarrow>
                     (let c2 = c1\<lparr>ftp_unfinished := False\<rparr> in
                      case ftp_finalize s of
                        Some e \<Rightarrow> (Inl (Operation (''Failed to finalize upload: '' @ e)), Some out, c2)
                      | None \<Rightarrow> (Inr (length out), Some out, c2)))))"

definition ftp_create_dir :: "string \<Rightarrow> ftp_client \<Rightarrow> transfer_error + unit" where
  "ftp_create_dir path c =
     with_stream c Inl (\<lambda>s. op_error (''Failed to create directory '' @ ticked path) (ftp_mkdir s path))"

definition ftp_rename :: "string \<Rightarrow> string \<Rightarrow> ftp_client \<Rightarrow> transfer_error + unit" where
  "ftp_rename old_path new_path c =
     with_stream c Inl (\<lambda>s.
       op_error (''Failed to rename '' @ ticked old_path @ '' to '' @ ticked new_path)
         (ftp_rename_error s old_path new_path))"

definition ftp_delete_file :: "string \<Rightarrow> ftp_client \<Rightarrow> transfer_error + unit" where
  "ftp_delete_file path c =
     with_stream c Inl (\<lambda>s. op_error (''Failed to delete file '' @ ticked path) (ftp_rm s path))"

definition ftp_delete_dir :: "string \<Rightarrow> ftp_client \<Rightarrow> transfer_error + unit" where
  "ftp_delete_dir path c =
     with_stream c Inl (\<lambda>s. op_error (''Failed to delete directory '' @ ticked path) (ftp_rmdir s path))"

interpretation ftp_protocol: protocol_client ftp_disconnect "\<lambda>c. ftp_kind c \<noteq> None"
  by unfold_locales (simp_all add: ftp_disconnect_def)

section \<open>What a transfer leaves\<close>

lemma ftp_copy_prefix:
  "ftp_copy rm wm werr k reads out = (e, out') \<Longrightarrow>
   (\<exists>rest. out' @ rest = out @ concat (data_chunks reads)) \<and> (e = None \<longrightarrow> out' = out @ concat (data_chunks reads))"
proof (induction rm wm werr k reads out rule: ftp_copy.induct)
  case (3 rm wm werr k b rs out)
  show ?case
  proof (cases "b = [] \<or> werr k = None")
    case True
    then show ?thesis using 3 by (auto split: if_splits)
  next
    case False
    then obtain m msg where "b \<noteq> []" "out' = take m (out @ b)" "e = Some (Operation (wm @ msg))"
      using 3(2) by auto
    then show ?thesis using cut_prefix[of "out @ b" "concat (data_chunks rs)" _ m] by (simp del: take_append)
  qed
qed auto


definition demo_ftp :: ftp_stream where
  "demo_ftp = \<lparr>ftp_list = (\<lambda>_. Inr []), ftp_retr = (\<lambda>_. Inr [ReadBytes ''ab'']), ftp_put = (\<lambda>_. None),
     ftp_local_open = (\<lambda>_. Inl ''No such file''), ftp_local_create = (\<lambda>_. None), ftp_write_error = (\<lambda>_. None),
     ftp_flush_error = None, ftp_finalize = None, ftp_mkdir = (\<lambda>_. None), ftp_rename_error = (\<lambda>_ _. None),
     ftp_rm = (\<lambda>_. None), ftp_rmdir = (\<lambda>_. None), ftp_quit = None\<rparr>"


section \<open>The parser on well-formed lines\<close>

lemma splitn_ws_Suc_Suc:
  "splitn_ws (Suc (Suc n)) s =
     (if drop (length (take_word s)) s = [] then [s]
      else take_word s # splitn_ws (Suc n)
        (drop (ws_head (drop (length (take_word s)) s)) (drop (length (take_word s)) s)))"
  by (simp add: Let_def)

lemma take_word_blank: "take_word (CHR '' '' # s) = []"
  by (simp add: ws_head_space del: ws_head.simps)

lemma length_splitn_padded:
  "list_all visible w \<Longrightarrow> list_all (field \<circ> snd) ws \<Longrightarrow> n \<le> length ws \<Longrightarrow>
   length (splitn_ws (Suc n) (replicate k (CHR '' '') @ w @ padded ws)) = Suc n"
proof (induction n arbitrary: k w ws)
  case (Suc n)
  show ?case
  proof (cases k)
    case (Suc k')
    have "length (splitn_ws (Suc n) (replicate k' (CHR '' '') @ w @ padded ws)) = Suc n"
      using Suc.IH Suc.prems by simp
    then show ?thesis
      by (simp add: Suc splitn_ws_Suc_Suc take_word_blank ws_head_space del: splitn_ws.simps take_word.simps ws_head.simps)
  next
    case 0
    obtain j v ws' where ws: "ws = (j, v) # ws'" using Suc.prems by (cases ws) auto
    have "length (splitn_ws (Suc n) (replicate j (CHR '' '') @ v @ padded ws')) = Suc n"
      using Suc.IH[of v ws' j] Suc.prems by (simp add: ws field_def)
    then show ?thesis
      using take_word_visible[OF Suc.prems(1)]
      by (simp add: 0 ws splitn_ws_Suc_Suc ws_head_space del: splitn_ws.simps take_word.simps ws_head.simps)
  qed
qed simp

lemma splitn_padded_head:
  assumes "list_all visible w" and "ws \<noteq> []"
  shows "splitn_ws 9 (w @ padded ws) ! 0 = w"
proof -
  obtain j v ws' where ws: "ws = (j, v) # ws'" using assms(2) by (cases ws) auto
  have "(9::nat) = Suc (Suc 7)" by simp
  then show ?thesis
    using take_word_visible[OF assms(1)]
    by (simp only: splitn_ws_Suc_Suc) (simp add: ws del: splitn_ws.simps take_word.simps ws_head.simps)
qed

lemma parse_ftp_list_line_tokens:
  assumes "field perms" and "list_all (field \<circ> snd) ws" and "8 \<le> length ws"
  shows "parse_ftp_list_line (perms @ padded ws) =
    (let tokens = perms # map snd ws; file_type = list_line_type perms; full_name = join '' '' (drop 8 tokens) in
     Some \<lparr>fe_name = (if file_type = Symlink then split_first '' -> '' full_name else full_name),
           fe_size = unwrap_or 0 (parse_uint u64_max (tokens ! 4)),
           fe_modified = Some (tokens ! 5 @ '' '' @ tokens ! 6 @ '' '' @ tokens ! 7),
           fe_modified_unix = None, fe_permissions = Some perms,
           fe_owner = None, fe_group = None, fe_type = file_type\<rparr>)"
proof -
  have ne: "ws \<noteq> []" using assms(3) by auto
  obtain c perms' where p: "perms = c # perms'" "visible c" "list_all visible perms"
    using assms(1) by (cases perms) (auto simp: field_def)
  obtain q d where q: "padded ws = q @ [d]" "visible d" using padded_ends_visible[OF assms(2) ne] by blast
  have t: "trim (perms @ padded ws) = perms @ padded ws"
    using trim_visible_ends[OF p(2) q(2), of "perms' @ q"] by (simp add: p(1) q(1))
  have "length (splitn_ws 9 (perms @ padded ws)) = 9"
    using length_splitn_padded[OF p(3) assms(2,3), of 0] by simp
  then show ?thesis
    unfolding parse_ftp_list_line_def t
    using split_whitespace_line[OF assms(1,2)] splitn_padded_head[OF p(3) ne] assms(3) p(1)
    by (simp add: Let_def)
qed

text \<open>
  A listing line in the Unix format gives back its fields, however the columns are padded:
  the type from the first letter of the permissions, the size, the date, and the name with its
  single blanks, a symbolic link without its target.
\<close>

lemma list_line_fields:
  assumes "list_all field ([perms, links, owner, grp, month, day, time] @ words)" and "words \<noteq> []"
    and "bytes \<le> u64_max" and "length pads = 8"
  shows "parse_ftp_list_line
      (perms @ padded (zip pads [links, owner, grp, nat_str bytes, month, day, time, hd words]
                       @ map (\<lambda>w. (0, w)) (tl words)))
    = Some \<lparr>fe_name = (let n = join '' '' words in
                      if list_line_type perms = Symlink then split_first '' -> '' n else n),
            fe_size = bytes, fe_modified = Some (month @ '' '' @ day @ '' '' @ time),
            fe_modified_unix = None, fe_permissions = Some perms, fe_owner = None, fe_group = None,
            fe_type = list_line_type perms\<rparr>"
proof -
  let ?cols = "[links, owner, grp, nat_str bytes, month, day, time, hd words]"
  let ?ws = "zip pads ?cols @ map (\<lambda>w. (0, w)) (tl words)"
  have "field (nat_str bytes)"
    using nat_str_digits[of bytes] is_upper_visible(2) by (auto simp: field_def list_all_iff)
  moreover have "field (hd words)" "list_all field (tl words)"
    using assms(1,2) by (cases words; simp)+
  ultimately have cols: "list_all field (?cols @ tl words)" using assms(1) by simp
  have snd: "map snd ?ws = ?cols @ tl words" using assms(4) by (simp add: comp_def)
  have "list_all (field \<circ> snd) ?ws"
    using cols unfolding snd[symmetric] by (simp only: list_all_iff set_map ball_simps comp_def)
  moreover have "field perms" using assms(1) by simp
  moreover have "8 \<le> length ?ws" using assms(2,4) by (cases words) simp_all
  ultimately show ?thesis
    using assms(2,3) unfolding parse_ftp_list_line_tokens[OF \<open>field perms\<close> \<open>list_all _ ?ws\<close> \<open>8 \<le> _\<close>] snd
    by (simp add: Let_def parse_uint_nat_str)
qed

lemma list_line_fields_witness:
  "parse_ftp_list_line ''drwxr-xr-x   2 user group  4096 Jan 01 12:00 my dir''
     = Some \<lparr>fe_name = ''my dir'', fe_size = 4096, fe_modified = Some ''Jan 01 12:00'',
             fe_modified_unix = None, fe_permissions = Some ''drwxr-xr-x'', fe_owner = None,
             fe_group = None, fe_type = Directory\<rparr>"
proof -
  have f: "list_all field ([''drwxr-xr-x'', ''2'', ''user'', ''group'', ''Jan'', ''01'', ''12:00''] @ [''my'', ''dir''])"
    by (simp add: field_def visible_def byte_def)
  have n: "nat_str 4096 = ''4096''" by (simp add: nat_str.simps digit_char_def char_of_eq_iff)
  have eq: "''drwxr-xr-x'' @ padded (zip [2, 0, 0, 1, 0, 0, 0, 0]
          [''2'', ''user'', ''group'', nat_str 4096, ''Jan'', ''01'', ''12:00'', hd [''my'', ''dir'']]
        @ map (\<lambda>w. (0, w)) (tl [''my'', ''dir''])) = ''drwxr-xr-x   2 user group  4096 Jan 01 12:00 my dir''"
    by (simp add: n numeral_2_eq_2)
  have lt: "list_line_type ''drwxr-xr-x'' = Directory" by (simp add: list_line_type_def starts_with_def)
  have "(4096::nat) \<le> u64_max" by (simp add: u64_max_def)
  from list_line_fields[OF f _ this, of "[2, 0, 0, 1, 0, 0, 0, 0]", unfolded eq lt]
  show ?thesis by simp
qed

text \<open>
  Two things the parser makes of other input: the summary line of a Unix listing becomes a
  file, and blanks inside a name are collapsed, so the listed name is not the file's.
\<close>

lemma listing_misreads:
  "parse_ftp_list_line ''total 12'' = Some (name_only ''12'' None File)
   \<and> map_option fe_name (parse_ftp_list_line ''-rw-r--r-- 1 u g 5 Jan 01 12:00 a  b'') = Some ''a b''"
proof
  have "trim ''total 12'' = ''total 12''"
    using trim_visible_ends[of "CHR ''t''" "CHR ''2''" "''otal 1''"] by (simp add: visible_def byte_def)
  moreover have "split_whitespace ''total 12'' = [''total'', ''12'']"
    using split_whitespace_line[of "''total''" "[(0, ''12'')]"] by (simp add: field_def visible_def byte_def)
  moreover have "splitn_ws 9 ''total 12'' = [''total'', ''12'']"
    using splitn_ws_Suc_Suc[of 7 "''total 12''"] splitn_ws_Suc_Suc[of 6 "''12''"]
      take_word_visible[of "''total''" "''12''"] take_word_all[of "''12''"]
    by (simp add: visible_def byte_def ascii_ws_def)
  ultimately show "parse_ftp_list_line ''total 12'' = Some (name_only ''12'' None File)"
    by (simp add: parse_ftp_list_line_def Let_def)
next
  have "list_all (field \<circ> snd) [(0, ''1''), (0, ''u''), (0, ''g''), (0, ''5''), (0, ''Jan''), (0, ''01''),
      (0, ''12:00''), (0, ''a''), (1, ''b'')]" and "field ''-rw-r--r--''"
    by (simp_all add: field_def visible_def byte_def)
  then show "map_option fe_name (parse_ftp_list_line ''-rw-r--r-- 1 u g 5 Jan 01 12:00 a  b'') = Some ''a b''"
    using parse_ftp_list_line_tokens[of "''-rw-r--r--''" "[(0, ''1''), (0, ''u''), (0, ''g''), (0, ''5''),
        (0, ''Jan''), (0, ''01''), (0, ''12:00''), (0, ''a''), (1, ''b'')]"]
    by (simp add: Let_def list_line_type_def starts_with_def)
qed

end
