(* ===== verification/Desktop.thy ===== *)
theory Desktop
  imports SshClient
begin

text \<open>
  The remote desktop clients: \<open>crates/core/src/desktop_protocol.rs\<close>, \<open>rdp_client.rs\<close> and
  \<open>vnc_client.rs\<close>. Both clients are stubs in the source: \<open>connect\<close> validates the configuration and
  then always fails, and the other operations only look at the \<open>connected\<close> flag. They are modelled
  as they are. Deserialisation of requests is derived code; the accepted protocol names are given.
\<close>

section \<open>Requests\<close>

record frame_update =
  fu_x :: "16 word"
  fu_y :: "16 word"
  fu_width :: "16 word"
  fu_height :: "16 word"
  fu_rgba_data :: "8 word list"

datatype desktop_kind = RdpKind | VncKind

definition desktop_kind_of :: "string \<Rightarrow> desktop_kind option" where
  "desktop_kind_of s =
     (if s = ''RDP'' \<or> s = ''rdp'' then Some RdpKind
      else if s = ''VNC'' \<or> s = ''vnc'' then Some VncKind else None)"

record desktop_request =
  dr_connection_id :: string
  dr_protocol :: desktop_kind
  dr_host :: string
  dr_port :: "16 word"
  dr_username :: "string option"
  dr_password :: "string option"
  dr_domain :: "string option"
  dr_resolution :: "string option"
  dr_color_depth :: "8 word option"

record rdp_config =
  rc_host :: string
  rc_port :: "16 word"
  rc_username :: string
  rc_password :: string
  rc_domain :: "string option"
  rc_width :: "16 word"
  rc_height :: "16 word"

record vnc_config =
  vc_host :: string
  vc_port :: "16 word"
  vc_password :: "string option"
  vc_color_depth :: "8 word"

record desktop_response =
  dres_width :: "16 word"
  dres_height :: "16 word"

definition parse_resolution :: "desktop_request \<Rightarrow> 16 word \<times> 16 word" where
  "parse_resolution r =
     (if dr_resolution r = Some ''1920x1080'' then (1920, 1080)
      else if dr_resolution r = Some ''1280x720'' then (1280, 720)
      else (1024, 768))"

definition to_rdp_config :: "desktop_request \<Rightarrow> rdp_config" where
  "to_rdp_config r =
     (let (w, h) = parse_resolution r
      in \<lparr>rc_host = dr_host r, rc_port = dr_port r, rc_username = unwrap_or [] (dr_username r),
          rc_password = unwrap_or [] (dr_password r), rc_domain = dr_domain r, rc_width = w, rc_height = h\<rparr>)"

definition to_vnc_config :: "desktop_request \<Rightarrow> vnc_config" where
  "to_vnc_config r =
     \<lparr>vc_host = dr_host r, vc_port = dr_port r, vc_password = dr_password r,
      vc_color_depth = unwrap_or 24 (dr_color_depth r)\<rparr>"

text \<open>The debug forms; the colour depth and the protocol are shown as they are.\<close>

datatype desktop_debug = Shown debug_value | ShownKind desktop_kind | ShownByte "8 word option"

definition debug_desktop_request :: "desktop_request \<Rightarrow> (string \<times> desktop_debug) list" where
  "debug_desktop_request r =
     [(''connection_id'', Shown (DebugStr (dr_connection_id r))), (''protocol'', ShownKind (dr_protocol r)),
      (''host'', Shown (DebugStr (dr_host r))), (''port'', Shown (DebugPort (dr_port r))),
      (''username'', Shown (DebugOption (dr_username r))), (''password'', Shown (redact_option (dr_password r))),
      (''domain'', Shown (DebugOption (dr_domain r))), (''resolution'', Shown (DebugOption (dr_resolution r))),
      (''color_depth'', ShownByte (dr_color_depth r))]"

definition debug_rdp_config :: "rdp_config \<Rightarrow> (string \<times> debug_value) list" where
  "debug_rdp_config c =
     [(''host'', DebugStr (rc_host c)), (''port'', DebugPort (rc_port c)), (''username'', DebugStr (rc_username c)),
      (''password'', DebugStr ''<redacted>''), (''domain'', DebugOption (rc_domain c)),
      (''width'', DebugPort (rc_width c)), (''height'', DebugPort (rc_height c))]"

definition debug_vnc_config :: "vnc_config \<Rightarrow> (string \<times> desktop_debug) list" where
  "debug_vnc_config c =
     [(''host'', Shown (DebugStr (vc_host c))), (''port'', Shown (DebugPort (vc_port c))),
      (''password'', Shown (redact_option (vc_password c))), (''color_depth'', ShownByte (Some (vc_color_depth c)))]"

section \<open>The RDP client\<close>

record rdp_client =
  rdp_config :: rdp_config
  rdp_width :: "16 word"
  rdp_height :: "16 word"
  rdp_connected :: bool

definition rdp_connect :: "rdp_config \<Rightarrow> string + rdp_client" where
  "rdp_connect config =
     (if rc_host config = [] then Inl ''RDP host cannot be empty''
      else if rc_username config = [] then Inl ''RDP username is required for NLA authentication''
      else Inl (''RDP protocol support is not yet implemented. Connection to '' @ rc_host config @ '':''
             @ nat_str (unat (rc_port config)) @ '' cannot be established.''))"

definition rdp_new_disconnected :: "rdp_config \<Rightarrow> rdp_client" where
  "rdp_new_disconnected config =
     \<lparr>rdp_config = config, rdp_width = rc_width config, rdp_height = rc_height config, rdp_connected = False\<rparr>"

definition rdp_guard :: "rdp_client \<Rightarrow> string + unit" where
  "rdp_guard c = (if \<not> rdp_connected c then Inl ''RDP client is not connected'' else Inr ())"

definition rdp_start_frame_loop :: "rdp_client \<Rightarrow> string + unit" where
  "rdp_start_frame_loop c = rdp_guard c"

definition rdp_send_key :: "32 word \<Rightarrow> bool \<Rightarrow> rdp_client \<Rightarrow> string + unit" where
  "rdp_send_key key_code down c = rdp_guard c"

definition rdp_send_pointer :: "16 word \<Rightarrow> 16 word \<Rightarrow> 8 word \<Rightarrow> rdp_client \<Rightarrow> string + unit" where
  "rdp_send_pointer x y button_mask c = rdp_guard c"

definition rdp_request_full_frame :: "rdp_client \<Rightarrow> string + unit" where
  "rdp_request_full_frame c = rdp_guard c"

definition rdp_set_clipboard :: "string \<Rightarrow> rdp_client \<Rightarrow> string + unit" where
  "rdp_set_clipboard text c = rdp_guard c"

definition rdp_desktop_size :: "rdp_client \<Rightarrow> 16 word \<times> 16 word" where
  "rdp_desktop_size c = (rdp_width c, rdp_height c)"

definition rdp_resize :: "16 word \<Rightarrow> 16 word \<Rightarrow> rdp_client \<Rightarrow> (string + unit) \<times> rdp_client" where
  "rdp_resize width height c =
     (if \<not> rdp_connected c then (Inl ''RDP client is not connected'', c)
      else (Inr (), c\<lparr>rdp_width := width, rdp_height := height\<rparr>))"

definition rdp_disconnect :: "rdp_client \<Rightarrow> (string + unit) \<times> rdp_client" where
  "rdp_disconnect c = (Inr (), if rdp_connected c then c\<lparr>rdp_connected := False\<rparr> else c)"

section \<open>The VNC client\<close>

record vnc_client =
  vnc_config :: vnc_config
  vnc_width :: "16 word"
  vnc_height :: "16 word"
  vnc_connected :: bool

definition vnc_connect :: "vnc_config \<Rightarrow> string + vnc_client" where
  "vnc_connect config =
     (if vc_host config = [] then Inl ''VNC host cannot be empty''
      else Inl (''VNC protocol support is not yet implemented. Connection to '' @ vc_host config @ '':''
             @ nat_str (unat (vc_port config)) @ '' cannot be established.''))"

definition vnc_new_disconnected :: "vnc_config \<Rightarrow> vnc_client" where
  "vnc_new_disconnected config =
     \<lparr>vnc_config = config, vnc_width = 1024, vnc_height = 768, vnc_connected = False\<rparr>"

definition vnc_guard :: "vnc_client \<Rightarrow> string + unit" where
  "vnc_guard c = (if \<not> vnc_connected c then Inl ''VNC client is not connected'' else Inr ())"

definition vnc_start_frame_loop :: "vnc_client \<Rightarrow> string + unit" where
  "vnc_start_frame_loop c = vnc_guard c"

definition vnc_send_key :: "32 word \<Rightarrow> bool \<Rightarrow> vnc_client \<Rightarrow> string + unit" where
  "vnc_send_key key_code down c = vnc_guard c"

definition vnc_send_pointer :: "16 word \<Rightarrow> 16 word \<Rightarrow> 8 word \<Rightarrow> vnc_client \<Rightarrow> string + unit" where
  "vnc_send_pointer x y button_mask c = vnc_guard c"

definition vnc_request_full_frame :: "vnc_client \<Rightarrow> string + unit" where
  "vnc_request_full_frame c = vnc_guard c"

definition vnc_set_clipboard :: "string \<Rightarrow> vnc_client \<Rightarrow> string + unit" where
  "vnc_set_clipboard text c = vnc_guard c"

definition vnc_desktop_size :: "vnc_client \<Rightarrow> 16 word \<times> 16 word" where
  "vnc_desktop_size c = (vnc_width c, vnc_height c)"

definition vnc_resize :: "16 word \<Rightarrow> 16 word \<Rightarrow> vnc_client \<Rightarrow> (string + unit) \<times> vnc_client" where
  "vnc_resize width height c = (Inr (), c)"

definition vnc_disconnect :: "vnc_client \<Rightarrow> (string + unit) \<times> vnc_client" where
  "vnc_disconnect c = (Inr (), if vnc_connected c then c\<lparr>vnc_connected := False\<rparr> else c)"

section \<open>Lemmas\<close>

interpretation rdp_protocol: protocol_client rdp_disconnect rdp_connected
  by unfold_locales (simp_all add: rdp_disconnect_def)

interpretation vnc_protocol: protocol_client vnc_disconnect vnc_connected
  by unfold_locales (simp_all add: vnc_disconnect_def)

lemma desktop_connect_fails: "\<exists>e. rdp_connect c = Inl e" "\<exists>e. vnc_connect d = Inl e"
  by (simp_all add: rdp_connect_def vnc_connect_def)

lemma rdp_disconnected_operations:
  assumes "\<not> rdp_connected c"
  shows "rdp_start_frame_loop c = Inl ''RDP client is not connected''"
    and "rdp_send_key k d c = Inl ''RDP client is not connected''"
    and "rdp_send_pointer x y b c = Inl ''RDP client is not connected''"
    and "rdp_resize w h c = (Inl ''RDP client is not connected'', c)"
  using assms by (simp_all add: rdp_start_frame_loop_def rdp_send_key_def rdp_send_pointer_def rdp_guard_def
      rdp_resize_def)

text \<open>The debug forms do not depend on the password beyond its presence.\<close>

lemma debug_request_secret:
  "debug_desktop_request r = debug_desktop_request (r\<lparr>dr_password := q\<rparr>) \<longleftrightarrow> (dr_password r = None) = (q = None)"
  by (simp add: debug_desktop_request_def redact_option_eq_iff)

lemma debug_rdp_secret: "debug_rdp_config (c\<lparr>rc_password := q\<rparr>) = debug_rdp_config c"
  by (simp add: debug_rdp_config_def)

lemma debug_vnc_secret:
  "debug_vnc_config c = debug_vnc_config (c\<lparr>vc_password := q\<rparr>) \<longleftrightarrow> (vc_password c = None) = (q = None)"
  by (simp add: debug_vnc_config_def redact_option_eq_iff)

end
