(* ===== verification/SqlLex.thy ===== *)
theory SqlLex
  imports RustStr
begin

text \<open>
  The SQL splitter of \<open>crates/pg/src/exec.rs\<close>: \<open>top_level_semicolons\<close> and what is built on it.
  The lexer runs over bytes; its state and the position are explicit, the text is the rest from
  the position on. The slice \<open>sql[i..]\<close> inside a dollar quote panics when \<open>i\<close> is inside a
  character: the result is then \<open>None\<close>. The other slices of these functions are cut next to an
  ASCII byte, where a Rust string always has a character boundary.
\<close>

section \<open>The lexer\<close>

datatype lex_state = Normal | SingleQuote | DoubleQuote | LineComment | BlockComment | DollarQuote string

definition tag_char :: "char \<Rightarrow> bool" where
  "tag_char c \<longleftrightarrow> is_alnum c \<or> c = CHR ''_''"

fun next_is :: "char \<Rightarrow> string \<Rightarrow> bool" where
  "next_is c [] = False"
| "next_is c (d # ds) = (d = c)"

fun dollar_quote_delimiter :: "string \<Rightarrow> string option" where
  "dollar_quote_delimiter [] = None"
| "dollar_quote_delimiter (c # rest) =
     (if c \<noteq> CHR ''$'' then None
      else case rest of
        [] \<Rightarrow> None
      | d # _ \<Rightarrow>
          if d = CHR ''$'' then Some [c, d]
          else if is_alpha d \<or> d = CHR ''_'' then
            (let tag = takeWhile tag_char rest
             in if next_is (CHR ''$'') (drop (length tag) rest) then Some (c # tag @ ''$'') else None)
          else None)"

text \<open>
  One round of the loop at a non-empty rest: the next state, how far the position moves, and
  whether a top-level semicolon was seen.
\<close>

fun lex_step :: "lex_state \<Rightarrow> string \<Rightarrow> (lex_state \<times> nat \<times> bool) option" where
  "lex_step st [] = Some (st, 1, False)"
| "lex_step Normal (c # cs) =
     (if c = quote1 then Some (SingleQuote, 1, False)
      else if c = quote2 then Some (DoubleQuote, 1, False)
      else if c = CHR ''-'' \<and> next_is (CHR ''-'') cs then Some (LineComment, 2, False)
      else if c = CHR ''/'' \<and> next_is (CHR ''*'') cs then Some (BlockComment, 2, False)
      else if c = CHR ''$'' then
        (case dollar_quote_delimiter (c # cs) of
           Some delimiter \<Rightarrow> Some (DollarQuote delimiter, length delimiter, False)
         | None \<Rightarrow> Some (Normal, 1, False))
      else Some (Normal, 1, c = CHR '';''))"
| "lex_step SingleQuote (c # cs) =
     (if c = quote1 then if next_is quote1 cs then Some (SingleQuote, 2, False) else Some (Normal, 1, False)
      else Some (SingleQuote, 1, False))"
| "lex_step DoubleQuote (c # cs) =
     (if c = quote2 then if next_is quote2 cs then Some (DoubleQuote, 2, False) else Some (Normal, 1, False)
      else Some (DoubleQuote, 1, False))"
| "lex_step LineComment (c # cs) =
     (if c = newline then Some (Normal, 1, False) else Some (LineComment, 1, False))"
| "lex_step BlockComment (c # cs) =
     (if c = CHR ''*'' \<and> next_is (CHR ''/'') cs then Some (Normal, 2, False) else Some (BlockComment, 1, False))"
| "lex_step (DollarQuote delimiter) (c # cs) =
     (if is_cont c then None
      else if starts_with delimiter (c # cs) then Some (Normal, max 1 (length delimiter), False)
      else Some (DollarQuote delimiter, 1, False))"

lemma dollar_quote_delimiter_length: "dollar_quote_delimiter s = Some d \<Longrightarrow> 2 \<le> length d"
  by (cases s) (auto simp: dollar_quote_delimiter.simps(2) Let_def split: if_splits list.splits)

declare dollar_quote_delimiter.simps(2) [simp del]

text \<open>A delimiter has at least two characters, so the \<open>max\<close> in \<open>lex_step\<close> never matters; it makes
  the loop's progress evident.\<close>

lemma lex_step_moves: "lex_step st s = Some (st', n, b) \<Longrightarrow> 0 < n"
  by (cases "(st, s)" rule: lex_step.cases)
     (fastforce split: if_splits option.splits dest: dollar_quote_delimiter_length)+

function semicolons :: "lex_state \<Rightarrow> nat \<Rightarrow> string \<Rightarrow> nat list option" where
  "semicolons st i [] = Some []"
| "semicolons st i (c # cs) =
     (case lex_step st (c # cs) of
        None \<Rightarrow> None
      | Some (st', n, found) \<Rightarrow>
          map_option (\<lambda>ps. if found then i # ps else ps) (semicolons st' (i + n) (drop n (c # cs))))"
  by pat_completeness auto
termination
  by (relation "measure (\<lambda>(st, i, s). length s)") (auto dest: lex_step_moves)

definition top_level_semicolons :: "string \<Rightarrow> nat list option" where
  "top_level_semicolons sql = semicolons Normal 0 sql"

section \<open>Blank text\<close>

datatype blank_state = BlankNormal | BlankLine | BlankBlock

text \<open>One round of \<open>is_effectively_empty\<close>; \<open>None\<close> is \<open>return false\<close>.\<close>

fun blank_step :: "blank_state \<Rightarrow> string \<Rightarrow> (blank_state \<times> nat) option" where
  "blank_step st [] = Some (st, 1)"
| "blank_step BlankNormal (c # cs) =
     (if c = CHR '' '' \<or> c = tab \<or> c = newline \<or> c = carriage then Some (BlankNormal, 1)
      else if c = CHR ''-'' \<and> next_is (CHR ''-'') cs then Some (BlankLine, 2)
      else if c = CHR ''/'' \<and> next_is (CHR ''*'') cs then Some (BlankBlock, 2)
      else None)"
| "blank_step BlankLine (c # cs) = (if c = newline then Some (BlankNormal, 1) else Some (BlankLine, 1))"
| "blank_step BlankBlock (c # cs) =
     (if c = CHR ''*'' \<and> next_is (CHR ''/'') cs then Some (BlankNormal, 2) else Some (BlankBlock, 1))"

lemma blank_step_moves: "blank_step st s = Some (st', n) \<Longrightarrow> 0 < n"
  by (cases "(st, s)" rule: blank_step.cases) (auto split: if_splits)

function blank_from :: "blank_state \<Rightarrow> string \<Rightarrow> bool" where
  "blank_from st [] = True"
| "blank_from st (c # cs) =
     (case blank_step st (c # cs) of
        None \<Rightarrow> False
      | Some (st', n) \<Rightarrow> blank_from st' (drop n (c # cs)))"
  by pat_completeness auto
termination
  by (relation "measure (\<lambda>(st, s). length s)") (auto dest: blank_step_moves)

definition is_effectively_empty :: "string \<Rightarrow> bool" where
  "is_effectively_empty sql = blank_from BlankNormal sql"

section \<open>Splitting\<close>

definition is_multi_statement :: "string \<Rightarrow> bool option" where
  "is_multi_statement sql =
     map_option (\<lambda>ps. list_ex (\<lambda>idx. \<not> is_effectively_empty (drop (idx + 1) sql)) ps) (top_level_semicolons sql)"

text \<open>The outer \<open>None\<close> is a panic, the inner one the source's \<open>None\<close>.\<close>

definition split_at_last_statement :: "string \<Rightarrow> (string \<times> string) option option" where
  "split_at_last_statement sql =
     (case top_level_semicolons sql of
        None \<Rightarrow> None
      | Some ps \<Rightarrow>
          if ps = [] then Some None
          else let split = last ps; main = drop (split + 1) sql in
            if is_effectively_empty main then Some None
            else let main = trim main; preamble = take (split + 1) sql in
              map_option (\<lambda>multi. if multi then None else Some (preamble, main)) (is_multi_statement main))"

declare semicolons.simps(2) [simp del] blank_from.simps(2) [simp del]

section \<open>Positions\<close>

lemma semicolons_shift:
  "semicolons st (i + k) s = map_option (map (\<lambda>p. p + k)) (semicolons st i s)"
proof (induction st i s rule: semicolons.induct)
  case (2 st i c cs)
  show ?case
  proof (cases "lex_step st (c # cs)")
    case (Some r)
    obtain st' n b where r: "r = (st', n, b)" by (cases r)
    have "semicolons st' (i + n + k) (drop n (c # cs)) =
        map_option (map (\<lambda>p. p + k)) (semicolons st' (i + n) (drop n (c # cs)))"
      using 2[OF Some[unfolded r] refl refl] by simp
    then show ?thesis
      by (simp add: semicolons.simps(2) Some r option.map_comp comp_def add.assoc add.commute[of k]
          split: if_splits cong: map_option_cong)
         (cases "semicolons st' (i + n) (drop n (c # cs))"; simp add: add.assoc add.commute[of k])
  qed (simp add: semicolons.simps(2))
qed simp

lemma lex_step_found:
  "lex_step st (c # cs) = Some (st', n, True) \<Longrightarrow> c = CHR '';''"
  by (cases st) (auto split: if_splits option.splits)

lemma semicolons_positions:
  "semicolons st i s = Some ps \<Longrightarrow> p \<in> set ps \<Longrightarrow> i \<le> p \<and> p - i < length s \<and> s ! (p - i) = CHR '';''"
proof (induction st i s arbitrary: ps rule: semicolons.induct)
  case (2 st i c cs)
  obtain st' n b where r: "lex_step st (c # cs) = Some (st', n, b)"
    using 2(2) by (auto simp: semicolons.simps(2) split: option.splits)
  obtain qs where q: "semicolons st' (i + n) (drop n (c # cs)) = Some qs" "ps = (if b then i # qs else qs)"
    using 2(2) by (auto simp: semicolons.simps(2) r)
  show ?case
  proof (cases "p \<in> set qs")
    case True
    then have "i + n \<le> p \<and> p - (i + n) < length (drop n (c # cs)) \<and> drop n (c # cs) ! (p - (i + n)) = CHR '';''"
      using 2(1)[OF r refl refl q(1)] by blast
    moreover have "n + (p - (i + n)) = p - i" using \<open>i + n \<le> p \<and> _\<close> by linarith
    ultimately show ?thesis using lex_step_moves[OF r] by (auto simp: nth_drop)
  next
    case False
    then show ?thesis using q(2) 2(3) r lex_step_found by (auto split: if_splits)
  qed
qed auto

lemma semicolons_ascii: "is_ascii s \<Longrightarrow> \<exists>ps. semicolons st i s = Some ps"
proof (induction st i s rule: semicolons.induct)
  case (2 st i c cs)
  have "\<not> is_cont c" using 2(2) by (simp add: is_ascii_def is_cont_def)
  then have "lex_step st (c # cs) \<noteq> None" by (cases st) (auto split: option.splits)
  then obtain st' n b where r: "lex_step st (c # cs) = Some (st', n, b)"
    by (cases "lex_step st (c # cs)") auto
  have "is_ascii (drop n (c # cs))"
    by (rule is_ascii_drop[OF 2(2)])
  then show ?case using 2(1)[OF r refl refl] by (auto simp: semicolons.simps(2) r)
qed simp

section \<open>Tokens\<close>

text \<open>
  The reference: a script is a list of tokens, and the lexer is right when it finds exactly the
  semicolon tokens. \<open>token_ok t rest\<close> says that \<open>t\<close>, followed by the text \<open>rest\<close>, is read as this
  token and no longer or shorter one.
\<close>

datatype sql_token =
    Plain char
  | QuotedText string
  | QuotedIdent string
  | LineNote string
  | BlockNote string
  | DollarText string string
  | Semi

definition doubled :: "char \<Rightarrow> string \<Rightarrow> string" where
  "doubled q s = q # replace_char q [q, q] s @ [q]"

definition dollar_delim :: "string \<Rightarrow> string" where
  "dollar_delim tag = ''$'' @ tag @ ''$''"

fun token_text :: "sql_token \<Rightarrow> string" where
  "token_text (Plain c) = [c]"
| "token_text (QuotedText s) = doubled quote1 s"
| "token_text (QuotedIdent s) = doubled quote2 s"
| "token_text (LineNote s) = ''--'' @ s @ [newline]"
| "token_text (BlockNote s) = ''/*'' @ s @ ''*/''"
| "token_text (DollarText tag body) = dollar_delim tag @ body @ dollar_delim tag"
| "token_text Semi = '';''"

definition tag_ok :: "string \<Rightarrow> bool" where
  "tag_ok tag \<longleftrightarrow> (case tag of [] \<Rightarrow> True | c # cs \<Rightarrow> (is_alpha c \<or> c = CHR ''_'') \<and> list_all tag_char cs)"

fun token_ok :: "sql_token \<Rightarrow> string \<Rightarrow> bool" where
  "token_ok (Plain c) rest \<longleftrightarrow> c \<noteq> quote1 \<and> c \<noteq> quote2 \<and> c \<noteq> CHR '';''
     \<and> \<not> (c = CHR ''-'' \<and> next_is (CHR ''-'') rest) \<and> \<not> (c = CHR ''/'' \<and> next_is (CHR ''*'') rest)
     \<and> \<not> (c = CHR ''$'' \<and> dollar_quote_delimiter (c # rest) \<noteq> None)"
| "token_ok (QuotedText s) rest \<longleftrightarrow> \<not> next_is quote1 rest"
| "token_ok (QuotedIdent s) rest \<longleftrightarrow> \<not> next_is quote2 rest"
| "token_ok (LineNote s) rest \<longleftrightarrow> newline \<notin> set s"
| "token_ok (BlockNote s) rest \<longleftrightarrow> \<not> str_contains ''*/'' s"
| "token_ok (DollarText tag body) rest \<longleftrightarrow> tag_ok tag \<and> is_ascii body
     \<and> \<not> str_contains (dollar_delim tag) (body @ butlast (dollar_delim tag))"
| "token_ok Semi rest \<longleftrightarrow> True"

fun script_text :: "sql_token list \<Rightarrow> string" where
  "script_text [] = []"
| "script_text (t # ts) = token_text t @ script_text ts"

fun script_ok :: "sql_token list \<Rightarrow> string \<Rightarrow> bool" where
  "script_ok [] rest = True"
| "script_ok (t # ts) rest = (token_ok t (script_text ts @ rest) \<and> script_ok ts rest)"

fun semi_positions :: "nat \<Rightarrow> sql_token list \<Rightarrow> nat list" where
  "semi_positions i [] = []"
| "semi_positions i (t # ts) = (if t = Semi then [i] else []) @ semi_positions (i + length (token_text t)) ts"

lemmas lex_eval = semicolons.simps(2) option.map_ident

lemma lex_single:
  "\<not> next_is quote1 rest \<Longrightarrow>
   semicolons SingleQuote i (replace_char quote1 [quote1, quote1] s @ quote1 # rest)
     = semicolons Normal (i + length (replace_char quote1 [quote1, quote1] s) + 1) rest"
  by (induction s arbitrary: i) (simp_all add: lex_eval)

lemma lex_double:
  "\<not> next_is quote2 rest \<Longrightarrow>
   semicolons DoubleQuote i (replace_char quote2 [quote2, quote2] s @ quote2 # rest)
     = semicolons Normal (i + length (replace_char quote2 [quote2, quote2] s) + 1) rest"
  by (induction s arbitrary: i) (simp_all add: lex_eval)

lemma lex_line:
  "newline \<notin> set s \<Longrightarrow>
   semicolons LineComment i (s @ newline # rest) = semicolons Normal (i + length s + 1) rest"
  by (induction s arbitrary: i) (auto simp: lex_eval)

lemma str_contains_Cons:
  "str_contains p (c # s) \<longleftrightarrow> starts_with p (c # s) \<or> str_contains p s"
  by (auto simp: str_contains_def starts_with_def split: option.splits)

lemma lex_block:
  "\<not> str_contains ''*/'' s \<Longrightarrow>
   semicolons BlockComment i (s @ CHR ''*'' # CHR ''/'' # rest) = semicolons Normal (i + length s + 2) rest"
proof (induction s arbitrary: i)
  case (Cons c s)
  have "\<not> (c = CHR ''*'' \<and> next_is (CHR ''/'') (s @ CHR ''*'' # CHR ''/'' # rest))"
    using Cons.prems by (cases s) (auto simp: str_contains_Cons starts_with_def)
  then show ?case using Cons by (auto simp: lex_eval str_contains_Cons)
qed (simp add: lex_eval)

lemma starts_with_shorter:
  "starts_with p (x @ y) \<Longrightarrow> length p \<le> length x \<Longrightarrow> starts_with p x"
  unfolding starts_with_iff by (metis append_eq_append_conv_if append_take_drop_id)

lemma lex_dollar:
  assumes "2 \<le> length d" and "\<not> is_cont (hd d)"
  shows "is_ascii s \<Longrightarrow> \<not> str_contains d (s @ butlast d) \<Longrightarrow>
    semicolons (DollarQuote d) i (s @ d @ rest) = semicolons Normal (i + length s + length d) rest"
proof (induction s arbitrary: i)
  case Nil
  obtain c cs where d: "d = c # cs" using assms(1) by (cases d) auto
  then have "starts_with d (c # cs @ rest)" by (auto simp: starts_with_iff)
  then show ?case using assms d by (simp add: lex_eval)
next
  case (Cons c s)
  have "\<not> is_cont c" using Cons.prems(1) by (simp add: is_ascii_def is_cont_def)
  moreover have "\<not> starts_with d (c # s @ d @ rest)"
  proof
    assume "starts_with d (c # s @ d @ rest)"
    moreover have "c # s @ d @ rest = (c # s @ butlast d) @ (last d # rest)"
      using assms(1) by (cases d rule: rev_cases) auto
    ultimately have "starts_with d (c # s @ butlast d)"
      using starts_with_shorter[of d "c # s @ butlast d" "last d # rest"] assms(1) by simp
    then show False using Cons.prems(2) by (simp add: str_contains_Cons)
  qed
  moreover have "semicolons (DollarQuote d) (Suc i) (s @ d @ rest) = semicolons Normal (Suc i + length s + length d) rest"
    using Cons.IH[of "Suc i"] Cons.prems by (simp add: str_contains_Cons is_ascii_def)
  ultimately show ?case by (simp add: lex_eval)
qed

lemma dollar_delim_read:
  assumes "tag_ok tag"
  shows "dollar_quote_delimiter (dollar_delim tag @ rest) = Some (dollar_delim tag)"
proof (cases tag)
  case (Cons c cs)
  have c: "is_alpha c \<or> c = CHR ''_''" and all: "list_all tag_char (c # cs)"
    using assms Cons by (auto simp: tag_ok_def tag_char_def is_alnum_def)
  have nd: "c \<noteq> CHR ''$''" using c by (auto simp: char_classes)
  have "takeWhile tag_char ((c # cs) @ CHR ''$'' # rest) = c # cs"
    using all by (subst takeWhile_append2) (auto simp: list_all_iff tag_char_def char_classes)
  then show ?thesis using Cons c nd
    by (simp add: dollar_delim_def dollar_quote_delimiter.simps(2) Let_def)
qed (simp add: dollar_delim_def dollar_quote_delimiter.simps(2))

lemma lex_token:
  assumes "token_ok t rest"
  shows "semicolons Normal i (token_text t @ rest)
    = map_option (\<lambda>ps. (if t = Semi then [i] else []) @ ps) (semicolons Normal (i + length (token_text t)) rest)"
proof (cases t)
  case (DollarText tag body)
  let ?d = "dollar_delim tag"
  obtain d0 d1 where d: "?d = CHR ''$'' # d0 # d1" by (cases tag) (auto simp: dollar_delim_def)
  have len: "2 \<le> length ?d" "\<not> is_cont (hd ?d)" using d by (auto simp: is_cont_def byte_def)
  have del: "dollar_quote_delimiter (?d @ body @ ?d @ rest) = Some ?d"
    using assms DollarText by (intro dollar_delim_read) simp
  have "semicolons Normal i (?d @ body @ ?d @ rest)
      = semicolons (DollarQuote ?d) (i + length ?d) (body @ ?d @ rest)"
  proof -
    have e: "?d @ body @ ?d @ rest = CHR ''$'' # (d0 # d1 @ body @ ?d @ rest)" using d by simp
    show ?thesis
      using del d unfolding e
      by (simp add: lex_eval quote1_def quote2_def)
  qed
  then show ?thesis
    using assms DollarText lex_dollar[OF len, of body "i + length ?d" rest]
    by (cases "semicolons Normal (i + length (token_text t)) rest") (simp_all add: add.assoc)
next
  case (Plain c)
  then have "lex_step Normal (c # rest) = Some (Normal, 1, False)"
    using assms by (auto split: option.splits)
  then show ?thesis using Plain by (simp add: lex_eval)
next
  case (QuotedText s)
  then show ?thesis using assms lex_single[of rest "Suc i" s] by (simp add: lex_eval doubled_def)
next
  case (QuotedIdent s)
  then show ?thesis using assms lex_double[of rest "Suc i" s]
    by (simp add: lex_eval doubled_def quote1_def quote2_def)
next
  case (LineNote s)
  then show ?thesis using assms lex_line[of s "i + 2" rest]
    by (simp add: lex_eval quote1_def quote2_def)
next
  case (BlockNote s)
  then show ?thesis using assms lex_block[of s "i + 2" rest]
    by (simp add: lex_eval quote1_def quote2_def)
next
  case Semi
  then show ?thesis by (simp add: lex_eval quote1_def quote2_def)
qed

lemma lex_script_rest:
  "script_ok ts rest \<Longrightarrow>
   semicolons Normal i (script_text ts @ rest)
     = map_option (\<lambda>ps. semi_positions i ts @ ps) (semicolons Normal (i + length (script_text ts)) rest)"
proof (induction ts arbitrary: i)
  case Nil
  then show ?case by (cases "semicolons Normal i rest") simp_all
next
  case (Cons t ts)
  then show ?case
    using lex_token[of t "script_text ts @ rest" i]
    by (simp add: option.map_comp comp_def add.assoc)
qed

lemma lex_script: "script_ok ts [] \<Longrightarrow> top_level_semicolons (script_text ts) = Some (semi_positions 0 ts)"
  using lex_script_rest[of ts "[]" 0] by (simp add: top_level_semicolons_def)



section \<open>Panics\<close>

text \<open>
  C40. ASCII text never makes the splitter panic, and every position it reports is a semicolon of
  the text; a character of more than one byte inside a dollar quote does make it panic, in the
  shortest case \<open>$$\<close>, an accented letter, \<open>$$\<close>.
\<close>

theorem splitter_panics_on_dollar_quoted_text:
  assumes "is_ascii sql"
  shows "(\<exists>ps. top_level_semicolons sql = Some ps \<and> (\<forall>p. p \<in> set ps \<longrightarrow> p < length sql \<and> sql ! p = CHR '';''))
   \<and> top_level_semicolons (''$$'' @ [CHR 0xC3, CHR 0xA9] @ ''$$'') = None"
proof
  show "\<exists>ps. top_level_semicolons sql = Some ps \<and> (\<forall>p. p \<in> set ps \<longrightarrow> p < length sql \<and> sql ! p = CHR '';'')"
    unfolding top_level_semicolons_def
    using semicolons_ascii[OF assms, of Normal 0] semicolons_positions[of Normal 0 sql] by fastforce
  show "top_level_semicolons (''$$'' @ [CHR 0xC3, CHR 0xA9] @ ''$$'') = None"
    by (simp add: top_level_semicolons_def lex_eval dollar_quote_delimiter.simps(2) is_cont_def byte_def
        starts_with_def quote1_def quote2_def)
qed

theorem splitter_panics_witness:
  "(\<exists>ps. top_level_semicolons ''SELECT 1;'' = Some ps)
   \<and> top_level_semicolons (''$$'' @ [CHR 0xC3, CHR 0xA9] @ ''$$'') = None"
proof -
  have "is_ascii ''SELECT 1;''" by (simp add: is_ascii_def byte_def)
  from splitter_panics_on_dollar_quoted_text[OF this] show ?thesis by blast
qed

text \<open>
  The splitter does not know escape strings nor dollar signs inside identifiers: in
  \<open>SELECT a$b$; SELECT 1\<close> it takes the identifier for an open dollar quote and reports one
  statement.
\<close>

lemma splitter_misses_separator:
  "is_multi_statement ''SELECT a$b$; SELECT 1'' = Some False"
  by (simp add: is_multi_statement_def top_level_semicolons_def lex_eval dollar_quote_delimiter.simps(2)
      is_cont_def byte_def starts_with_def quote1_def quote2_def is_alpha_def is_upper_def is_lower_def tag_char_def
      is_alnum_def is_digit_def Let_def)

section \<open>Splitting a script\<close>



end
