(* ===== verification/PgConf.thy ===== *)
theory PgConf
  imports RustStr
begin

text \<open>
  The Postgres configuration and connection setup: \<open>crates/pg/src/config.rs\<close> and the connection
  construction of \<open>crates/pg/src/lib.rs\<close>. The driver's error is \<open>driver_error\<close>: its text, and the
  code and message of a server error. The TLS library is seen through the posture it is given:
  no TLS, or TLS with or without verification of the certificate.
\<close>

section \<open>Errors\<close>

record driver_error =
  de_text :: string
  de_db :: "(string \<times> string) option"

datatype pg_error =
    PgConnect string
  | PgAuth string
  | UnresolvedCredential string
  | PgTls string
  | PgTunnel string
  | TunnelSourceMissing string
  | CursorExpired string
  | InvalidInput string
  | PoolExhausted nat nat
  | Driver driver_error

fun display_pg_error :: "pg_error \<Rightarrow> string" where
  "display_pg_error (PgConnect e) = ''postgres connect failed: '' @ e"
| "display_pg_error (PgAuth e) = ''postgres auth failed: '' @ e"
| "display_pg_error (UnresolvedCredential e) = ''unresolved credential: '' @ e"
| "display_pg_error (PgTls e) = ''postgres tls setup failed: '' @ e"
| "display_pg_error (PgTunnel e) = ''ssh tunnel error: '' @ e"
| "display_pg_error (TunnelSourceMissing e) = ''ssh tunnel source not found: '' @ e"
| "display_pg_error (CursorExpired e) = ''cursor no longer available: '' @ e"
| "display_pg_error (InvalidInput e) = ''invalid postgres input: '' @ e"
| "display_pg_error (PoolExhausted a b) =
     ''pool exhausted: '' @ nat_str a @ '' of '' @ nat_str b @ '' connections leased''"
| "display_pg_error (Driver e) = ''postgres driver error: '' @ de_text e"

section \<open>Configuration\<close>

datatype pg_auth_method = PgPassword string | PgKeychain string

datatype pg_tls_mode = TlsDisable | TlsPrefer | TlsRequire | TlsVerifyFull

definition default_tls_mode :: pg_tls_mode where
  "default_tls_mode = TlsPrefer"

record pg_config =
  pg_host :: string
  pg_port :: "16 word"
  pg_database :: string
  pg_user :: string
  pg_auth :: pg_auth_method
  pg_tls :: pg_tls_mode
  pg_application_name :: "string option"
  pg_connect_timeout_secs :: "nat option"
  pg_max_pool_size :: "nat option"
  pg_idle_timeout_secs :: "nat option"
  pg_min_idle_connections :: "nat option"

definition pg_local :: "string \<Rightarrow> string \<Rightarrow> pg_config" where
  "pg_local database user =
     \<lparr>pg_host = ''127.0.0.1'', pg_port = 5432, pg_database = database, pg_user = user,
      pg_auth = PgPassword [], pg_tls = TlsDisable, pg_application_name = Some ''r-shell'',
      pg_connect_timeout_secs = Some 10, pg_max_pool_size = None, pg_idle_timeout_secs = None,
      pg_min_idle_connections = None\<rparr>"

text \<open>The field shown by the debug form of the authentication.\<close>

fun debug_pg_auth :: "pg_auth_method \<Rightarrow> string \<times> string \<times> string" where
  "debug_pg_auth (PgPassword password) = (''PgAuthMethod::Password'', ''password'', ''<redacted>'')"
| "debug_pg_auth (PgKeychain account) = (''PgAuthMethod::Keychain'', ''account'', account)"

section \<open>Driver settings\<close>

datatype ssl_mode = SslDisable | SslPrefer | SslRequire

record driver_config =
  drv_host :: string
  drv_port :: "16 word"
  drv_dbname :: string
  drv_user :: string
  drv_password :: "string option"
  drv_application_name :: "string option"
  drv_connect_timeout :: "nat option"
  drv_ssl_mode :: ssl_mode

fun ssl_mode_of :: "pg_tls_mode \<Rightarrow> ssl_mode" where
  "ssl_mode_of TlsDisable = SslDisable"
| "ssl_mode_of TlsPrefer = SslPrefer"
| "ssl_mode_of TlsRequire = SslRequire"
| "ssl_mode_of TlsVerifyFull = SslRequire"

definition build_driver_config :: "pg_config \<Rightarrow> pg_error + driver_config" where
  "build_driver_config cfg =
     (case pg_auth cfg of
        PgKeychain account \<Rightarrow>
          Inl (UnresolvedCredential (''keychain credential for account '' @ quote1 # account @ quote1
            # '' must be resolved to a password before PgPool::connect (ssh-commander-core'' @ quote1
            # ''s ConnectionManager does this)''))
      | PgPassword password \<Rightarrow>
          Inr \<lparr>drv_host = pg_host cfg, drv_port = pg_port cfg, drv_dbname = pg_database cfg,
               drv_user = pg_user cfg, drv_password = (if password = [] then None else Some password),
               drv_application_name = pg_application_name cfg,
               drv_connect_timeout = pg_connect_timeout_secs cfg,
               drv_ssl_mode = ssl_mode_of (pg_tls cfg)\<rparr>)"

datatype tls_connector = NoTls | Rustls bool

text \<open>\<open>build_rustls_config\<close>: whether the certificate is verified against the system roots.\<close>

definition build_rustls_config :: "pg_tls_mode \<Rightarrow> bool" where
  "build_rustls_config mode \<longleftrightarrow> mode = TlsVerifyFull"

definition build_tls_connector :: "pg_config \<Rightarrow> pg_error + tls_connector" where
  "build_tls_connector cfg =
     (if pg_tls cfg = TlsDisable then Inr NoTls else Inr (Rustls (build_rustls_config (pg_tls cfg))))"

definition classify_connect_error :: "driver_error \<Rightarrow> pg_error" where
  "classify_connect_error e =
     (case de_db e of
        Some (code, message) \<Rightarrow>
          if code = ''28P01'' \<or> code = ''28000'' then PgAuth message else PgConnect (de_text e)
      | None \<Rightarrow> PgConnect (de_text e))"

text \<open>\<open>dial\<close> is the driver: the settings, the TLS connector, and the client or the error.\<close>

definition open_one :: "(driver_config \<Rightarrow> tls_connector \<Rightarrow> driver_error + 'c) \<Rightarrow> pg_config \<Rightarrow> tls_connector
    \<Rightarrow> pg_error + 'c" where
  "open_one dial cfg tls =
     and_then (build_driver_config cfg) (\<lambda>driver. map_err classify_connect_error (dial driver tls))"

section \<open>The TLS posture\<close>

text \<open>What the driver does on the wire with a mode and a connector, as its documentation says:
  plaintext only, plaintext when the server refuses TLS, or TLS only.\<close>

definition may_use_plaintext :: "pg_config \<Rightarrow> bool" where
  "may_use_plaintext cfg \<longleftrightarrow>
     (\<exists>d tls. build_driver_config cfg = Inr d \<and> build_tls_connector cfg = Inr tls
        \<and> (tls = NoTls \<or> drv_ssl_mode d \<noteq> SslRequire))"

definition verifies_server :: "pg_config \<Rightarrow> bool" where
  "verifies_server cfg \<longleftrightarrow> build_tls_connector cfg = Inr (Rustls True)"

text \<open>
  The TLS mode decides the connection as documented: only \<open>Require\<close> and \<open>VerifyFull\<close> rule out
  plaintext, and only \<open>VerifyFull\<close> checks the server's certificate.
\<close>

lemma tls_posture:
  assumes "pg_auth cfg = PgPassword p"
  shows "(may_use_plaintext cfg \<longleftrightarrow> pg_tls cfg \<in> {TlsDisable, TlsPrefer})
    \<and> (verifies_server cfg \<longleftrightarrow> pg_tls cfg = TlsVerifyFull)"
  using assms
  by (cases "pg_tls cfg")
     (auto simp: may_use_plaintext_def verifies_server_def build_driver_config_def build_tls_connector_def
        build_rustls_config_def)

theorem tls_posture_witness:
  "may_use_plaintext (pg_local ''db'' ''u'') \<and> \<not> verifies_server (pg_local ''db'' ''u'')"
proof -
  have "pg_auth (pg_local ''db'' ''u'') = PgPassword []" by (simp add: pg_local_def)
  from tls_posture[OF this] show ?thesis by (simp add: pg_local_def)
qed

text \<open>An unresolved credential never reaches the driver.\<close>

lemma unresolved_credential_rejected:
  "pg_auth cfg = PgKeychain a \<Longrightarrow> \<exists>m. open_one dial cfg tls = Inl (UnresolvedCredential m)"
  by (simp add: open_one_def build_driver_config_def)

lemma debug_pg_auth_secret: "debug_pg_auth (PgPassword p) = debug_pg_auth (PgPassword q)"
  by simp

end
