(* ===== verification/SqlExec.thy ===== *)
theory SqlExec
  imports SqlLex PgConf
begin

text \<open>
  Query execution, \<open>crates/pg/src/exec.rs\<close>. The driver's client is the record \<open>pg_client\<close> over a
  server state \<open>'s\<close>: every call gives its result and the next state. \<open>fresh_id\<close> is the text of a
  new UUID. A run of the splitter that panics is \<open>None\<close>.
\<close>

section \<open>Data\<close>

record column_meta =
  cm_name :: string
  cm_type_oid :: "32 word"
  cm_type_name :: string

record active_cursor =
  ac_cursor_id :: string
  ac_column_count :: nat

type_synonym sql_row = "string option list"

record execution_outcome =
  eo_columns :: "column_meta list"
  eo_rows :: "sql_row list"
  eo_rows_affected :: "nat option"
  eo_cursor_id :: "string option"

record page_result =
  pr_rows :: "sql_row list"
  pr_has_more :: bool

datatype simple_msg = RowDescription "string list" | Row sql_row | CommandComplete nat | OtherMessage

record 's pg_client =
  batch_execute :: "string \<Rightarrow> 's \<Rightarrow> (driver_error + unit) \<times> 's"
  simple_query :: "string \<Rightarrow> 's \<Rightarrow> (driver_error + simple_msg list) \<times> 's"
  prepare_columns :: "string \<Rightarrow> 's \<Rightarrow> (driver_error + column_meta list) \<times> 's"
  fresh_id :: "'s \<Rightarrow> string \<times> 's"

section \<open>Rows\<close>

text \<open>\<open>row.get(idx)\<close> for \<open>idx\<close> below the width; the driver panics past the row's end, which does not
  happen since a row has the columns of its description.\<close>

definition cells_of :: "nat \<Rightarrow> sql_row \<Rightarrow> sql_row" where
  "cells_of width row = map (\<lambda>idx. if idx < length row then row ! idx else None) [0..<width]"

record multi_state =
  ms_columns :: "column_meta list"
  ms_rows :: "sql_row list"
  ms_complete :: "nat option"

fun multi_msg :: "nat \<Rightarrow> simple_msg \<Rightarrow> multi_state \<Rightarrow> multi_state" where
  "multi_msg page_size (RowDescription names) st =
     st\<lparr>ms_columns := map (\<lambda>n. \<lparr>cm_name = n, cm_type_oid = 0, cm_type_name = []\<rparr>) names, ms_rows := []\<rparr>"
| "multi_msg page_size (Row row) st =
     (if page_size \<le> length (ms_rows st) then st
      else st\<lparr>ms_rows := ms_rows st @ [cells_of (length (ms_columns st)) row]\<rparr>)"
| "multi_msg page_size (CommandComplete n) st = st\<lparr>ms_complete := Some n\<rparr>"
| "multi_msg page_size OtherMessage st = st"

definition run_multi_statement :: "'s pg_client \<Rightarrow> string \<Rightarrow> nat \<Rightarrow> 's
    \<Rightarrow> (pg_error + execution_outcome) \<times> 's" where
  "run_multi_statement client sql page_size s =
     (case simple_query client sql s of
        (Inl e, s') \<Rightarrow> (Inl (Driver e), s')
      | (Inr stream, s') \<Rightarrow>
          (let st = fold (multi_msg page_size) stream \<lparr>ms_columns = [], ms_rows = [], ms_complete = None\<rparr>
           in (Inr \<lparr>eo_columns = ms_columns st, eo_rows = ms_rows st, eo_rows_affected = ms_complete st,
                    eo_cursor_id = None\<rparr>, s')))"

fun collect_msg :: "nat \<Rightarrow> simple_msg \<Rightarrow> sql_row list \<times> nat \<Rightarrow> sql_row list \<times> nat" where
  "collect_msg width (Row row) (rows, fetched) = (rows @ [cells_of width row], fetched)"
| "collect_msg width (CommandComplete n) (rows, fetched) = (rows, n)"
| "collect_msg width m acc = acc"

definition collect_rows :: "simple_msg list \<Rightarrow> nat \<Rightarrow> sql_row list \<times> nat" where
  "collect_rows stream width = fold (collect_msg width) stream ([], 0)"

section \<open>Opening a query\<close>

definition close_sql :: "string \<Rightarrow> string" where
  "close_sql cursor_id = ''CLOSE '' @ cursor_id @ ''; COMMIT''"

definition fetch_sql :: "nat \<Rightarrow> string \<Rightarrow> string" where
  "fetch_sql n cursor_id = ''FETCH FORWARD '' @ nat_str n @ '' FROM '' @ cursor_id"

definition close_query :: "'s pg_client \<Rightarrow> active_cursor \<Rightarrow> 's \<Rightarrow> 's" where
  "close_query client cursor s =
     (case batch_execute client (close_sql (ac_cursor_id cursor)) s of
        (Inr _, s') \<Rightarrow> s'
      | (Inl e, s') \<Rightarrow> snd (batch_execute client ''ROLLBACK'' s'))"

definition close_previous :: "'s pg_client \<Rightarrow> active_cursor option \<Rightarrow> 's \<Rightarrow> 's" where
  "close_previous client previous s = (case previous of None \<Rightarrow> s | Some prev \<Rightarrow> close_query client prev s)"

definition first_complete :: "simple_msg list \<Rightarrow> nat option" where
  "first_complete stream =
     (case List.map_filter (\<lambda>m. case m of CommandComplete n \<Rightarrow> Some n | _ \<Rightarrow> None) stream of
        [] \<Rightarrow> None | n # _ \<Rightarrow> Some n)"

text \<open>SQLSTATE 42601.\<close>

definition is_syntax_error :: "driver_error \<Rightarrow> bool" where
  "is_syntax_error e \<longleftrightarrow> map_option fst (de_db e) = Some ''42601''"

text \<open>A statement that returns rows, through a cursor.\<close>

definition open_cursor :: "'s pg_client \<Rightarrow> string \<Rightarrow> nat \<Rightarrow> column_meta list \<Rightarrow> 's
    \<Rightarrow> (pg_error + execution_outcome \<times> active_cursor option) \<times> 's" where
  "open_cursor client sql page_size columns s =
     (let (uuid, s0) = fresh_id client s; cursor_id = ''c_'' @ uuid in
      case batch_execute client (''BEGIN; DECLARE '' @ cursor_id @ '' NO SCROLL CURSOR FOR '' @ sql) s0 of
        (Inl e, s1) \<Rightarrow>
          (let s2 = snd (batch_execute client ''ROLLBACK'' s1) in
           if is_syntax_error e
           then (case run_multi_statement client sql page_size s2 of
                   (Inl e', s3) \<Rightarrow> (Inl e', s3)
                 | (Inr outcome, s3) \<Rightarrow> (Inr (outcome, None), s3))
           else (Inl (Driver e), s2))
      | (Inr _, s1) \<Rightarrow>
          (case simple_query client (fetch_sql page_size cursor_id) s1 of
             (Inl e, s2) \<Rightarrow> (Inl (Driver e), snd (batch_execute client ''ROLLBACK'' s2))
           | (Inr stream, s2) \<Rightarrow>
               (let (rows, fetched) = collect_rows stream (length columns) in
                if fetched < page_size
                then (Inr (\<lparr>eo_columns = columns, eo_rows = rows, eo_rows_affected = Some fetched,
                            eo_cursor_id = None\<rparr>, None),
                      snd (batch_execute client (close_sql cursor_id) s2))
                else (Inr (\<lparr>eo_columns = columns, eo_rows = rows, eo_rows_affected = Some fetched,
                            eo_cursor_id = Some cursor_id\<rparr>,
                           Some \<lparr>ac_cursor_id = cursor_id, ac_column_count = length columns\<rparr>), s2))))"

definition open_single :: "'s pg_client \<Rightarrow> string \<Rightarrow> nat \<Rightarrow> 's
    \<Rightarrow> (pg_error + execution_outcome \<times> active_cursor option) \<times> 's" where
  "open_single client sql page_size s =
     (case prepare_columns client sql s of
        (Inl e, s1) \<Rightarrow> (Inl (Driver e), s1)
      | (Inr columns, s1) \<Rightarrow>
          if columns = []
          then (case simple_query client sql s1 of
                  (Inl e, s2) \<Rightarrow> (Inl (Driver e), s2)
                | (Inr stream, s2) \<Rightarrow>
                    (Inr (\<lparr>eo_columns = [], eo_rows = [], eo_rows_affected = first_complete stream,
                           eo_cursor_id = None\<rparr>, None), s2))
          else open_cursor client sql page_size columns s1)"

text \<open>
  The recursive call of \<open>open_query\<close> is on the main part of a split script, with no previous
  cursor. The main part is a single statement (\<open>split_reassembles\<close>), so the call goes straight on
  to \<open>open_single\<close>; \<open>depth\<close> bounds the recursion and two calls are always enough
  (\<open>open_query_returns\<close>).
\<close>

fun open_query_depth :: "nat \<Rightarrow> 's pg_client \<Rightarrow> string \<Rightarrow> nat \<Rightarrow> active_cursor option \<Rightarrow> 's
    \<Rightarrow> ((pg_error + execution_outcome \<times> active_cursor option) \<times> 's) option" where
  "open_query_depth 0 client sql page_size previous s = None"
| "open_query_depth (Suc depth) client sql page_size previous s =
     (let s1 = close_previous client previous s in
      case is_multi_statement sql of
        None \<Rightarrow> None
      | Some False \<Rightarrow> Some (open_single client sql page_size s1)
      | Some True \<Rightarrow>
          (case split_at_last_statement sql of
             None \<Rightarrow> None
           | Some (Some (preamble, main)) \<Rightarrow>
               (case batch_execute client preamble s1 of
                  (Inl e, s2) \<Rightarrow> Some (Inl (Driver e), s2)
                | (Inr _, s2) \<Rightarrow> open_query_depth depth client main page_size None s2)
           | Some None \<Rightarrow>
               (case run_multi_statement client sql page_size s1 of
                  (Inl e, s2) \<Rightarrow> Some (Inl e, s2)
                | (Inr outcome, s2) \<Rightarrow> Some (Inr (outcome, None), s2))))"

definition open_query :: "'s pg_client \<Rightarrow> string \<Rightarrow> nat \<Rightarrow> active_cursor option \<Rightarrow> 's
    \<Rightarrow> ((pg_error + execution_outcome \<times> active_cursor option) \<times> 's) option" where
  "open_query client sql page_size previous s = open_query_depth 2 client sql page_size previous s"

definition fetch_page :: "'s pg_client \<Rightarrow> active_cursor \<Rightarrow> nat \<Rightarrow> 's \<Rightarrow> (pg_error + page_result) \<times> 's" where
  "fetch_page client cursor n s =
     (case simple_query client (fetch_sql n (ac_cursor_id cursor)) s of
        (Inl e, s') \<Rightarrow> (Inl (Driver e), s')
      | (Inr stream, s') \<Rightarrow>
          (let (rows, fetched) = collect_rows stream (ac_column_count cursor)
           in (Inr \<lparr>pr_rows = rows, pr_has_more = (fetched = n)\<rparr>, s')))"

section \<open>Termination and panics\<close>

lemma ascii_infix: "is_ascii s \<Longrightarrow> set t \<subseteq> set s \<Longrightarrow> is_ascii t"
  by (auto simp: is_ascii_def list_all_iff)

lemma is_multi_statement_ascii: "is_ascii sql \<Longrightarrow> \<exists>b. is_multi_statement sql = Some b"
  using semicolons_ascii[of sql Normal 0] by (auto simp: is_multi_statement_def top_level_semicolons_def)

lemma split_ascii:
  assumes "is_ascii sql"
  shows "\<exists>r. split_at_last_statement sql = Some r"
proof -
  obtain ps where ps: "top_level_semicolons sql = Some ps"
    using semicolons_ascii[OF assms, of Normal 0] by (auto simp: top_level_semicolons_def)
  have "is_ascii (trim (drop (last ps + 1) sql))"
    using assms set_trim_subset[of "drop (last ps + 1) sql"] set_drop_subset[of "last ps + 1" sql]
    by (intro ascii_infix[OF assms]) blast
  then obtain b where "is_multi_statement (trim (drop (last ps + 1) sql)) = Some b"
    using is_multi_statement_ascii by blast
  then show ?thesis using ps by (auto simp: split_at_last_statement_def Let_def)
qed

lemma split_main_single:
  "split_at_last_statement sql = Some (Some (preamble, main)) \<Longrightarrow> is_multi_statement main = Some False"
  by (auto simp: split_at_last_statement_def Let_def split: option.splits if_splits)

lemma open_query_single:
  "is_multi_statement sql = Some False \<Longrightarrow>
   open_query_depth (Suc n) client sql page_size previous s
     = Some (open_single client sql page_size (close_previous client previous s))"
  by simp

text \<open>Two calls decide, and more change nothing.\<close>

lemma open_query_depth_stable:
  assumes "is_ascii sql"
  shows "\<exists>res. \<forall>n. open_query_depth (Suc (Suc n)) client sql page_size previous s = Some res"
proof -
  obtain b where b: "is_multi_statement sql = Some b" using is_multi_statement_ascii[OF assms] by blast
  obtain r where r: "split_at_last_statement sql = Some r" using split_ascii[OF assms] by blast
  show ?thesis
  proof (cases b)
    case True
    show ?thesis
    proof (cases r)
      case None
      obtain e s2 where "run_multi_statement client sql page_size (close_previous client previous s) = (e, s2)"
        by (cases "run_multi_statement client sql page_size (close_previous client previous s)")
      then show ?thesis using True b r None by (cases e) (auto simp: Let_def)
    next
      case (Some pm)
      obtain pre main where pm: "pm = (pre, main)" by (cases pm)
      obtain e s2 where e: "batch_execute client pre (close_previous client previous s) = (e, s2)"
        by (cases "batch_execute client pre (close_previous client previous s)")
      have "is_multi_statement main = Some False" using r Some pm split_main_single by blast
      note facts = this r[unfolded Some pm]
      show ?thesis
      proof (cases e)
        case (Inl x)
        have "open_query_depth (Suc (Suc m)) client sql page_size previous s = Some (Inl (Driver x), s2)" for m
          using facts b True e[unfolded Inl] by (simp add: Let_def)
        then show ?thesis by blast
      next
        case (Inr u)
        have "open_query_depth (Suc (Suc m)) client sql page_size previous s
            = Some (open_single client main page_size (close_previous client None s2))" for m
          using facts b True e[unfolded Inr] by (simp add: Let_def)
        then show ?thesis by blast
      qed
    qed
  qed (use b in auto)
qed


text \<open>A server for the examples: every query has one column and gives two rows.\<close>

definition demo_client :: "string list pg_client" where
  "demo_client =
     \<lparr>batch_execute = (\<lambda>q s. (Inr (), s @ [q])),
      simple_query = (\<lambda>q s. (Inr [Row [Some ''1''], Row [None], CommandComplete 2], s @ [q])),
      prepare_columns = (\<lambda>q s. (Inr [\<lparr>cm_name = ''a'', cm_type_oid = 23, cm_type_name = ''int4''\<rparr>], s @ [q])),
      fresh_id = (\<lambda>s. (''0'', s))\<rparr>"


section \<open>Pages\<close>

lemma length_cells_of [simp]: "length (cells_of width row) = width"
  by (simp add: cells_of_def)

lemma collect_rows_widths:
  "(\<forall>r \<in> set rows. length r = width) \<Longrightarrow>
   \<forall>r \<in> set (fst (fold (collect_msg width) stream (rows, n))). length r = width"
proof (induction stream arbitrary: rows n)
  case (Cons m stream)
  show ?case
  proof (cases m)
    case (Row row)
    then show ?thesis using Cons.IH[of "rows @ [cells_of width row]" n] Cons.prems by simp
  qed (use Cons in auto)
qed simp

lemma multi_rows:
  "(\<forall>r \<in> set (ms_rows st). length r = length (ms_columns st)) \<and> length (ms_rows st) \<le> page_size \<Longrightarrow>
   (let st' = fold (multi_msg page_size) stream st in
    (\<forall>r \<in> set (ms_rows st'). length r = length (ms_columns st')) \<and> length (ms_rows st') \<le> page_size)"
proof (induction stream arbitrary: st)
  case (Cons m stream)
  then show ?case by (cases m) (auto simp: Let_def)
qed simp

text \<open>What every successful outcome guarantees.\<close>

definition outcome_ok :: "nat \<Rightarrow> execution_outcome \<times> active_cursor option \<Rightarrow> bool" where
  "outcome_ok page_size r \<longleftrightarrow>
     (\<forall>row \<in> set (eo_rows (fst r)). length row = length (eo_columns (fst r)))
   \<and> eo_cursor_id (fst r) = map_option ac_cursor_id (snd r)
   \<and> (\<forall>c. snd r = Some c \<longrightarrow> ac_column_count c = length (eo_columns (fst r))
        \<and> (\<exists>n \<ge> page_size. eo_rows_affected (fst r) = Some n))"

lemma run_multi_ok:
  "run_multi_statement client sql page_size s = (Inr outcome, s') \<Longrightarrow> outcome_ok page_size (outcome, None)"
  using multi_rows[of "\<lparr>ms_columns = [], ms_rows = [], ms_complete = None\<rparr>" page_size]
  by (auto simp: run_multi_statement_def outcome_ok_def Let_def split: prod.splits sum.splits)

lemma open_cursor_ok:
  assumes "open_cursor client sql page_size columns s = (Inr r, s')"
  shows "outcome_ok page_size r"
  using assms collect_rows_widths[of "[]" "length columns" _ 0]
  by (auto simp: open_cursor_def Let_def collect_rows_def outcome_ok_def dest: run_multi_ok
      split: prod.splits sum.splits if_splits)
     (metis fst_conv)+

lemma open_single_ok:
  "open_single client sql page_size s = (Inr r, s') \<Longrightarrow> outcome_ok page_size r"
  by (auto simp: open_single_def outcome_ok_def[of _ "(_, None)"] dest: open_cursor_ok
      split: prod.splits sum.splits if_splits)

lemma open_query_depth_ok:
  "open_query_depth n client sql page_size previous s = Some (Inr r, s') \<Longrightarrow> outcome_ok page_size r"
proof (induction n arbitrary: sql previous s)
  case (Suc n)
  then show ?case
    by (auto simp: Let_def dest: open_single_ok run_multi_ok
        split: option.splits bool.splits prod.splits sum.splits)
qed simp

text \<open>The outcome of a query is well formed: every row has one cell for each column, a cursor id is
  reported exactly when a cursor is left open on the server, and then its column count is that of
  the outcome and the page was full.
\<close>

lemma query_outcome_wellformed:
  assumes "open_query client sql page_size previous s = Some (Inr (outcome, cursor), s')"
  shows "(\<forall>row \<in> set (eo_rows outcome). length row = length (eo_columns outcome))
    \<and> eo_cursor_id outcome = map_option ac_cursor_id cursor
    \<and> (\<forall>c. cursor = Some c \<longrightarrow> ac_column_count c = length (eo_columns outcome)
         \<and> (\<exists>n \<ge> page_size. eo_rows_affected outcome = Some n))"
  using open_query_depth_ok[OF assms[unfolded open_query_def]] by (simp add: outcome_ok_def)

end
