(* ===== verification/PgEdit.thy ===== *)
theory PgEdit
  imports SqlExec
begin

text \<open>
  Row editing, \<open>crates/pg/src/edit.rs\<close>: the SQL texts that are built from identifiers and type
  expressions, and the calls that run them. The driver is \<open>edit_client\<close>; a row it returns has a
  cell or a driver error for each column.
\<close>

section \<open>Quoting and types\<close>

definition quote_ident :: "string \<Rightarrow> string" where
  "quote_ident s = quote2 # replace_char quote2 [quote2, quote2] s @ [quote2]"

definition type_char :: "char \<Rightarrow> bool" where
  "type_char c \<longleftrightarrow> is_alnum c \<or> c \<in> {CHR ''_'', CHR '' '', quote2, CHR ''.'', CHR '','', CHR ''('', CHR '')'',
     CHR ''['', CHR '']''}"

text \<open>The loop over the quotes: whether a quote is open at the end.\<close>

function quote_open :: "bool \<Rightarrow> string \<Rightarrow> bool" where
  "quote_open quoted [] = quoted"
| "quote_open quoted (ch # chars) =
     (if ch = quote2 then
        if quoted \<and> next_is quote2 chars then quote_open quoted (tl chars) else quote_open (\<not> quoted) chars
      else quote_open quoted chars)"
  by pat_completeness auto
termination
  by (relation "measure (\<lambda>(q, s). length s)") auto

definition validate_type_expression :: "string \<Rightarrow> pg_error + string" where
  "validate_type_expression s =
     (let trimmed = trim s in
      if trimmed = [] then Inl (InvalidInput ''type expression is empty'')
      else if \<not> list_all type_char trimmed
      then Inl (InvalidInput (''unsupported type expression: '' @ trimmed))
      else if quote_open False trimmed
      then Inl (InvalidInput (''unterminated quoted type expression: '' @ trimmed))
      else Inr trimmed)"

section \<open>Statements\<close>

definition qualified_name :: "string \<Rightarrow> string \<Rightarrow> string" where
  "qualified_name schema table = quote_ident schema @ ''.'' @ quote_ident table"

definition update_sql :: "string \<Rightarrow> string \<Rightarrow> string \<Rightarrow> string option \<Rightarrow> string" where
  "update_sql schema table column ty =
     (case ty of
        Some t \<Rightarrow> ''UPDATE '' @ qualified_name schema table @ '' SET '' @ quote_ident column
                  @ '' = $1::text::'' @ t @ '' WHERE ctid = $2::text::tid''
      | None \<Rightarrow> ''UPDATE '' @ qualified_name schema table @ '' SET '' @ quote_ident column
                  @ '' = NULL WHERE ctid = $1::text::tid'')"

record insert_column =
  ic_name :: string
  ic_type_name :: string
  ic_value :: "string option"

fun placeholders :: "nat \<Rightarrow> insert_column list \<Rightarrow> pg_error + string list" where
  "placeholders idx [] = Inr []"
| "placeholders idx (i # is) =
     and_then (validate_type_expression (ic_type_name i))
       (\<lambda>ty. and_then (placeholders (Suc idx) is)
          (\<lambda>rest. Inr ((''$'' @ nat_str (idx + 1) @ ''::text::'' @ ty) # rest)))"

definition return_column :: "string \<Rightarrow> string" where
  "return_column name =
     (if name = ''__pg_rowid__'' then ''ctid::text AS '' @ quote_ident name
      else quote_ident name @ ''::text AS '' @ quote_ident name)"

definition returning_clause :: "string list \<Rightarrow> string" where
  "returning_clause return_columns =
     (if return_columns = [] then ''ctid::text AS '' @ quote_ident ''__pg_rowid__''
      else join '', '' (map return_column return_columns))"

definition insert_sql :: "string \<Rightarrow> string \<Rightarrow> insert_column list \<Rightarrow> string list \<Rightarrow> pg_error + string" where
  "insert_sql schema table inputs return_columns =
     (if inputs = []
      then Inr (''INSERT INTO '' @ qualified_name schema table @ '' DEFAULT VALUES RETURNING ''
                @ returning_clause return_columns)
      else and_then (placeholders 0 inputs)
        (\<lambda>ps. Inr (''INSERT INTO '' @ qualified_name schema table
                   @ '' ('' @ join '', '' (map (\<lambda>i. quote_ident (ic_name i)) inputs) @ '')''
                   @ '' VALUES ('' @ join '', '' ps @ '') RETURNING '' @ returning_clause return_columns)))"

definition delete_sql :: "string \<Rightarrow> string \<Rightarrow> string" where
  "delete_sql schema table =
     ''DELETE FROM '' @ qualified_name schema table @ '' WHERE ctid = ANY($1::text[]::tid[])''"

section \<open>Operations\<close>

datatype pg_param = TextParam string | NullableParam "string option" | TextArray "string list"

record 's edit_client =
  pg_execute :: "string \<Rightarrow> pg_param list \<Rightarrow> 's \<Rightarrow> (driver_error + nat) \<times> 's"
  pg_query :: "string \<Rightarrow> pg_param list \<Rightarrow> 's \<Rightarrow> (driver_error + (driver_error + string option) list list) \<times> 's"

definition run_execute :: "'s edit_client \<Rightarrow> string \<Rightarrow> pg_param list \<Rightarrow> 's \<Rightarrow> (pg_error + nat) \<times> 's" where
  "run_execute client sql params s = (case pg_execute client sql params s of (r, s') \<Rightarrow> (map_err Driver r, s'))"

definition update_cell :: "'s edit_client \<Rightarrow> string \<Rightarrow> string \<Rightarrow> string \<Rightarrow> string \<Rightarrow> string option \<Rightarrow> string
    \<Rightarrow> 's \<Rightarrow> (pg_error + nat) \<times> 's" where
  "update_cell client schema table column column_type new_value ctid s =
     (case new_value of
        Some value \<Rightarrow>
          (case validate_type_expression column_type of
             Inl e \<Rightarrow> (Inl e, s)
           | Inr ty \<Rightarrow> run_execute client (update_sql schema table column (Some ty)) [TextParam value, TextParam ctid] s)
      | None \<Rightarrow> run_execute client (update_sql schema table column None) [TextParam ctid] s)"

definition insert_row :: "'s edit_client \<Rightarrow> string \<Rightarrow> string \<Rightarrow> insert_column list \<Rightarrow> string list
    \<Rightarrow> 's \<Rightarrow> (pg_error + string option list) \<times> 's" where
  "insert_row client schema table inputs return_columns s =
     (case insert_sql schema table inputs return_columns of
        Inl e \<Rightarrow> (Inl e, s)
      | Inr sql \<Rightarrow>
          (case pg_query client sql (map (\<lambda>i. NullableParam (ic_value i)) inputs) s of
             (Inl e, s') \<Rightarrow> (Inl (Driver e), s')
           | (Inr [], s') \<Rightarrow> (Inl (PgConnect ''INSERT returned no row''), s')
           | (Inr (row # _), s') \<Rightarrow> (map_err Driver (collect_results row), s')))"

definition delete_rows :: "'s edit_client \<Rightarrow> string \<Rightarrow> string \<Rightarrow> string list \<Rightarrow> 's \<Rightarrow> (pg_error + nat) \<times> 's" where
  "delete_rows client schema table ctids s =
     (if ctids = [] then (Inr 0, s)
      else run_execute client (delete_sql schema table) [TextArray ctids] s)"

section \<open>What the statements lex to\<close>

text \<open>
  \<open>neutral t\<close>: read from the normal state, the text has no top-level semicolon and leads back to
  the normal state, unless a further quote is glued to its end.
\<close>

definition neutral :: "string \<Rightarrow> bool" where
  "neutral t \<longleftrightarrow> (\<forall>i rest. \<not> next_is quote2 rest \<longrightarrow>
     semicolons Normal i (t @ rest) = semicolons Normal (i + length t) rest)"

definition plain_sql_char :: "char \<Rightarrow> bool" where
  "plain_sql_char c \<longleftrightarrow> c \<notin> {quote1, quote2, CHR ''-'', CHR ''/'', CHR ''$'', CHR '';''}"

lemma neutral_append: "neutral a \<Longrightarrow> neutral b \<Longrightarrow> \<not> next_is quote2 b \<Longrightarrow> neutral (a @ b)"
  unfolding neutral_def by (cases b) (auto simp: add.assoc)

lemma neutral_plain: "list_all plain_sql_char t \<Longrightarrow> neutral t"
proof -
  have "list_all plain_sql_char t \<Longrightarrow> semicolons Normal i (t @ rest) = semicolons Normal (i + length t) rest" for i rest
    by (induction t arbitrary: i) (auto simp: plain_sql_char_def lex_eval)
  then show "list_all plain_sql_char t \<Longrightarrow> neutral t" by (simp add: neutral_def)
qed

lemma neutral_quote_ident: "neutral (quote_ident s)"
  unfolding neutral_def quote_ident_def
  using lex_double by (simp add: lex_eval quote1_def quote2_def)

lemma neutral_param: "neutral (CHR ''$'' # nat_str n)"
proof -
  obtain d ds where n: "nat_str n = d # ds" by (cases "nat_str n") auto
  then have d: "is_digit d" "list_all is_digit (d # ds)" using nat_str_digits[of n] by auto
  have "\<not> is_alpha d \<and> d \<noteq> CHR ''_'' \<and> d \<noteq> CHR ''$''" using d(1) by (auto simp: char_classes)
  then have dq: "dollar_quote_delimiter (CHR ''$'' # d # ds @ rest) = None" for rest
    by (simp add: dollar_quote_delimiter.simps(2))
  have "list_all plain_sql_char (d # ds)"
    using d(2) by (auto simp: list_all_iff plain_sql_char_def char_defs)
  then have "neutral (d # ds)" by (rule neutral_plain)
  then show ?thesis
    using dq unfolding neutral_def n by (simp add: lex_eval quote1_def quote2_def)
qed

lemma type_char_facts: "type_char c \<Longrightarrow> c \<noteq> quote2 \<Longrightarrow> plain_sql_char c"
  by (auto simp: type_char_def plain_sql_char_def char_defs)

lemma lex_type:
  "list_all type_char t \<Longrightarrow> \<not> quote_open q t \<Longrightarrow> \<not> next_is quote2 rest \<Longrightarrow>
   semicolons (if q then DoubleQuote else Normal) i (t @ rest) = semicolons Normal (i + length t) rest"
proof (induction q t arbitrary: i rule: quote_open.induct)
  case (2 quoted ch chars)
  have q12: "quote2 \<noteq> quote1" by (simp add: quote1_def quote2_def)
  show ?case
  proof (cases "ch = quote2")
    case True
    show ?thesis
    proof (cases "quoted \<and> next_is quote2 chars")
      case both: True
      then obtain cs where cs: "chars = quote2 # cs" by (cases chars) auto
      then show ?thesis using 2(1)[OF True both, of "i + 2"] 2(4-) True both by (simp add: lex_eval)
    next
      case False
      have step: "semicolons (if \<not> quoted then DoubleQuote else Normal) (Suc i) (chars @ rest)
          = semicolons Normal (Suc i + length chars) rest"
        using 2(2)[OF True False, of "Suc i"] 2(4-) True False by simp
      have "\<not> (quoted \<and> next_is quote2 (chars @ rest))"
        using False 2(6) by (cases chars) auto
      then show ?thesis using step True q12 by (cases quoted) (simp_all add: lex_eval)
    qed
  next
    case False
    have "plain_sql_char ch" using 2(4) False type_char_facts by simp
    then show ?thesis using 2(3)[OF False, of "Suc i"] 2(4-) False
      by (cases quoted) (simp_all add: lex_eval plain_sql_char_def)
  qed
qed simp

lemma neutral_type: "validate_type_expression s = Inr t \<Longrightarrow> neutral t"
  unfolding neutral_def
  using lex_type[of t False] by (auto simp: validate_type_expression_def Let_def split: if_splits)

lemma neutral_no_separator: "neutral t \<Longrightarrow> top_level_semicolons t = Some []"
  unfolding neutral_def top_level_semicolons_def
  by (metis append_Nil2 next_is.simps(1) semicolons.simps(1))

text \<open>Texts joined with commas.\<close>

lemma neutral_join:
  "list_all neutral ts \<Longrightarrow> neutral (join '', '' ts)"
proof (induction "'', ''" ts rule: join.induct)
  case (3 x y ys)
  have "neutral ('', '' @ join '', '' (y # ys))"
  proof -
    have sp: "semicolons Normal i ('', '' @ r) = semicolons Normal (i + 2) r" for i r
      by (simp add: lex_eval quote1_def quote2_def)
    show ?thesis using 3 sp unfolding neutral_def by (simp add: add.assoc)
  qed
  then show ?case using 3 neutral_append[of x "'', '' @ join '', '' (y # ys)"] by (simp add: quote2_def)
qed (simp_all add: neutral_plain)

lemma neutral_plain_append:
  assumes "list_all plain_sql_char a" and "neutral b"
  shows "neutral (a @ b)"
proof -
  have "semicolons Normal i (a @ rest) = semicolons Normal (i + length a) rest" for i rest
    using assms(1) by (induction a arbitrary: i) (auto simp: plain_sql_char_def lex_eval)
  then show ?thesis using assms(2) unfolding neutral_def by (simp add: add.assoc)
qed

lemma neutral_ident_append:
  "neutral b \<Longrightarrow> \<not> next_is quote2 b \<Longrightarrow> neutral (quote_ident s @ b)"
  by (rule neutral_append[OF neutral_quote_ident])

lemma neutral_param_append:
  assumes "neutral b" and "b = CHR '':'' # c"
  shows "neutral (CHR ''$'' # nat_str n @ b)"
  using neutral_append[OF neutral_param assms(1), of n] assms(2) by (simp add: quote2_def)

lemma nat_str_12: "nat_str (Suc 0) = ''1''" "nat_str 2 = ''2''"
  by (simp_all add: nat_str.simps digit_char_def char_of_eq_iff)

lemmas plain_eval = plain_sql_char_def quote1_def quote2_def

lemma neutral_qualified: "neutral b \<Longrightarrow> \<not> next_is quote2 b \<Longrightarrow> neutral (qualified_name schema table @ b)"
  unfolding qualified_name_def append_assoc
  by (intro neutral_ident_append neutral_plain_append) (simp_all add: plain_eval)

text \<open>A text without top-level semicolon, and the statements built here.\<close>

definition single_statement :: "string \<Rightarrow> bool" where
  "single_statement sql \<longleftrightarrow> is_multi_statement sql = Some False"

lemma neutral_single: "neutral t \<Longrightarrow> single_statement t"
  by (simp add: single_statement_def is_multi_statement_def neutral_no_separator)

lemma delete_sql_neutral: "neutral (delete_sql schema table)"
proof -
  have "neutral (''$1'' @ ''::text[]::tid[])'')"
    using neutral_param_append[of "''::text[]::tid[])''" _ 1] by (simp add: nat_str_12 neutral_plain plain_eval)
  from neutral_plain_append[OF _ this, of "'' WHERE ctid = ANY(''"]
  have tail: "neutral ('' WHERE ctid = ANY($1::text[]::tid[])'')" by (simp add: plain_eval)
  show ?thesis
    unfolding delete_sql_def
    by (intro neutral_plain_append neutral_qualified tail) (simp_all add: plain_eval)
qed

lemma update_null_neutral: "neutral (update_sql schema table column None)"
proof -
  have "neutral (''$1'' @ ''::text::tid'')"
    using neutral_param_append[of "''::text::tid''" _ 1] by (simp add: nat_str_12 neutral_plain plain_eval)
  from neutral_plain_append[OF _ this, of "'' = NULL WHERE ctid = ''"]
  have tail: "neutral ('' = NULL WHERE ctid = $1::text::tid'')" by (simp add: plain_eval)
  show ?thesis
    unfolding update_sql_def option.case
    by (intro neutral_plain_append neutral_qualified neutral_ident_append tail) (simp_all add: plain_eval)
qed

lemma update_value_neutral:
  assumes "neutral t"
  shows "neutral (update_sql schema table column (Some t))"
proof -
  have "neutral (''$2'' @ ''::text::tid'')"
    using neutral_param_append[of "''::text::tid''" _ 2] by (simp add: nat_str_12 neutral_plain plain_eval)
  from neutral_plain_append[OF _ this, of "'' WHERE ctid = ''"]
  have "neutral ('' WHERE ctid = $2::text::tid'')" by (simp add: plain_eval)
  from neutral_append[OF assms this] have "neutral (t @ '' WHERE ctid = $2::text::tid'')" by (simp add: plain_eval)
  from neutral_plain_append[OF _ this, of "''::text::''"]
  have "neutral (''::text::'' @ t @ '' WHERE ctid = $2::text::tid'')" by (simp add: plain_eval)
  from neutral_param_append[OF this, of _ 1]
  have "neutral (''$1'' @ ''::text::'' @ t @ '' WHERE ctid = $2::text::tid'')" by (simp add: nat_str_12)
  from neutral_plain_append[OF _ this, of "'' = ''"]
  have tail: "neutral ('' = $1::text::'' @ t @ '' WHERE ctid = $2::text::tid'')" by (simp add: plain_eval)
  show ?thesis
    unfolding update_sql_def option.case
    by (intro neutral_plain_append neutral_qualified neutral_ident_append tail) (simp_all add: plain_eval)
qed

lemma text_as_neutral: "neutral (''::text AS '' @ quote_ident name)" "neutral (''ctid::text AS '' @ quote_ident name)"
  by (rule neutral_plain_append[OF _ neutral_quote_ident], simp add: plain_eval)+

lemma return_column_neutral: "neutral (return_column name)"
proof -
  have "\<not> next_is quote2 (''::text AS '' @ quote_ident name)" by (simp add: quote2_def)
  from neutral_ident_append[OF text_as_neutral(1) this, of name] text_as_neutral(2)[of name]
  show ?thesis unfolding return_column_def by (simp only: split: if_split) blast
qed

lemma returning_neutral: "neutral (returning_clause cols)"
proof (cases "cols = []")
  case True
  then show ?thesis using text_as_neutral(2)[of "''__pg_rowid__''"] by (simp add: returning_clause_def)
next
  case False
  have "list_all neutral (map return_column cols)" by (simp add: list_all_iff return_column_neutral)
  from neutral_join[OF this] show ?thesis using False by (simp add: returning_clause_def)
qed

lemma placeholders_neutral: "placeholders idx inputs = Inr ps \<Longrightarrow> list_all neutral ps"
proof (induction inputs arbitrary: idx ps)
  case (Cons i inputs)
  then obtain ty rest where ty: "validate_type_expression (ic_type_name i) = Inr ty"
    and rest: "placeholders (Suc idx) inputs = Inr rest"
    and ps: "ps = (''$'' @ nat_str (idx + 1) @ ''::text::'' @ ty) # rest"
    by (auto simp: and_then_Inr_iff)
  have "neutral (''::text::'' @ ty)"
    by (rule neutral_plain_append[OF _ neutral_type[OF ty]]) (simp add: plain_eval)
  from neutral_param_append[OF this, of _ "idx + 1"] show ?case
    using Cons.IH[OF rest] ps by simp
qed simp

lemma insert_sql_neutral:
  assumes "insert_sql schema table inputs cols = Inr sql"
  shows "neutral sql"
proof (cases "inputs = []")
  case True
  have "neutral ('' DEFAULT VALUES RETURNING '' @ returning_clause cols)"
    by (rule neutral_plain_append[OF _ returning_neutral]) (simp add: plain_eval)
  from neutral_qualified[OF this] have "neutral (qualified_name schema table @ '' DEFAULT VALUES RETURNING '' @ returning_clause cols)"
    by (simp add: plain_eval)
  from neutral_plain_append[OF _ this, of "''INSERT INTO ''"] show ?thesis
    using assms True by (auto simp: insert_sql_def plain_eval)
next
  case False
  then obtain ps where ps: "placeholders 0 inputs = Inr ps"
    and sql: "sql = ''INSERT INTO '' @ qualified_name schema table
                   @ '' ('' @ join '', '' (map (\<lambda>i. quote_ident (ic_name i)) inputs) @ '')''
                   @ '' VALUES ('' @ join '', '' ps @ '') RETURNING '' @ returning_clause cols"
    using assms by (auto simp: insert_sql_def and_then_Inr_iff)
  have tail: "neutral ('') RETURNING '' @ returning_clause cols)"
    by (rule neutral_plain_append[OF _ returning_neutral]) (simp add: plain_eval)
  have vals: "neutral ('')'' @ '' VALUES ('' @ join '', '' ps @ '') RETURNING '' @ returning_clause cols)"
    by (intro neutral_plain_append neutral_append[OF neutral_join[OF placeholders_neutral[OF ps]] tail])
       (simp_all add: plain_eval)
  have names: "list_all neutral (map (\<lambda>i. quote_ident (ic_name i)) inputs)"
    by (simp add: list_all_iff neutral_quote_ident)
  show ?thesis
    unfolding sql
    by (intro neutral_plain_append neutral_qualified neutral_append[OF neutral_join[OF names] vals])
       (simp_all add: plain_eval)
qed

text \<open>
  C16. Whatever the schema, table, column and type names and the values are, an edit only hands
  the driver texts that are one statement: two drivers that agree on single statements cannot be
  told apart by any edit.
\<close>

theorem edits_run_single_statements:
  assumes "\<And>sql params s. single_statement sql \<Longrightarrow> pg_execute c1 sql params s = pg_execute c2 sql params s"
    and "\<And>sql params s. single_statement sql \<Longrightarrow> pg_query c1 sql params s = pg_query c2 sql params s"
  shows "update_cell c1 schema table column ty v ctid s = update_cell c2 schema table column ty v ctid s
    \<and> insert_row c1 schema table inputs cols s = insert_row c2 schema table inputs cols s
    \<and> delete_rows c1 schema table ctids s = delete_rows c2 schema table ctids s"
proof (intro conjI)
  show "update_cell c1 schema table column ty v ctid s = update_cell c2 schema table column ty v ctid s"
    using assms(1)[OF neutral_single[OF update_null_neutral]]
      assms(1)[OF neutral_single[OF update_value_neutral[OF neutral_type]]]
    by (auto simp: update_cell_def run_execute_def split: option.splits sum.splits)
  show "insert_row c1 schema table inputs cols s = insert_row c2 schema table inputs cols s"
    using assms(2)[OF neutral_single[OF insert_sql_neutral]]
    by (auto simp: insert_row_def split: sum.splits)
  show "delete_rows c1 schema table ctids s = delete_rows c2 schema table ctids s"
    using assms(1)[OF neutral_single[OF delete_sql_neutral]]
    by (simp add: delete_rows_def run_execute_def)
qed

text \<open>A driver that refuses scripts, and one that runs anything.\<close>

definition strict_driver :: "nat edit_client" where
  "strict_driver = \<lparr> pg_execute = (\<lambda>sql ps s. (if single_statement sql then Inr 1 else Inr 0, Suc s)),
     pg_query = (\<lambda>sql ps s. (Inr [[]], Suc s)) \<rparr>"

definition lax_driver :: "nat edit_client" where
  "lax_driver = \<lparr> pg_execute = (\<lambda>sql ps s. (Inr 1, Suc s)), pg_query = (\<lambda>sql ps s. (Inr [[]], Suc s)) \<rparr>"

theorem edits_run_single_statements_witness:
  "delete_rows strict_driver ''s;'' ''t'' [''(0,1)''] 0 = (Inr 1, 1)
   \<and> update_cell strict_driver ''s;'' ''t'' ''c'' ''text'' None ''(0,1)'' 0 = (Inr 1, 1)"
proof -
  have a: "single_statement sql \<Longrightarrow> pg_execute strict_driver sql ps s = pg_execute lax_driver sql ps s" for sql ps s
    by (simp add: strict_driver_def lax_driver_def)
  have b: "pg_query strict_driver sql ps s = pg_query lax_driver sql ps s" for sql ps s
    by (simp add: strict_driver_def lax_driver_def)
  note agree = edits_run_single_statements[of strict_driver lax_driver "''s;''" "''t''" "''c''" "''text''" None
      "''(0,1)''" 0 "[]" "[]" "[''(0,1)'']", OF a b]
  have "delete_rows lax_driver ''s;'' ''t'' [''(0,1)''] 0 = (Inr 1, 1)"
    "update_cell lax_driver ''s;'' ''t'' ''c'' ''text'' None ''(0,1)'' 0 = (Inr 1, 1)"
    by (simp_all add: delete_rows_def update_cell_def run_execute_def lax_driver_def)
  then show ?thesis using agree by simp
qed

end
