(* ===== verification/PgPool.thy ===== *)
theory PgPool
  imports PgEdit
begin

text \<open>
  The connection pool, \<open>crates/pg/src/lib.rs\<close>. A connection is a number given out by the pool; its
  cursor is kept in \<open>pl_cursor\<close> and its aborted background task in \<open>pl_aborted\<close>. An \<open>async\<close> function
  that takes the pool's locks several times is a \<open>pool_task\<close>: each constructor is the point between
  two lock windows, and \<open>lease_window\<close> and \<open>sql_window\<close> run the window that starts there. The
  operations run the windows of one task to the end; \<open>pool_step\<close> interleaves those of many tasks.
  Instants and durations are in milliseconds.
\<close>

section \<open>State\<close>

definition DEFAULT_MAX_POOL_SIZE :: nat where "DEFAULT_MAX_POOL_SIZE = 5"
definition DEFAULT_IDLE_TIMEOUT :: nat where "DEFAULT_IDLE_TIMEOUT = 300 * 1000"
definition DEFAULT_MIN_IDLE_CONNECTIONS :: nat where "DEFAULT_MIN_IDLE_CONNECTIONS = 1"
definition BROWSER_SESSION_ID :: string where "BROWSER_SESSION_ID = ''_browser''"

record idle_entry =
  ie_since :: nat
  ie_conn :: nat

record secondary_entry =
  se_since :: nat
  se_conn :: nat

record pg_pool =
  pl_config :: pg_config
  pl_tls :: tls_connector
  pl_idle :: "idle_entry list"
  pl_leased :: "(string \<times> nat) list"
  pl_total :: nat
  pl_max_size :: nat
  pl_idle_timeout :: nat
  pl_min_idle :: nat
  pl_secondary :: "(string \<times> secondary_entry) list"
  pl_eviction_cancelled :: bool
  pl_cursor :: "nat \<Rightarrow> active_cursor option"
  pl_aborted :: "nat list"
  pl_next :: nat

text \<open>What the environment answers while a window runs: the time, the outcome of a dial, and which
  connections are held by a running operation.\<close>

record pool_input =
  in_now :: nat
  in_dial :: "driver_config \<Rightarrow> tls_connector \<Rightarrow> driver_error + unit"
  in_busy :: "nat \<Rightarrow> bool"

definition pool_open :: "pool_input \<Rightarrow> pg_config \<Rightarrow> pg_pool \<Rightarrow> (pg_error + nat) \<times> pg_pool" where
  "pool_open inp cfg p =
     (case open_one (in_dial inp) cfg (pl_tls p) of
        Inl e \<Rightarrow> (Inl e, p)
      | Inr _ \<Rightarrow> (Inr (pl_next p), p\<lparr>pl_next := Suc (pl_next p)\<rparr>))"

definition pool_max_size :: "pg_config \<Rightarrow> nat" where
  "pool_max_size cfg =
     (case pg_max_pool_size cfg of Some n \<Rightarrow> if 0 < n then n else DEFAULT_MAX_POOL_SIZE | None \<Rightarrow> DEFAULT_MAX_POOL_SIZE)"

definition pool_idle_timeout :: "pg_config \<Rightarrow> nat" where
  "pool_idle_timeout cfg = (case pg_idle_timeout_secs cfg of Some n \<Rightarrow> n * 1000 | None \<Rightarrow> DEFAULT_IDLE_TIMEOUT)"

definition pool_min_idle :: "pg_config \<Rightarrow> nat" where
  "pool_min_idle cfg = unwrap_or DEFAULT_MIN_IDLE_CONNECTIONS (pg_min_idle_connections cfg)"

definition pool_connect :: "pool_input \<Rightarrow> pg_config \<Rightarrow> pg_error + pg_pool" where
  "pool_connect inp cfg =
     and_then (build_tls_connector cfg)
       (\<lambda>tls. and_then (open_one (in_dial inp) cfg tls)
          (\<lambda>_. Inr \<lparr>pl_config = cfg, pl_tls = tls,
                    pl_idle = [\<lparr>ie_since = in_now inp, ie_conn = 0\<rparr>], pl_leased = [], pl_total = 1,
                    pl_max_size = pool_max_size cfg, pl_idle_timeout = pool_idle_timeout cfg,
                    pl_min_idle = pool_min_idle cfg, pl_secondary = [], pl_eviction_cancelled = False,
                    pl_cursor = (\<lambda>_. None), pl_aborted = [], pl_next = 1\<rparr>))"

section \<open>Tasks\<close>

text \<open>What an operation does on the connection once it holds it: \<open>JOther\<close> runs SQL that leaves the
  cursor alone (introspection and row edits).\<close>

datatype pool_job = JExecute string nat | JFetch string string nat | JClose string | JOther

datatype pool_task =
    LeaseFast string pool_job
  | LeaseIdle string pool_job
  | LeaseCheck string pool_job
  | LeaseReserve string pool_job
  | LeaseOpen string pool_job
  | LeaseAssign string nat pool_job
  | BrowserStart "string option" pool_job
  | BrowserCached string pool_job
  | BrowserReserve string pool_job
  | BrowserOpen string pool_job
  | BrowserInsert string nat pool_job
  | BrowserDuplicate nat pool_job
  | SlotUndo pg_error
  | Lookup string pool_job
  | Holding nat pool_job
  | ReleaseTake string
  | ReleaseClose nat
  | ReleasePush nat
  | ShutCancel
  | ShutInner
  | ShutSecondary "nat list"
  | EvictIdle
  | EvictSecondary nat
  | EvictTotal "nat list"
  | Failed pg_error
  | Finished

text \<open>\<open>reserve_connection_slot\<close> and \<open>release_connection_slot\<close>.\<close>

definition reserve_connection_slot :: "pg_pool \<Rightarrow> (pg_error + unit) \<times> pg_pool" where
  "reserve_connection_slot p =
     (if pl_max_size p \<le> pl_total p then (Inl (PoolExhausted (pl_total p) (pl_max_size p)), p)
      else (Inr (), p\<lparr>pl_total := pl_total p + 1\<rparr>))"

definition release_connection_slot :: "pg_pool \<Rightarrow> pg_pool" where
  "release_connection_slot p = p\<lparr>pl_total := pl_total p - 1\<rparr>"

definition leased_only :: "string \<Rightarrow> pg_pool \<Rightarrow> nat option" where
  "leased_only session_id p = map_of (pl_leased p) session_id"

definition assign_lease :: "string \<Rightarrow> nat \<Rightarrow> pg_pool \<Rightarrow> pg_pool" where
  "assign_lease session_id conn p = p\<lparr>pl_leased := AList.update session_id conn (pl_leased p)\<rparr>"

definition take_lease :: "string \<Rightarrow> pg_pool \<Rightarrow> nat option \<times> pg_pool" where
  "take_lease session_id p =
     (map_of (pl_leased p) session_id, p\<lparr>pl_leased := AList.delete session_id (pl_leased p)\<rparr>)"

definition abort_connection_tasks :: "nat list \<Rightarrow> pg_pool \<Rightarrow> pg_pool" where
  "abort_connection_tasks conns p = p\<lparr>pl_aborted := pl_aborted p @ conns\<rparr>"

section \<open>Eviction\<close>

text \<open>The loop over the snapshot: \<open>keep\<close> and \<open>drop_list\<close> accumulate in order.\<close>

fun evict_scan :: "nat \<Rightarrow> nat \<Rightarrow> nat \<Rightarrow> idle_entry list \<Rightarrow> idle_entry list \<Rightarrow> nat list \<Rightarrow> idle_entry list \<times> nat list" where
  "evict_scan now timeout min_idle [] keep drop_list = (keep, drop_list)"
| "evict_scan now timeout min_idle (entry # rest) keep drop_list =
     (let aged = timeout \<le> now - ie_since entry in
      if \<not> aged \<or> length keep < min_idle
      then evict_scan now timeout min_idle rest (keep @ [entry]) drop_list
      else evict_scan now timeout min_idle rest keep (drop_list @ [ie_conn entry]))"

definition evict_idle :: "nat \<Rightarrow> pg_pool \<Rightarrow> pg_pool" where
  "evict_idle now p =
     (let (keep, drop_list) = evict_scan now (pl_idle_timeout p) (pl_min_idle p) (pl_idle p) [] [] in
      abort_connection_tasks drop_list
        (p\<lparr>pl_idle := keep, pl_total := pl_total p - length drop_list\<rparr>))"

definition secondary_expired :: "pool_input \<Rightarrow> nat \<Rightarrow> pg_pool \<Rightarrow> secondary_entry \<Rightarrow> bool" where
  "secondary_expired inp now p entry \<longleftrightarrow>
     pl_idle_timeout p \<le> now - se_since entry \<and> \<not> in_busy inp (se_conn entry)"

definition evict_secondary_browsers :: "pool_input \<Rightarrow> nat \<Rightarrow> pg_pool \<Rightarrow> nat list \<times> pg_pool" where
  "evict_secondary_browsers inp now p =
     (map (\<lambda>(d, e). se_conn e) (filter (\<lambda>(d, e). secondary_expired inp now p e) (pl_secondary p)),
      p\<lparr>pl_secondary := filter (\<lambda>(d, e). \<not> secondary_expired inp now p e) (pl_secondary p)\<rparr>)"

section \<open>Lock windows\<close>

fun lease_window :: "pool_input \<Rightarrow> pool_task \<Rightarrow> pg_pool \<Rightarrow> pool_task \<times> pg_pool" where
  "lease_window inp (LeaseFast sid j) p =
     (case leased_only sid p of Some c \<Rightarrow> (Holding c j, p) | None \<Rightarrow> (LeaseIdle sid j, p))"
| "lease_window inp (LeaseIdle sid j) p =
     (if pl_idle p = [] then (LeaseCheck sid j, p)
      else (LeaseAssign sid (ie_conn (last (pl_idle p))) j, p\<lparr>pl_idle := butlast (pl_idle p)\<rparr>))"
| "lease_window inp (LeaseCheck sid j) p =
     (if pl_max_size p \<le> pl_total p then (Failed (PoolExhausted (pl_total p) (pl_max_size p)), p)
      else (LeaseReserve sid j, p))"
| "lease_window inp (LeaseReserve sid j) p =
     (case reserve_connection_slot p of (Inl e, p') \<Rightarrow> (Failed e, p') | (Inr _, p') \<Rightarrow> (LeaseOpen sid j, p'))"
| "lease_window inp (LeaseOpen sid j) p =
     (case pool_open inp (pl_config p) p of
        (Inl e, p') \<Rightarrow> (SlotUndo e, p') | (Inr c, p') \<Rightarrow> (LeaseAssign sid c j, p'))"
| "lease_window inp (LeaseAssign sid c j) p = (Holding c j, assign_lease sid c p)"
| "lease_window inp (BrowserStart database j) p =
     (let target = unwrap_or (pg_database (pl_config p)) database in
      if target = pg_database (pl_config p) then (LeaseFast BROWSER_SESSION_ID j, p)
      else (BrowserCached target j, p))"
| "lease_window inp (BrowserCached target j) p =
     (case map_of (pl_secondary p) target of
        Some entry \<Rightarrow>
          (Holding (se_conn entry) j,
           p\<lparr>pl_secondary := AList.update target (entry\<lparr>se_since := in_now inp\<rparr>) (pl_secondary p)\<rparr>)
      | None \<Rightarrow> (BrowserReserve target j, p))"
| "lease_window inp (BrowserReserve target j) p =
     (case reserve_connection_slot p of (Inl e, p') \<Rightarrow> (Failed e, p') | (Inr _, p') \<Rightarrow> (BrowserOpen target j, p'))"
| "lease_window inp (BrowserOpen target j) p =
     (case pool_open inp ((pl_config p)\<lparr>pg_database := target\<rparr>) p of
        (Inl e, p') \<Rightarrow> (SlotUndo e, p') | (Inr c, p') \<Rightarrow> (BrowserInsert target c j, p'))"
| "lease_window inp (BrowserInsert target c j) p =
     (case map_of (pl_secondary p) target of
        Some existing \<Rightarrow>
          (BrowserDuplicate (se_conn existing) j,
           p\<lparr>pl_secondary := AList.update target (existing\<lparr>se_since := in_now inp\<rparr>) (pl_secondary p)\<rparr>)
      | None \<Rightarrow>
          (Holding c j,
           p\<lparr>pl_secondary := AList.update target \<lparr>se_since = in_now inp, se_conn = c\<rparr> (pl_secondary p)\<rparr>))"
| "lease_window inp (BrowserDuplicate c j) p = (Holding c j, release_connection_slot p)"
| "lease_window inp (SlotUndo e) p = (Failed e, release_connection_slot p)"
| "lease_window inp (Lookup sid j) p =
     (case leased_only sid p of
        Some c \<Rightarrow> (Holding c j, p)
      | None \<Rightarrow> (case j of JFetch _ _ _ \<Rightarrow> (Failed (CursorExpired (''no active session '' @ sid)), p)
                | _ \<Rightarrow> (Finished, p)))"
| "lease_window inp (ReleaseTake sid) p =
     (case take_lease sid p of (None, p') \<Rightarrow> (Finished, p') | (Some c, p') \<Rightarrow> (ReleaseClose c, p'))"
| "lease_window inp (ReleasePush c) p =
     (Finished, p\<lparr>pl_idle := pl_idle p @ [\<lparr>ie_since = in_now inp, ie_conn = c\<rparr>]\<rparr>)"
| "lease_window inp ShutCancel p = (ShutInner, p\<lparr>pl_eviction_cancelled := True\<rparr>)"
| "lease_window inp ShutInner p =
     (ShutSecondary (map ie_conn (pl_idle p) @ map snd (pl_leased p)),
      p\<lparr>pl_idle := [], pl_leased := [], pl_total := 0\<rparr>)"
| "lease_window inp (ShutSecondary conns) p =
     (Finished, abort_connection_tasks (conns @ map (\<lambda>(d, e). se_conn e) (pl_secondary p)) (p\<lparr>pl_secondary := []\<rparr>))"
| "lease_window inp EvictIdle p = (EvictSecondary (in_now inp), evict_idle (in_now inp) p)"
| "lease_window inp (EvictSecondary now) p =
     (case evict_secondary_browsers inp now p of
        ([], p') \<Rightarrow> (Finished, p') | (dropped, p') \<Rightarrow> (EvictTotal dropped, p'))"
| "lease_window inp (EvictTotal dropped) p =
     (Finished, abort_connection_tasks dropped (p\<lparr>pl_total := pl_total p - length dropped\<rparr>))"
| "lease_window inp t p = (t, p)"


section \<open>Work under the operation lock\<close>

text \<open>\<open>None\<close> is a panic of the statement splitter; it comes after the cursor of the query before is closed
  and before anything else is sent (\<open>split_main_single\<close>).\<close>

definition execute_on :: "(nat \<Rightarrow> 's pg_client) \<Rightarrow> nat \<Rightarrow> string \<Rightarrow> nat \<Rightarrow> pg_pool \<Rightarrow> 's
    \<Rightarrow> (pg_error + execution_outcome) option \<times> pg_pool \<times> 's" where
  "execute_on clients c sql page_size p s =
     (let p1 = p\<lparr>pl_cursor := (pl_cursor p)(c := None)\<rparr> in
      case open_query (clients c) sql page_size (pl_cursor p c) s of
        None \<Rightarrow> (None, p1, close_previous (clients c) (pl_cursor p c) s)
      | Some (Inl e, s') \<Rightarrow> (Some (Inl e), p1, s')
      | Some (Inr (outcome, new_cursor), s') \<Rightarrow>
          (Some (Inr outcome), p1\<lparr>pl_cursor := (pl_cursor p1)(c := new_cursor)\<rparr>, s'))"

definition fetch_on :: "(nat \<Rightarrow> 's pg_client) \<Rightarrow> nat \<Rightarrow> string \<Rightarrow> string \<Rightarrow> nat \<Rightarrow> pg_pool \<Rightarrow> 's
    \<Rightarrow> (pg_error + page_result) \<times> 's" where
  "fetch_on clients c sid cursor_id n p s =
     (case pl_cursor p c of
        None \<Rightarrow> (Inl (CursorExpired (''session '' @ sid @ '' has no active cursor'')), s)
      | Some cursor \<Rightarrow>
          if ac_cursor_id cursor \<noteq> cursor_id
          then (Inl (CursorExpired (''session '' @ sid @ '' active cursor is '' @ ac_cursor_id cursor
                  @ '' (looking for '' @ cursor_id @ '')'')), s)
          else fetch_page (clients c) cursor n s)"

definition close_on :: "(nat \<Rightarrow> 's pg_client) \<Rightarrow> nat \<Rightarrow> string \<Rightarrow> pg_pool \<Rightarrow> 's \<Rightarrow> pg_pool \<times> 's" where
  "close_on clients c cursor_id p s =
     (case pl_cursor p c of
        None \<Rightarrow> (p, s)
      | Some cursor \<Rightarrow>
          if ac_cursor_id cursor = cursor_id
          then (p\<lparr>pl_cursor := (pl_cursor p)(c := None)\<rparr>, close_query (clients c) cursor s)
          else (p, s))"

text \<open>The middle of \<open>release_session\<close>.\<close>

definition release_close :: "(nat \<Rightarrow> 's pg_client) \<Rightarrow> nat \<Rightarrow> pg_pool \<Rightarrow> 's \<Rightarrow> pg_pool \<times> 's" where
  "release_close clients c p s =
     (case pl_cursor p c of
        None \<Rightarrow> (p, s)
      | Some cursor \<Rightarrow> (p\<lparr>pl_cursor := (pl_cursor p)(c := None)\<rparr>, close_query (clients c) cursor s))"

fun sql_window :: "(nat \<Rightarrow> 's pg_client) \<Rightarrow> pool_task \<Rightarrow> pg_pool \<Rightarrow> 's \<Rightarrow> (pool_task \<times> pg_pool \<times> 's) option" where
  "sql_window clients (Holding c (JExecute sql n)) p s =
     (case execute_on clients c sql n p s of
        (Some (Inl e), p', s') \<Rightarrow> Some (Failed e, p', s') | (_, p', s') \<Rightarrow> Some (Finished, p', s'))"
| "sql_window clients (Holding c (JFetch sid cursor_id n)) p s =
     (case fetch_on clients c sid cursor_id n p s of
        (Inl e, s') \<Rightarrow> Some (Failed e, p, s') | (Inr _, s') \<Rightarrow> Some (Finished, p, s'))"
| "sql_window clients (Holding c (JClose cursor_id)) p s =
     (case close_on clients c cursor_id p s of (p', s') \<Rightarrow> Some (Finished, p', s'))"
| "sql_window clients (ReleaseClose c) p s =
     (case release_close clients c p s of (p', s') \<Rightarrow> Some (ReleasePush c, p', s'))"
| "sql_window clients t p s = None"

section \<open>Operations run alone\<close>

fun run_windows :: "nat \<Rightarrow> pool_input \<Rightarrow> pool_task \<Rightarrow> pg_pool \<Rightarrow> pool_task \<times> pg_pool" where
  "run_windows 0 inp t p = (t, p)"
| "run_windows (Suc k) inp t p = (case lease_window inp t p of (t', p') \<Rightarrow> run_windows k inp t' p')"

text \<open>No task runs more than eight windows before it holds a connection or has failed.\<close>

definition run_lease :: "pool_input \<Rightarrow> pool_task \<Rightarrow> pg_pool \<Rightarrow> (pg_error + nat) option \<times> pg_pool" where
  "run_lease inp t p =
     (case run_windows 8 inp t p of
        (Holding c _, p') \<Rightarrow> (Some (Inr c), p') | (Failed e, p') \<Rightarrow> (Some (Inl e), p') | (_, p') \<Rightarrow> (None, p'))"

definition lease_for_session :: "pool_input \<Rightarrow> string \<Rightarrow> pg_pool \<Rightarrow> (pg_error + nat) option \<times> pg_pool" where
  "lease_for_session inp session_id p = run_lease inp (LeaseFast session_id JOther) p"

definition browser_connection_for :: "pool_input \<Rightarrow> string option \<Rightarrow> pg_pool \<Rightarrow> (pg_error + nat) option \<times> pg_pool" where
  "browser_connection_for inp database p = run_lease inp (BrowserStart database JOther) p"

definition pool_execute :: "(nat \<Rightarrow> 's pg_client) \<Rightarrow> pool_input \<Rightarrow> string \<Rightarrow> string \<Rightarrow> nat \<Rightarrow> pg_pool \<Rightarrow> 's
    \<Rightarrow> (pg_error + execution_outcome) option \<times> pg_pool \<times> 's" where
  "pool_execute clients inp session_id sql page_size p s =
     (case lease_for_session inp session_id p of
        (Some (Inr c), p') \<Rightarrow> execute_on clients c sql page_size p' s
      | (Some (Inl e), p') \<Rightarrow> (Some (Inl e), p', s)
      | (None, p') \<Rightarrow> (None, p', s))"

definition pool_fetch_page :: "(nat \<Rightarrow> 's pg_client) \<Rightarrow> string \<Rightarrow> string \<Rightarrow> nat \<Rightarrow> pg_pool \<Rightarrow> 's
    \<Rightarrow> (pg_error + page_result) \<times> 's" where
  "pool_fetch_page clients session_id cursor_id n p s =
     (case leased_only session_id p of
        None \<Rightarrow> (Inl (CursorExpired (''no active session '' @ session_id)), s)
      | Some c \<Rightarrow> fetch_on clients c session_id cursor_id n p s)"

definition pool_close_query :: "(nat \<Rightarrow> 's pg_client) \<Rightarrow> string \<Rightarrow> string \<Rightarrow> pg_pool \<Rightarrow> 's \<Rightarrow> pg_pool \<times> 's" where
  "pool_close_query clients session_id cursor_id p s =
     (case leased_only session_id p of None \<Rightarrow> (p, s) | Some c \<Rightarrow> close_on clients c cursor_id p s)"

definition pool_release_session :: "(nat \<Rightarrow> 's pg_client) \<Rightarrow> nat \<Rightarrow> string \<Rightarrow> pg_pool \<Rightarrow> 's \<Rightarrow> pg_pool \<times> 's" where
  "pool_release_session clients now session_id p s =
     (case take_lease session_id p of
        (None, p1) \<Rightarrow> (p1, s)
      | (Some c, p1) \<Rightarrow>
          (case release_close clients c p1 s of
             (p2, s') \<Rightarrow> (p2\<lparr>pl_idle := pl_idle p2 @ [\<lparr>ie_since = now, ie_conn = c\<rparr>]\<rparr>, s')))"

definition pool_shutdown :: "pg_pool \<Rightarrow> pg_pool" where
  "pool_shutdown p =
     abort_connection_tasks (map ie_conn (pl_idle p) @ map snd (pl_leased p) @ map (\<lambda>(d, e). se_conn e) (pl_secondary p))
       (p\<lparr>pl_eviction_cancelled := True, pl_idle := [], pl_leased := [], pl_total := 0, pl_secondary := []\<rparr>)"

lemma pool_shutdown_windows: "run_windows 3 inp ShutCancel p = (Finished, pool_shutdown p)"
  by (simp add: eval_nat_numeral pool_shutdown_def abort_connection_tasks_def)

text \<open>The row edits and the introspection run a job of the driver on the leased connection.\<close>

definition on_lease :: "pool_input \<Rightarrow> pool_task \<Rightarrow> (nat \<Rightarrow> 's \<Rightarrow> (pg_error + 'r) \<times> 's) \<Rightarrow> pg_pool \<Rightarrow> 's
    \<Rightarrow> (pg_error + 'r) option \<times> pg_pool \<times> 's" where
  "on_lease inp t work p s =
     (case run_lease inp t p of
        (Some (Inr c), p') \<Rightarrow> (case work c s of (r, s') \<Rightarrow> (Some r, p', s'))
      | (Some (Inl e), p') \<Rightarrow> (Some (Inl e), p', s)
      | (None, p') \<Rightarrow> (None, p', s))"

definition pool_update_cell where
  "pool_update_cell clients inp session_id schema table column column_type new_value ctid =
     on_lease inp (LeaseFast session_id JOther)
       (\<lambda>c. update_cell (clients c) schema table column column_type new_value ctid)"

definition pool_insert_row where
  "pool_insert_row clients inp session_id schema table inputs return_columns =
     on_lease inp (LeaseFast session_id JOther) (\<lambda>c. insert_row (clients c) schema table inputs return_columns)"

definition pool_delete_rows where
  "pool_delete_rows clients inp session_id schema table ctids =
     on_lease inp (LeaseFast session_id JOther) (\<lambda>c. delete_rows (clients c) schema table ctids)"

text \<open>\<open>cancel\<close>: the connector and the connection the cancel request is sent with.\<close>

definition pool_cancel :: "(nat \<Rightarrow> tls_connector \<Rightarrow> driver_error + unit) \<Rightarrow> string \<Rightarrow> pg_pool \<Rightarrow> pg_error + unit" where
  "pool_cancel cancel_query session_id p =
     (case leased_only session_id p of
        None \<Rightarrow> Inr () | Some c \<Rightarrow> map_err Driver (cancel_query c (pl_tls p)))"

text \<open>\<open>Drop\<close>: what is aborted when the two locks are free.\<close>

definition pool_drop :: "pg_pool \<Rightarrow> pg_pool" where
  "pool_drop p =
     abort_connection_tasks (map ie_conn (pl_idle p) @ map snd (pl_leased p) @ map (\<lambda>(d, e). se_conn e) (pl_secondary p))
       (p\<lparr>pl_eviction_cancelled := True, pl_idle := [], pl_leased := [], pl_secondary := []\<rparr>)"

section \<open>Interleaving\<close>

text \<open>
  \<open>start\<close> begins any operation, \<open>window\<close> and \<open>sql\<close> run the next window of any task, \<open>other\<close> runs
  work that leaves the cursors alone, \<open>cancelled\<close> drops a future between two windows, and \<open>interrupted\<close>
  drops one that holds the operation lock: its statements may have run in part, and the cursor it has
  taken out is forgotten.
\<close>

fun entry_point :: "pool_task \<Rightarrow> bool" where
  "entry_point (LeaseFast _ _) = True"
| "entry_point (BrowserStart _ _) = True"
| "entry_point (Lookup _ _) = True"
| "entry_point (ReleaseTake _) = True"
| "entry_point ShutCancel = True"
| "entry_point EvictIdle = True"
| "entry_point _ = False"

text \<open>
  The background loop: after a tick it starts an eviction if the pool is still there, and it ends with
  the cancellation or the pool. The result is the operations it starts.
\<close>

datatype eviction_event = EvictionCancelled | Tick bool

fun run_eviction :: "eviction_event list \<Rightarrow> pool_task list" where
  "run_eviction [] = []"
| "run_eviction (EvictionCancelled # es) = []"
| "run_eviction (Tick pool_alive # es) = (if pool_alive then EvictIdle # run_eviction es else [])"

lemma run_eviction_starts: "list_all entry_point (run_eviction es)"
  by (induction es rule: run_eviction.induct) simp_all

type_synonym 's pool_state = "pg_pool \<times> 's \<times> pool_task list"

inductive pool_step :: "(nat \<Rightarrow> 's pg_client) \<Rightarrow> 's pool_state \<Rightarrow> 's pool_state \<Rightarrow> bool"
  for clients :: "nat \<Rightarrow> 's pg_client" where
  start: "entry_point t \<Longrightarrow> pool_step clients (p, s, ts) (p, s, ts @ [t])"
| window: "i < length ts \<Longrightarrow> lease_window inp (ts ! i) p = (t', p') \<Longrightarrow>
     pool_step clients (p, s, ts) (p', s, ts[i := t'])"
| sql: "i < length ts \<Longrightarrow> sql_window clients (ts ! i) p s = Some (t', p', s') \<Longrightarrow>
     pool_step clients (p, s, ts) (p', s', ts[i := t'])"
| other: "i < length ts \<Longrightarrow> ts ! i = Holding c JOther \<Longrightarrow> pool_step clients (p, s, ts) (p, s', ts[i := Finished])"
| cancelled: "i < length ts \<Longrightarrow> pool_step clients (p, s, ts) (p, s, ts[i := Finished])"
| interrupted: "i < length ts \<Longrightarrow> ts ! i = Holding c j \<or> ts ! i = ReleaseClose c \<Longrightarrow>
     cursors = pl_cursor p \<or> cursors = (pl_cursor p)(c := None) \<Longrightarrow>
     pool_step clients (p, s, ts) (p\<lparr>pl_cursor := cursors\<rparr>, s', ts[i := Finished])"

definition pool_init :: "'s pool_state \<Rightarrow> bool" where
  "pool_init st \<longleftrightarrow> (\<exists>inp cfg p s. pool_connect inp cfg = Inr p \<and> st = (p, s, []))"


lemmas pool_defs = leased_only_def assign_lease_def take_lease_def reserve_connection_slot_def
  release_connection_slot_def abort_connection_tasks_def pool_open_def evict_idle_def
  evict_secondary_browsers_def

text \<open>Eight windows are enough.\<close>

fun settled :: "pool_task \<Rightarrow> bool" where
  "settled (Holding _ _) = True"
| "settled (Failed _) = True"
| "settled _ = False"

lemma settled_stays: "settled t \<Longrightarrow> run_windows k inp t p = (t, p)"
  by (induction k) (auto elim!: settled.elims)

fun windows_left :: "pool_task \<Rightarrow> nat" where
  "windows_left (BrowserStart _ _) = 7"
| "windows_left (LeaseFast _ _) = 6"
| "windows_left (LeaseIdle _ _) = 5"
| "windows_left (LeaseCheck _ _) = 4"
| "windows_left (LeaseReserve _ _) = 3"
| "windows_left (LeaseOpen _ _) = 2"
| "windows_left (LeaseAssign _ _ _) = 1"
| "windows_left (BrowserCached _ _) = 5"
| "windows_left (BrowserReserve _ _) = 4"
| "windows_left (BrowserOpen _ _) = 3"
| "windows_left (BrowserInsert _ _ _) = 2"
| "windows_left (BrowserDuplicate _ _) = 1"
| "windows_left (SlotUndo _) = 1"
| "windows_left (Holding _ _) = 0"
| "windows_left (Failed _) = 0"
| "windows_left _ = 9"

lemma windows_left_less:
  assumes "lease_window inp t p = (t', p')" and "windows_left t \<le> 8" and "\<not> settled t"
  shows "windows_left t' < windows_left t"
  using assms
  by (cases t) (auto simp: pool_defs Let_def split: option.splits sum.splits if_splits prod.splits)

lemma run_windows_settles:
  "windows_left t \<le> k \<Longrightarrow> k \<le> 8 \<Longrightarrow> settled (fst (run_windows k inp t p))"
proof (induction k arbitrary: t p)
  case 0
  then show ?case by (cases t) auto
next
  case (Suc k)
  show ?case
  proof (cases "settled t")
    case True
    then show ?thesis using settled_stays[OF True, of "Suc k" inp p] by simp
  next
    case False
    obtain t' p' where w: "lease_window inp t p = (t', p')" by fastforce
    then have "windows_left t' \<le> k" using windows_left_less[OF w] Suc.prems False by simp
    then show ?thesis using Suc.IH[of t' p'] Suc.prems w by simp
  qed
qed

lemma lease_returns: "\<exists>r. fst (lease_for_session inp session_id p) = Some r"
  and browser_returns: "\<exists>r. fst (browser_connection_for inp database p) = Some r"
  using run_windows_settles[of "LeaseFast session_id JOther" 8 inp p]
    run_windows_settles[of "BrowserStart database JOther" 8 inp p]
  by (auto simp: lease_for_session_def browser_connection_for_def run_lease_def split: prod.splits pool_task.splits)

section \<open>Connections and slots\<close>

text \<open>The connections the pool and the tasks own, and the slots that are reserved without one.\<close>

definition pool_conns :: "pg_pool \<Rightarrow> nat multiset" where
  "pool_conns p = mset (map ie_conn (pl_idle p)) + mset (map snd (pl_leased p))
     + mset (map (\<lambda>(d, e). se_conn e) (pl_secondary p))"

fun task_conns :: "pool_task \<Rightarrow> nat multiset" where
  "task_conns (LeaseAssign _ c _) = {#c#}"
| "task_conns (BrowserInsert _ c _) = {#c#}"
| "task_conns (ReleaseClose c) = {#c#}"
| "task_conns (ReleasePush c) = {#c#}"
| "task_conns _ = {#}"

fun task_slots :: "pool_task \<Rightarrow> nat" where
  "task_slots (LeaseOpen _ _) = 1"
| "task_slots (BrowserOpen _ _) = 1"
| "task_slots (BrowserDuplicate _ _) = 1"
| "task_slots (SlotUndo _) = 1"
| "task_slots (EvictTotal dropped) = length dropped"
| "task_slots _ = 0"

fun shutting :: "pool_task \<Rightarrow> bool" where
  "shutting ShutInner = True"
| "shutting (ShutSecondary _) = True"
| "shutting _ = False"

definition tasks_conns :: "pool_task list \<Rightarrow> nat multiset" where
  "tasks_conns ts = sum_list (map task_conns ts)"

definition tasks_slots :: "pool_task list \<Rightarrow> nat" where
  "tasks_slots ts = sum_list (map task_slots ts)"

lemma tasks_append [simp]:
  "tasks_conns (ts @ us) = tasks_conns ts + tasks_conns us" "tasks_slots (ts @ us) = tasks_slots ts + tasks_slots us"
  "tasks_conns [t] = task_conns t" "tasks_slots [t] = task_slots t" "tasks_conns [] = {#}" "tasks_slots [] = 0"
  by (simp_all add: tasks_conns_def tasks_slots_def)

text \<open>Replacing one task.\<close>

lemma tasks_update:
  assumes "i < length ts"
  shows "\<exists>mc ms. tasks_conns ts = mc + task_conns (ts ! i) \<and> tasks_conns (ts[i := t]) = mc + task_conns t
    \<and> tasks_slots ts = ms + task_slots (ts ! i) \<and> tasks_slots (ts[i := t]) = ms + task_slots t"
  unfolding tasks_conns_def tasks_slots_def
  using sum_list_task[OF assms, of task_conns] sum_list_task[OF assms, of task_slots] by blast

text \<open>The scan keeps and drops every entry once.\<close>

lemma evict_scan_parts:
  "evict_scan now timeout m es keep drops = (keep', drops') \<Longrightarrow>
   mset (map ie_conn keep') + mset drops' = mset (map ie_conn es) + mset (map ie_conn keep) + mset drops"
  by (induction es arbitrary: keep drops) (auto simp: Let_def split: if_splits)


lemma evict_scan_kept:
  assumes "evict_scan now timeout m es [] [] = (keep, drops)"
  shows "image_mset ie_conn (mset keep) \<subseteq># image_mset ie_conn (mset es)"
proof -
  have "image_mset ie_conn (mset es) = image_mset ie_conn (mset keep) + mset drops"
    using evict_scan_parts[OF assms] by simp
  then show ?thesis by simp
qed

lemma idle_last:
  assumes "es \<noteq> []"
  shows "add_mset (ie_conn (last es)) (mset (map ie_conn (butlast es))) = mset (map ie_conn es)"
proof -
  have "mset (map ie_conn es) = mset (map ie_conn (butlast es @ [last es]))" using assms by simp
  then show ?thesis by (simp del: append_butlast_last_id)
qed

text \<open>A window moves connections, drops some, and opens at most one.\<close>

lemma window_conns:
  assumes "lease_window inp t p = (t', p')"
  shows "pool_conns p' + task_conns t' \<subseteq># pool_conns p + task_conns t + mset [pl_next p..<pl_next p']
    \<and> pl_next p \<le> pl_next p'"
proof (cases t)
  case (LeaseIdle sid j)
  then show ?thesis using assms idle_last[of "pl_idle p"]
    by (auto simp: pool_conns_def split: if_splits)
next
  case (LeaseAssign sid c j)
  then show ?thesis using assms update_values[of snd sid c "pl_leased p"]
    by (auto simp: pool_conns_def assign_lease_def)
next
  case (BrowserCached target j)
  then show ?thesis using assms update_same_value[of "pl_secondary p" target _ "\<lambda>(d, e). se_conn e"]
    by (auto simp: pool_conns_def split: option.splits)
next
  case (BrowserInsert target c j)
  then show ?thesis
    using assms update_same_value[of "pl_secondary p" target _ "\<lambda>(d, e). se_conn e"]
      update_values[of "\<lambda>(d, e). se_conn e" target "\<lparr>se_since = in_now inp, se_conn = c\<rparr>" "pl_secondary p"]
    by (auto simp: pool_conns_def split: option.splits)
next
  case (ReleaseTake sid)
  then show ?thesis using assms delete_values[of "pl_leased p" sid]
    by (auto simp: pool_conns_def take_lease_def delete_absent split: option.splits)
next
  case EvictIdle
  then show ?thesis
    using assms evict_scan_kept[of "in_now inp" "pl_idle_timeout p" "pl_min_idle p" "pl_idle p"]
    by (auto simp: pool_conns_def evict_idle_def abort_connection_tasks_def split: prod.splits)
next
  case (EvictSecondary now)
  then show ?thesis
    using assms
    by (auto simp: pool_conns_def evict_secondary_browsers_def multiset_filter_subset image_mset_subseteq_mono
        split: list.splits)
qed (use assms in \<open>auto simp: pool_conns_def pool_defs Let_def split: option.splits sum.splits if_splits prod.splits pool_job.splits\<close>)

interpretation pool_owners: task_owners lease_window pool_conns task_conns pl_next
  by unfold_locales (rule window_conns)

lemma window_total:
  assumes "lease_window inp t p = (t', p')"
  shows "pl_max_size p' = pl_max_size p \<and> (pl_total p \<le> pl_max_size p \<longrightarrow> pl_total p' \<le> pl_max_size p)"
  using assms
  by (cases t) (auto simp: pool_defs Let_def split: option.splits sum.splits if_splits prod.splits pool_job.splits list.splits)


lemma size_conns [simp]:
  "size (pool_conns p) = length (pl_idle p) + length (pl_leased p) + length (pl_secondary p)"
  by (simp add: pool_conns_def)

lemma evict_scan_length:
  "evict_scan now timeout m es keep drops = (keep', drops') \<Longrightarrow>
   length keep' + length drops' = length es + length keep + length drops"
  by (induction es arbitrary: keep drops) (auto simp: Let_def split: if_splits)

text \<open>Outside a shutdown, a window never takes more room than it has reserved.\<close>

lemma window_room:
  assumes "lease_window inp t p = (t', p')" and "\<not> pl_eviction_cancelled p'" and "\<not> shutting t"
    and "size (pool_conns p) + size (task_conns t) + task_slots t + m \<le> pl_total p"
  shows "\<not> pl_eviction_cancelled p \<and> \<not> shutting t'
    \<and> size (pool_conns p') + size (task_conns t') + task_slots t' + m \<le> pl_total p'"
proof (cases t)
  case (LeaseIdle sid j)
  then show ?thesis using assms by (cases "pl_idle p" rule: rev_cases) auto
next
  case (ReleaseTake sid)
  then show ?thesis using assms length_alist_delete[of "pl_leased p" sid]
    by (auto simp: take_lease_def delete_absent split: option.splits)
next
  case EvictIdle
  then show ?thesis
    using assms evict_scan_length[of "in_now inp" "pl_idle_timeout p" "pl_min_idle p" "pl_idle p" "[]" "[]"]
    by (auto simp: evict_idle_def abort_connection_tasks_def split: prod.splits)
next
  case (EvictSecondary now)
  then show ?thesis
    using assms sum_length_filter_compl[of "\<lambda>(d, e). secondary_expired inp now p e" "pl_secondary p"]
    by (auto simp: evict_secondary_browsers_def case_prod_unfold split: list.splits dest: arg_cong[of _ _ length])
qed (use assms in \<open>auto simp: pool_defs Let_def length_alist_update split: option.splits sum.splits if_splits prod.splits pool_job.splits\<close>)

text \<open>The windows under the operation lock only touch the cursors.\<close>

lemma sql_frame:
  assumes "sql_window clients t p s = Some (t', p', s')"
  shows "pool_conns p' = pool_conns p \<and> pl_next p' = pl_next p \<and> pl_total p' = pl_total p
    \<and> pl_max_size p' = pl_max_size p \<and> pl_eviction_cancelled p' = pl_eviction_cancelled p
    \<and> pl_leased p' = pl_leased p \<and> pl_idle p' = pl_idle p \<and> pl_secondary p' = pl_secondary p
    \<and> task_conns t' = task_conns t \<and> task_slots t' = task_slots t \<and> \<not> shutting t \<and> \<not> shutting t'"
  using assms
  by (cases "(clients, t, p, s)" rule: sql_window.cases)
     (auto simp: execute_on_def fetch_on_def close_on_def release_close_def Let_def pool_conns_def
       split: option.splits sum.splits prod.splits if_splits)

section \<open>The invariant\<close>

definition pool_inv :: "'s pool_state \<Rightarrow> bool" where
  "pool_inv st =
     (case st of (p, s, ts) \<Rightarrow>
        pl_total p \<le> pl_max_size p
        \<and> pool_conns p + tasks_conns ts \<subseteq># mset [0..<pl_next p]
        \<and> (\<not> pl_eviction_cancelled p \<longrightarrow>
             list_all (\<lambda>t. \<not> shutting t) ts
             \<and> size (pool_conns p) + size (tasks_conns ts) + tasks_slots ts \<le> pl_total p))"

lemma pool_inv_drop:
  assumes "pool_inv (p, s, ts)" and "i < length ts"
  shows "pool_inv (p\<lparr>pl_cursor := cursors\<rparr>, s', ts[i := Finished])"
proof -
  let ?p = "p\<lparr>pl_cursor := cursors\<rparr>"
  obtain mc ms where up: "tasks_conns ts = mc + task_conns (ts ! i)" "tasks_conns (ts[i := Finished]) = mc + task_conns Finished"
    "tasks_slots ts = ms + task_slots (ts ! i)" "tasks_slots (ts[i := Finished]) = ms + task_slots Finished"
    using tasks_update[OF assms(2)] by blast
  have same: "pool_conns ?p = pool_conns p" by (simp add: pool_conns_def)
  have "pool_conns p + tasks_conns (ts[i := Finished]) \<subseteq># pool_conns p + tasks_conns ts"
    unfolding up by simp
  moreover have "pool_conns p + tasks_conns ts \<subseteq># mset [0..<pl_next p]"
    using assms(1) by (simp add: pool_inv_def)
  ultimately have "pool_conns ?p + tasks_conns (ts[i := Finished]) \<subseteq># mset [0..<pl_next p]"
    unfolding same by (rule subset_mset.order_trans)
  moreover have "size (tasks_conns (ts[i := Finished])) \<le> size (tasks_conns ts)" "tasks_slots (ts[i := Finished]) \<le> tasks_slots ts"
    unfolding up by simp_all
  ultimately show ?thesis using assms(1) same by (auto simp: pool_inv_def list_all_set)
qed

lemma pool_inv_step:
  assumes "pool_inv st" and "pool_step clients st st'"
  shows "pool_inv st'"
  using assms(2,1)
proof (induction rule: pool_step.induct)
  case (start t p s ts)
  have "task_conns t = {#} \<and> task_slots t = 0 \<and> \<not> shutting t" using start(1) by (cases t) auto
  then show ?case using start(2) by (auto simp: pool_inv_def)
next
  case (window i ts inp p t' p' s)
  obtain mc ms where up: "tasks_conns ts = mc + task_conns (ts ! i)" "tasks_conns (ts[i := t']) = mc + task_conns t'"
    "tasks_slots ts = ms + task_slots (ts ! i)" "tasks_slots (ts[i := t']) = ms + task_slots t'"
    using tasks_update[OF window(1)] by blast
  have conns: "pool_conns p' + tasks_conns (ts[i := t']) \<subseteq># mset [0..<pl_next p']"
    unfolding tasks_conns_def
    by (rule pool_owners.window_owned[OF _ window(1,2)]) (use window(3) in \<open>simp add: pool_inv_def tasks_conns_def\<close>)
  have room: "list_all (\<lambda>t. \<not> shutting t) (ts[i := t'])
      \<and> size (pool_conns p') + size (tasks_conns (ts[i := t'])) + tasks_slots (ts[i := t']) \<le> pl_total p'"
    if nc: "\<not> pl_eviction_cancelled p'"
  proof -
    have "\<not> shutting (ts ! i)" if "\<not> pl_eviction_cancelled p"
      using window(1,3) that by (auto simp: pool_inv_def list_all_length)
    moreover have "\<not> pl_eviction_cancelled p"
      using nc window(2) by (cases "ts ! i") (auto simp: pool_defs Let_def split: option.splits sum.splits if_splits prod.splits pool_job.splits list.splits)
    ultimately have pre: "\<not> pl_eviction_cancelled p" "\<not> shutting (ts ! i)" by simp_all
    have "size (pool_conns p) + size (task_conns (ts ! i)) + task_slots (ts ! i) + (size mc + ms) \<le> pl_total p"
      using window(3) pre up by (simp add: pool_inv_def)
    from window_room[OF window(2) nc pre(2) this] show ?thesis
      using window(3) pre up by (simp add: pool_inv_def list_all_set)
  qed
  show ?case using window_total[OF window(2)] window(3) conns room by (simp add: pool_inv_def)
next
  case (sql i ts p s t' p' s')
  obtain mc ms where up: "tasks_conns ts = mc + task_conns (ts ! i)" "tasks_conns (ts[i := t']) = mc + task_conns t'"
    "tasks_slots ts = ms + task_slots (ts ! i)" "tasks_slots (ts[i := t']) = ms + task_slots t'"
    using tasks_update[OF sql(1)] by blast
  then show ?case using sql(3) sql_frame[OF sql(2)]
    by (simp add: pool_inv_def list_all_set del: size_conns)
next
  case (other i ts c p s s')
  obtain mc ms where "tasks_conns ts = mc + task_conns (ts ! i)" "tasks_conns (ts[i := Finished]) = mc + task_conns Finished"
    "tasks_slots ts = ms + task_slots (ts ! i)" "tasks_slots (ts[i := Finished]) = ms + task_slots Finished"
    using tasks_update[OF other(1)] by blast
  then show ?case using other(2,3) by (simp add: pool_inv_def list_all_set)
next
  case (cancelled i ts p s)
  then show ?case using pool_inv_drop[of p s ts i "pl_cursor p" s] by simp
next
  case (interrupted i ts c j cursors p s s')
  then show ?case using pool_inv_drop[of p s ts i cursors s'] by simp
qed

lemma pool_inv_init: "pool_init st \<Longrightarrow> pool_inv st"
  by (auto simp: pool_init_def pool_connect_def and_then_Inr_iff pool_inv_def pool_conns_def pool_max_size_def
      DEFAULT_MAX_POOL_SIZE_def split: option.splits)

interpretation pool_sys: inv_system pool_init "pool_step clients" pool_inv
  for clients :: "nat \<Rightarrow> 's pg_client"
  by unfold_locales (auto intro: pool_inv_init pool_inv_step)


lemma pool_inv_distinct:
  assumes "pool_inv (p, s, ts)"
  shows "distinct (map ie_conn (pl_idle p) @ map snd (pl_leased p) @ map (\<lambda>(d, e). se_conn e) (pl_secondary p))"
proof -
  have "mset (map ie_conn (pl_idle p) @ map snd (pl_leased p) @ map (\<lambda>(d, e). se_conn e) (pl_secondary p))
      \<subseteq># mset [0..<pl_next p]"
    using assms subset_mset.order_trans[OF mset_subset_eq_add_left, of "pool_conns p" "tasks_conns ts"]
    by (simp add: pool_inv_def pool_conns_def add.assoc)
  then show ?thesis by (rule distinct_submset) simp
qed

lemma pool_inv_room:
  assumes "pool_inv (p, s, ts)" and "\<not> pl_eviction_cancelled p"
  shows "length (pl_idle p) + length (pl_leased p) + length (pl_secondary p)
    + size (tasks_conns ts) + tasks_slots ts \<le> pl_total p"
  using assms by (simp add: pool_inv_def)

section \<open>Schedules\<close>

text \<open>A schedule runs given moves; it only reaches reachable states.\<close>

datatype pool_move = Start pool_task | Win nat pool_input | Sql nat

definition pool_move_one :: "(nat \<Rightarrow> 's pg_client) \<Rightarrow> pool_move \<Rightarrow> 's pool_state \<Rightarrow> 's pool_state" where
  "pool_move_one clients m st =
     (case st of (p, s, ts) \<Rightarrow>
        (case m of
           Start t \<Rightarrow> if entry_point t then (p, s, ts @ [t]) else (p, s, ts)
         | Win i inp \<Rightarrow>
             if i < length ts then (case lease_window inp (ts ! i) p of (t', p') \<Rightarrow> (p', s, ts[i := t'])) else (p, s, ts)
         | Sql i \<Rightarrow>
             if i < length ts
             then (case sql_window clients (ts ! i) p s of
                     Some (t', p', s') \<Rightarrow> (p', s', ts[i := t']) | None \<Rightarrow> (p, s, ts))
             else (p, s, ts)))"

definition pool_run :: "(nat \<Rightarrow> 's pg_client) \<Rightarrow> pool_move list \<Rightarrow> 's pool_state \<Rightarrow> 's pool_state" where
  "pool_run clients ms st = fold (pool_move_one clients) ms st"

lemma pool_move_reach:
  assumes "reach pool_init (pool_step clients) st"
  shows "reach pool_init (pool_step clients) (pool_move_one clients m st)"
proof -
  have "pool_move_one clients m st = st \<or> pool_step clients st (pool_move_one clients m st)"
    by (cases st; cases m)
       (auto simp: pool_move_one_def split: prod.splits option.splits intro: pool_step.intros)
  then show ?thesis using assms by (metis reach_step)
qed

lemma pool_run_reach:
  "reach pool_init (pool_step clients) st \<Longrightarrow> reach pool_init (pool_step clients) (pool_run clients ms st)"
  unfolding pool_run_def by (induction ms arbitrary: st) (simp_all add: pool_move_reach)

definition quiet_input :: pool_input where
  "quiet_input = \<lparr>in_now = 0, in_dial = (\<lambda>_ _. Inr ()), in_busy = (\<lambda>_. False)\<rparr>"

definition local_pool :: pg_pool where
  "local_pool = \<lparr>pl_config = pg_local ''db'' ''u'', pl_tls = NoTls, pl_idle = [\<lparr>ie_since = 0, ie_conn = 0\<rparr>],
     pl_leased = [], pl_total = 1, pl_max_size = 5, pl_idle_timeout = 300000, pl_min_idle = 1, pl_secondary = [],
     pl_eviction_cancelled = False, pl_cursor = (\<lambda>_. None), pl_aborted = [], pl_next = 1\<rparr>"

lemma local_pool_connects: "pool_connect quiet_input (pg_local ''db'' ''u'') = Inr local_pool"
  by (simp add: pool_connect_def quiet_input_def pg_local_def build_tls_connector_def open_one_def
      build_driver_config_def local_pool_def pool_max_size_def pool_idle_timeout_def pool_min_idle_def
      DEFAULT_MAX_POOL_SIZE_def DEFAULT_IDLE_TIMEOUT_def DEFAULT_MIN_IDLE_CONNECTIONS_def)

lemma local_pool_reach: "reach pool_init (pool_step clients) (local_pool, s, [])"
  by (rule reach_init) (use local_pool_connects in \<open>auto simp: pool_init_def\<close>)

lemmas pool_eval = pool_run_def pool_move_one_def local_pool_def quiet_input_def pool_defs open_one_def
  build_driver_config_def pg_local_def


section \<open>The pool's promises\<close>

text \<open>
  C5. However the lock windows of the operations interleave, and wherever futures are dropped, the
  slot count never passes the maximum; and until a shutdown the connections that exist (idle,
  leased, cached for other databases, in the hands of a task) and the slots reserved for new ones
  together never pass it either.
\<close>

theorem pool_bounded:
  assumes "reach pool_init (pool_step clients) (p, s, ts)"
  shows "pl_total p \<le> pl_max_size p
    \<and> (pl_eviction_cancelled p \<or>
       size (pool_conns p) + size (tasks_conns ts) + tasks_slots ts \<le> pl_max_size p)"
  using pool_sys.reach_inv[OF assms] by (auto simp: pool_inv_def)

definition one_lease :: "pool_move list" where
  "one_lease = [Start (LeaseFast ''a'' JOther), Win 0 quiet_input, Win 0 quiet_input, Win 0 quiet_input]"

lemma one_lease_run:
  "pool_run clients one_lease (local_pool, s, [])
     = (local_pool\<lparr>pl_idle := [], pl_leased := [(''a'', 0)]\<rparr>, s, [Holding 0 JOther])"
  by (simp add: one_lease_def pool_eval)

theorem pool_bounded_witness:
  "pl_total (local_pool\<lparr>pl_idle := [], pl_leased := [(''a'', 0)]\<rparr>) \<le> 5"
proof -
  have "reach pool_init (pool_step (\<lambda>_. demo_client)) (local_pool\<lparr>pl_idle := [], pl_leased := [(''a'', 0)]\<rparr>, [], [Holding 0 JOther])"
    using pool_run_reach[OF local_pool_reach[of "\<lambda>_. demo_client" "[]"], of one_lease]
    by (simp add: one_lease_run)
  from pool_bounded[OF this] show ?thesis by (simp add: local_pool_def)
qed

text \<open>
  C6. Leases are exclusive: no two sessions are ever leased the same connection, and a leased
  connection is neither idle nor cached for another database nor about to be handed out by a task.
\<close>

theorem leases_exclusive:
  assumes "reach pool_init (pool_step clients) (p, s, ts)" and "leased_only a p = Some c"
  shows "(leased_only b p = Some c \<longrightarrow> a = b)
    \<and> c \<notin> ie_conn ` set (pl_idle p) \<and> c \<notin> (\<lambda>(d, e). se_conn e) ` set (pl_secondary p)
    \<and> c \<notin># tasks_conns ts"
proof -
  have inv: "pool_inv (p, s, ts)" by (rule pool_sys.reach_inv[OF assms(1)])
  have d: "distinct (map ie_conn (pl_idle p) @ map snd (pl_leased p) @ map (\<lambda>(d, e). se_conn e) (pl_secondary p))"
    by (rule pool_inv_distinct[OF inv])
  have c: "c \<in> snd ` set (pl_leased p)"
    using assms(2) unfolding leased_only_def by (force dest: map_of_SomeD)
  have "c \<in># pool_conns p" using c by (simp add: pool_conns_def)
  then have "c \<notin># tasks_conns ts"
    unfolding tasks_conns_def
    by (intro pool_owners.owned_once(1)[of p ts "pl_next p"]) (use inv in \<open>simp_all add: pool_inv_def tasks_conns_def\<close>)
  moreover have "leased_only b p = Some c \<longrightarrow> a = b"
    using d assms(2) map_of_two[of "pl_leased p" a c b] by (auto simp: leased_only_def)
  moreover have "c \<notin> ie_conn ` set (pl_idle p)" "c \<notin> (\<lambda>(d, e). se_conn e) ` set (pl_secondary p)"
    using d c unfolding distinct_append set_append set_map by blast+
  ultimately show ?thesis by blast
qed

theorem leases_exclusive_witness:
  "leased_only ''b'' (local_pool\<lparr>pl_idle := [], pl_leased := [(''a'', 0)]\<rparr>) \<noteq> Some 0"
proof -
  let ?p = "local_pool\<lparr>pl_idle := [], pl_leased := [(''a'', 0)]\<rparr>"
  have l: "leased_only ''a'' ?p = Some 0" by (simp add: leased_only_def)
  have "reach pool_init (pool_step (\<lambda>_. demo_client)) (?p, [], [Holding 0 JOther])"
    using pool_run_reach[OF local_pool_reach[of "\<lambda>_. demo_client" "[]"], of one_lease]
    by (simp add: one_lease_run)
  from leases_exclusive[OF this l, of "''b''"] show ?thesis by auto
qed

section \<open>What eviction keeps\<close>

definition fresh_entry :: "nat \<Rightarrow> nat \<Rightarrow> idle_entry \<Rightarrow> bool" where
  "fresh_entry now timeout e \<longleftrightarrow> now - ie_since e < timeout"

lemma evict_scan_spec:
  assumes "evict_scan now timeout m es keep drops = (keep', drops')"
  shows "\<exists>k d. keep' = keep @ k \<and> drops' = drops @ d
    \<and> filter (fresh_entry now timeout) k = filter (fresh_entry now timeout) es
    \<and> (d \<noteq> [] \<longrightarrow> m \<le> length keep')
    \<and> set d \<subseteq> ie_conn ` {e \<in> set es. \<not> fresh_entry now timeout e}"
  using assms
proof (induction es arbitrary: keep drops)
  case (Cons e es)
  show ?case
  proof (cases "fresh_entry now timeout e \<or> length keep < m")
    case True
    then have "evict_scan now timeout m es (keep @ [e]) drops = (keep', drops')"
      using Cons.prems by (auto simp: fresh_entry_def)
    from Cons.IH[OF this] obtain k d where "keep' = (keep @ [e]) @ k" "drops' = drops @ d"
      "filter (fresh_entry now timeout) k = filter (fresh_entry now timeout) es"
      "d \<noteq> [] \<longrightarrow> m \<le> length keep'" "set d \<subseteq> ie_conn ` {e \<in> set es. \<not> fresh_entry now timeout e}"
      by blast
    then show ?thesis by (intro exI[of _ "e # k"] exI[of _ d]) auto
  next
    case False
    then have "evict_scan now timeout m es keep (drops @ [ie_conn e]) = (keep', drops')"
      using Cons.prems by (auto simp: fresh_entry_def)
    from Cons.IH[OF this] obtain k d where "keep' = keep @ k" "drops' = (drops @ [ie_conn e]) @ d"
      "filter (fresh_entry now timeout) k = filter (fresh_entry now timeout) es"
      "set d \<subseteq> ie_conn ` {e \<in> set es. \<not> fresh_entry now timeout e}"
      by blast
    then show ?thesis using False by (intro exI[of _ k] exI[of _ "ie_conn e # d"]) auto
  qed
qed simp

text \<open>A second scan at the same instant drops nothing.\<close>

lemma evict_scan_again:
  "evict_scan now timeout m es keep drops = (keep', drops') \<Longrightarrow>
   \<exists>k. keep' = keep @ k \<and> (\<forall>ds. evict_scan now timeout m k keep ds = (keep', ds))"
proof (induction es arbitrary: keep drops)
  case (Cons e es)
  show ?case
  proof (cases "timeout \<le> now - ie_since e \<and> \<not> length keep < m")
    case True
    then show ?thesis using Cons by (simp add: Let_def)
  next
    case False
    then obtain k where "keep' = (keep @ [e]) @ k" "\<forall>ds. evict_scan now timeout m k (keep @ [e]) ds = (keep', ds)"
      using Cons.IH[of "keep @ [e]" drops] Cons.prems by (auto simp: Let_def)
    then show ?thesis using False by (intro exI[of _ "e # k"]) (auto simp: Let_def)
  qed
qed simp

lemma evict_scan_prefix:
  "es = es1 @ es2 \<Longrightarrow> length keep + length es1 \<le> m \<Longrightarrow>
   evict_scan now timeout m es keep drops = evict_scan now timeout m es2 (keep @ es1) drops"
  by (induction es1 arbitrary: es keep) (auto simp: Let_def)



section \<open>Races\<close>

text \<open>Two first uses of one session: both look for a lease before either assigns one.\<close>

definition twin_first_use :: "pool_move list" where
  "twin_first_use =
     [Start (LeaseFast ''a'' JOther), Start (LeaseFast ''a'' JOther), Win 0 quiet_input, Win 1 quiet_input,
      Win 0 quiet_input, Win 0 quiet_input, Win 1 quiet_input, Win 1 quiet_input, Win 1 quiet_input,
      Win 1 quiet_input, Win 1 quiet_input]"

lemma twin_first_use_run:
  "pool_run clients twin_first_use (local_pool, s, [])
     = (local_pool\<lparr>pl_idle := [], pl_leased := [(''a'', 1)], pl_total := 2, pl_next := 2\<rparr>, s,
        [Holding 0 JOther, Holding 1 JOther])"
  by (simp add: twin_first_use_def pool_eval)

lemma first_use_race_leaks_slot:
  "\<exists>p ts. reach pool_init (pool_step clients) (p, s, ts) \<and> pl_total p = 2 \<and> pool_conns p = {#1#}
     \<and> tasks_conns ts = {#} \<and> tasks_slots ts = 0 \<and> Holding 0 JOther \<in> set ts"
proof -
  have "reach pool_init (pool_step clients)
      (local_pool\<lparr>pl_idle := [], pl_leased := [(''a'', 1)], pl_total := 2, pl_next := 2\<rparr>, s,
        [Holding 0 JOther, Holding 1 JOther])"
    using pool_run_reach[OF local_pool_reach[of clients s], of twin_first_use] by (simp only: twin_first_use_run)
  then show ?thesis
    by (intro exI conjI) (assumption, simp_all add: pool_conns_def tasks_conns_def tasks_slots_def local_pool_def)
qed

text \<open>
  A statement of session \<open>a\<close> that waits for the operation lock while its session is released and
  the connection is leased to session \<open>b\<close>.
\<close>

definition bad_statement_client :: "string list pg_client" where
  "bad_statement_client = demo_client\<lparr>prepare_columns := (\<lambda>q s.
     if q = ''X'' then (Inl \<lparr>de_text = ''relation x does not exist'', de_db = None\<rparr>, s)
     else prepare_columns demo_client q s)\<rparr>"

definition before_release :: "pool_move list" where
  "before_release =
     [Start (LeaseFast ''a'' (JExecute ''X'' 2)), Win 0 quiet_input, Win 0 quiet_input, Win 0 quiet_input,
      Start (ReleaseTake ''a''), Win 1 quiet_input, Sql 1, Win 1 quiet_input,
      Start (LeaseFast ''b'' (JExecute ''B'' 2)), Win 2 quiet_input, Win 2 quiet_input, Win 2 quiet_input, Sql 2]"

definition b_cursor :: active_cursor where
  "b_cursor = \<lparr>ac_cursor_id = ''c_0'', ac_column_count = 1\<rparr>"

definition b_sent :: "string list" where
  "b_sent = [''B'', ''BEGIN; DECLARE c_0 NO SCROLL CURSOR FOR B'', ''FETCH FORWARD 2 FROM c_0'']"

definition b_pool :: pg_pool where
  "b_pool = local_pool\<lparr>pl_idle := [], pl_leased := [(''b'', 0)], pl_cursor := (\<lambda>_. None)(0 := Some b_cursor)\<rparr>"

lemma bad_open_B:
  "open_query bad_statement_client ''B'' 2 None [] =
     Some (Inr (\<lparr>eo_columns = [\<lparr>cm_name = ''a'', cm_type_oid = 23, cm_type_name = ''int4''\<rparr>],
                 eo_rows = [[Some ''1''], [None]], eo_rows_affected = Some 2, eo_cursor_id = Some ''c_0''\<rparr>,
                Some b_cursor), b_sent)"
  by (simp add: open_query_def numeral_2_eq_2 is_multi_statement_def top_level_semicolons_def lex_eval
      quote1_def quote2_def close_previous_def open_single_def open_cursor_def bad_statement_client_def
      demo_client_def fetch_sql_def nat_str.simps digit_char_def char_of_eq_iff collect_rows_def cells_of_def
      b_cursor_def b_sent_def Let_def)

lemma bad_open_X:
  "open_query bad_statement_client ''X'' 2 (Some b_cursor) s =
     Some (Inl (Driver \<lparr>de_text = ''relation x does not exist'', de_db = None\<rparr>), s @ [close_sql ''c_0''])"
  by (simp add: open_query_def numeral_2_eq_2 is_multi_statement_def top_level_semicolons_def lex_eval
      quote1_def quote2_def close_previous_def close_query_def open_single_def bad_statement_client_def
      demo_client_def b_cursor_def Let_def)

lemma before_release_run:
  "pool_run (\<lambda>_. bad_statement_client) before_release (local_pool, [], [])
     = (b_pool, b_sent, [Holding 0 (JExecute ''X'' 2), Finished, Finished])"
  by (simp add: before_release_def pool_eval execute_on_def release_close_def bad_open_B b_pool_def fun_upd_def
      cong: if_cong)

lemma stale_handle_closes_other_cursor:
  "\<exists>p p' s s' ts ts'. reach pool_init (pool_step (\<lambda>_. bad_statement_client)) (p, s, ts)
     \<and> pool_step (\<lambda>_. bad_statement_client) (p, s, ts) (p', s', ts')
     \<and> leased_only ''a'' p = None \<and> leased_only ''b'' p = Some 0 \<and> leased_only ''b'' p' = Some 0
     \<and> is_ok (fst (pool_fetch_page (\<lambda>_. bad_statement_client) ''b'' ''c_0'' 2 p s))
     \<and> fst (pool_fetch_page (\<lambda>_. bad_statement_client) ''b'' ''c_0'' 2 p' s')
         = Inl (CursorExpired ''session b has no active cursor'')"
proof -
  let ?c = "\<lambda>_ :: nat. bad_statement_client"
  let ?ts = "[Holding 0 (JExecute ''X'' 2), Finished, Finished]"
  let ?p' = "b_pool\<lparr>pl_cursor := (pl_cursor b_pool)(0 := None)\<rparr>"
  let ?e = "Driver \<lparr>de_text = ''relation x does not exist'', de_db = None\<rparr>"
  have r: "reach pool_init (pool_step ?c) (b_pool, b_sent, ?ts)"
    using pool_run_reach[OF local_pool_reach[of ?c "[]"], of before_release] by (simp only: before_release_run)
  have cur: "pl_cursor b_pool 0 = Some b_cursor" by (simp add: b_pool_def)
  have "sql_window ?c (?ts ! 0) b_pool b_sent = Some (Failed ?e, ?p', b_sent @ [close_sql ''c_0''])"
    by (simp add: execute_on_def cur bad_open_X)
  from sql[OF _ this] have st: "pool_step ?c (b_pool, b_sent, ?ts) (?p', b_sent @ [close_sql ''c_0''], ?ts[0 := Failed ?e])"
    by simp
  have l: "leased_only ''a'' b_pool = None" "leased_only ''b'' b_pool = Some 0" "leased_only ''b'' ?p' = Some 0"
    by (simp_all add: leased_only_def b_pool_def)
  have ok: "is_ok (fst (pool_fetch_page ?c ''b'' ''c_0'' 2 b_pool b_sent))"
    using l cur by (simp add: pool_fetch_page_def fetch_on_def b_cursor_def fetch_page_def bad_statement_client_def
        demo_client_def collect_rows_def)
  have gone: "fst (pool_fetch_page ?c ''b'' ''c_0'' 2 ?p' (b_sent @ [close_sql ''c_0'']))
      = Inl (CursorExpired ''session b has no active cursor'')"
    using l by (simp add: pool_fetch_page_def fetch_on_def)
  show ?thesis using r st l ok gone by blast
qed


end
