(* ===== verification/Keychain.thy ===== *)
theory Keychain
  imports HostKeys
begin

text \<open>
  Saved credentials, \<open>crates/keychain/src/lib.rs\<close>. The system keychain is the record
  \<open>keychain_api\<close> over a vault \<open>'s\<close>; an \<open>anyhow\<close> error is its message. \<open>macos\<close> selects the platform
  module, as \<open>cfg!(target_os = "macos")\<close> does.
\<close>

datatype credential_kind =
    SshPassword | SshKeyPassphrase | SftpPasswordKind | SftpKeyPassphrase | FtpPassword | PostgresPassword

fun service :: "credential_kind \<Rightarrow> string" where
  "service SshPassword = ''com.r-shell.ssh.password''"
| "service SshKeyPassphrase = ''com.r-shell.ssh.passphrase''"
| "service SftpPasswordKind = ''com.r-shell.sftp.password''"
| "service SftpKeyPassphrase = ''com.r-shell.sftp.passphrase''"
| "service FtpPassword = ''com.r-shell.ftp.password''"
| "service PostgresPassword = ''com.r-shell.postgres.password''"

fun friendly_label :: "credential_kind \<Rightarrow> string" where
  "friendly_label SshPassword = ''SSH password''"
| "friendly_label SshKeyPassphrase = ''SSH key passphrase''"
| "friendly_label SftpPasswordKind = ''SFTP password''"
| "friendly_label SftpKeyPassphrase = ''SFTP key passphrase''"
| "friendly_label FtpPassword = ''FTP password''"
| "friendly_label PostgresPassword = ''Postgres password''"

definition is_supported :: "bool \<Rightarrow> bool" where
  "is_supported macos = macos"

datatype kc_error = ItemNotFound | KcError string

fun kc_text :: "kc_error \<Rightarrow> string" where
  "kc_text ItemNotFound = ''The specified item could not be found in the keychain.''"
| "kc_text (KcError e) = e"

record item_options =
  io_service :: string
  io_account :: string
  io_label :: string
  io_comment :: string
  io_synchronized :: bool

record 's keychain_api =
  kc_get :: "string \<Rightarrow> string \<Rightarrow> 's \<Rightarrow> kc_error + string"
  kc_set :: "string \<Rightarrow> string \<Rightarrow> string \<Rightarrow> 's \<Rightarrow> (kc_error + unit) \<times> 's"
  kc_create :: "item_options \<Rightarrow> string \<Rightarrow> 's \<Rightarrow> (kc_error + unit) \<times> 's"
  kc_delete :: "string \<Rightarrow> string \<Rightarrow> 's \<Rightarrow> (kc_error + unit) \<times> 's"
  kc_search :: "string \<Rightarrow> 's \<Rightarrow> kc_error + string option list"

definition entry_name :: "credential_kind \<Rightarrow> string \<Rightarrow> string" where
  "entry_name kind account = service kind @ ''/'' @ account"

definition not_supported :: string where
  "not_supported = ''Keychain integration is only supported on macOS''"

definition item_comment :: string where
  "item_comment = ''Saved by r-shell. Remove from r-shell '' @ [CHR 0xE2, CHR 0x86, CHR 0x92] @ '' Settings ''
     @ [CHR 0xE2, CHR 0x86, CHR 0x92] @ '' Security '' @ [CHR 0xE2, CHR 0x86, CHR 0x92]
     @ '' Saved Credentials, or delete here to force a re-prompt on the next connect.''"

definition create_options :: "credential_kind \<Rightarrow> string \<Rightarrow> item_options" where
  "create_options kind account =
     \<lparr>io_service = service kind, io_account = account,
      io_label = ''r-shell: '' @ friendly_label kind @ '' ('' @ account @ '')'', io_comment = item_comment, io_synchronized = False\<rparr>"

definition save_password :: "bool \<Rightarrow> 's keychain_api \<Rightarrow> credential_kind \<Rightarrow> string \<Rightarrow> string \<Rightarrow> 's
    \<Rightarrow> (string + unit) \<times> 's" where
  "save_password macos api kind account secret s =
     (if \<not> macos then (Inl not_supported, s)
      else case kc_get api (service kind) account s of
        Inr _ \<Rightarrow>
          (case kc_set api (service kind) account secret s of
             (r, s') \<Rightarrow> (map_err (\<lambda>e. ''keychain update failed for '' @ entry_name kind account @ '': '' @ kc_text e) r, s'))
      | Inl ItemNotFound \<Rightarrow>
          (case kc_create api (create_options kind account) secret s of
             (r, s') \<Rightarrow> (map_err (\<lambda>e. ''keychain create failed for '' @ entry_name kind account @ '': '' @ kc_text e) r, s'))
      | Inl e \<Rightarrow> (Inl (''keychain pre-save probe failed for '' @ entry_name kind account @ '': '' @ kc_text e), s))"

definition load_password :: "bool \<Rightarrow> 's keychain_api \<Rightarrow> credential_kind \<Rightarrow> string \<Rightarrow> 's \<Rightarrow> string + string option" where
  "load_password macos api kind account s =
     (if \<not> macos then Inr None
      else case kc_get api (service kind) account s of
        Inr bytes \<Rightarrow>
          if valid_utf8 bytes then Inr (Some bytes)
          else Inl (''keychain item '' @ entry_name kind account @ '' is not valid UTF-8'')
      | Inl ItemNotFound \<Rightarrow> Inr None
      | Inl e \<Rightarrow> Inl (''keychain load failed for '' @ entry_name kind account @ '': '' @ kc_text e))"

definition delete_password :: "bool \<Rightarrow> 's keychain_api \<Rightarrow> credential_kind \<Rightarrow> string \<Rightarrow> 's \<Rightarrow> (string + unit) \<times> 's" where
  "delete_password macos api kind account s =
     (if \<not> macos then (Inl not_supported, s)
      else case kc_delete api (service kind) account s of
        (Inr u, s') \<Rightarrow> (Inr u, s')
      | (Inl ItemNotFound, s') \<Rightarrow> (Inr (), s')
      | (Inl e, s') \<Rightarrow> (Inl (''keychain delete failed for '' @ entry_name kind account @ '': '' @ kc_text e), s'))"

definition list_accounts :: "bool \<Rightarrow> 's keychain_api \<Rightarrow> credential_kind \<Rightarrow> 's \<Rightarrow> string + string list" where
  "list_accounts macos api kind s =
     (if \<not> macos then Inr []
      else case kc_search api (service kind) s of
        Inr results \<Rightarrow> Inr (remdups_adj (sort (List.map_filter (\<lambda>r. r) results)))
      | Inl ItemNotFound \<Rightarrow> Inr []
      | Inl e \<Rightarrow> Inl (''keychain list failed for '' @ service kind @ '': '' @ kc_text e))"

section \<open>Facts\<close>

fun kind_of_service :: "string \<Rightarrow> credential_kind option" where
  "kind_of_service s =
     find (\<lambda>k. service k = s)
       [SshPassword, SshKeyPassphrase, SftpPasswordKind, SftpKeyPassphrase, FtpPassword, PostgresPassword]"

text \<open>The service strings separate the kinds.\<close>

interpretation service_code: codec service kind_of_service Some "\<lambda>_. True"
  by unfold_locales (case_tac x; simp)

lemma service_unique: "service k = service k' \<longleftrightarrow> k = k'"
  using service_code.enc_view_inj[of k k'] by auto

lemma service_prefix: "starts_with ''com.r-shell.'' (service k)"
  by (cases k) (simp_all add: starts_with_def)

text \<open>The listed accounts are sorted, each once, and are those of the keychain.\<close>

lemma sorted_remdups_adj_distinct: "sorted xs \<Longrightarrow> distinct (remdups_adj (xs :: string list))"
  by (induction xs rule: remdups_adj.induct) auto

lemma list_accounts_set:
  assumes "kc_search api (service kind) s = Inr results"
  shows "\<exists>accounts. list_accounts True api kind s = Inr accounts \<and> sorted accounts \<and> distinct accounts
    \<and> set accounts = {a. Some a \<in> set results}"
proof -
  let ?l = "sort (List.map_filter (\<lambda>r. r) results)"
  have "set (List.map_filter (\<lambda>r. r) results) = {a. Some a \<in> set results}"
    by (induction results) (auto simp: List.map_filter_def)
  then show ?thesis
    using assms sorted_remdups_adj_distinct[of ?l] by (simp add: list_accounts_def)
qed

text \<open>
  A keychain whose writes can be read back and leave other items alone, as the documentation of the
  generic-password calls has it: then a saved credential is loaded unchanged and no other kind or
  account is touched.
\<close>

definition reads_back :: "'s keychain_api \<Rightarrow> 's \<Rightarrow> bool" where
  "reads_back api s \<longleftrightarrow>
     (\<forall>sv ac x s'. kc_set api sv ac x s = (Inr (), s') \<longrightarrow>
        (\<forall>sv' ac'. kc_get api sv' ac' s' = (if sv' = sv \<and> ac' = ac then Inr x else kc_get api sv' ac' s)))
   \<and> (\<forall>o' x s'. kc_create api o' x s = (Inr (), s') \<longrightarrow>
        (\<forall>sv' ac'. kc_get api sv' ac' s' = (if sv' = io_service o' \<and> ac' = io_account o' then Inr x else kc_get api sv' ac' s)))"

lemma save_then_load:
  assumes "reads_back api s" and "save_password True api kind account secret s = (Inr (), s')" and "valid_utf8 secret"
  shows "load_password True api kind account s' = Inr (Some secret)"
    and "(kind', account') \<noteq> (kind, account) \<Longrightarrow>
      load_password True api kind' account' s' = load_password True api kind' account' s"
proof -
  have r: "kc_get api sv ac s' = (if sv = service kind \<and> ac = account then Inr secret else kc_get api sv ac s)" for sv ac
    using assms(1,2)
    by (auto simp: save_password_def reads_back_def create_options_def map_err_def
        split: sum.splits kc_error.splits prod.splits)
  show "load_password True api kind account s' = Inr (Some secret)"
    using assms(3) by (simp add: load_password_def r)
  show "load_password True api kind' account' s' = load_password True api kind' account' s"
    if "(kind', account') \<noteq> (kind, account)"
    using that by (auto simp: load_password_def r service_unique)
qed

end
