(* ===== verification/EventBus.thy ===== *)
theory EventBus
  imports RustStr
begin

text \<open>
  The events of \<open>crates/core/src/event_bus.rs\<close> and its process-wide sender. The channel itself is a
  library; a sender is a number and the state of the \<open>OnceLock\<close> is the sender it holds.
\<close>

datatype connection_status = Connected | Disconnected | StatusError string

datatype core_event =
    PtyOutput string "64 word" string
  | ConnectionStatus string connection_status
  | TransferProgress string string "64 word" "64 word"
  | TcpdumpLine "64 word" string bool

definition EVENT_CHANNEL_CAPACITY :: nat where "EVENT_CHANNEL_CAPACITY = 1024"

text \<open>\<open>get_or_init\<close>: \<open>make\<close> creates a channel of the given capacity.\<close>

definition global_sender :: "(nat \<Rightarrow> 's \<Rightarrow> 'tx \<times> 's) \<Rightarrow> 'tx option \<Rightarrow> 's \<Rightarrow> 'tx \<times> 'tx option \<times> 's" where
  "global_sender make lock s =
     (case lock of
        Some tx \<Rightarrow> (tx, lock, s)
      | None \<Rightarrow> (case make EVENT_CHANNEL_CAPACITY s of (tx, s') \<Rightarrow> (tx, Some tx, s')))"

definition event_sender :: "(nat \<Rightarrow> 's \<Rightarrow> 'tx \<times> 's) \<Rightarrow> 'tx option \<Rightarrow> 's \<Rightarrow> 'tx option \<times> 'tx option \<times> 's" where
  "event_sender make lock s = (case global_sender make lock s of (tx, lock', s') \<Rightarrow> (Some tx, lock', s'))"

definition subscribe :: "(nat \<Rightarrow> 's \<Rightarrow> 'tx \<times> 's) \<Rightarrow> ('tx \<Rightarrow> 's \<Rightarrow> 'rx \<times> 's) \<Rightarrow> 'tx option \<Rightarrow> 's
    \<Rightarrow> 'rx \<times> 'tx option \<times> 's" where
  "subscribe make sub lock s =
     (case global_sender make lock s of (tx, lock', s') \<Rightarrow> (case sub tx s' of (rx, s'') \<Rightarrow> (rx, lock', s'')))"

text \<open>All callers share one channel, made once.\<close>

lemma global_sender_once:
  assumes "global_sender make lock s = (tx, lock', s')"
  shows "global_sender make lock' t = (tx, lock', t)"
  using assms by (auto simp: global_sender_def split: option.splits prod.splits)

text \<open>The last status published for a connection.\<close>

fun published_status :: "string \<Rightarrow> core_event list \<Rightarrow> connection_status option" where
  "published_status cid [] = None"
| "published_status cid (e # es) =
     (case published_status cid es of
        Some st \<Rightarrow> Some st
      | None \<Rightarrow> (case e of ConnectionStatus c st \<Rightarrow> if c = cid then Some st else None | _ \<Rightarrow> None))"

lemma published_status_append:
  "published_status cid (es @ [ConnectionStatus c st]) = (if c = cid then Some st else published_status cid es)"
  by (induction es) (auto split: option.splits)

end
