(* ===== verification/Manager.thy ===== *)
theory Manager
  imports Tunnel Ftp Desktop PgPool Keychain EventBus
begin

text \<open>
  The connection manager, \<open>crates/core/src/connection_manager.rs\<close>. A client behind an \<open>Arc\<close> is a
  handle into \<open>mg_clients\<close>. Operations that take the manager's locks several times are \<open>mgr_task\<close>s,
  one constructor per point between two lock windows; \<open>mgr_window\<close> runs a window, \<open>mgr_run\<close> an
  operation alone, and \<open>mgr_step\<close> interleaves many. An \<open>anyhow\<close> error is its message.

  Values that Rust drops are dropped here: \<open>drop_connection\<close> is what goes with a registration,
  \<open>drop_task\<close> what goes with a future abandoned at an \<open>await\<close>. \<open>mg_released\<close> are the client handles
  the manager has let go of, \<open>mg_tunnels_closed\<close> the cancelled tokens of tunnels.
\<close>

section \<open>Data\<close>

datatype protocol_kind = KindSsh | KindSftp | KindFtp | KindRdp | KindVnc | KindPostgres

fun kind_as_str :: "protocol_kind \<Rightarrow> string" where
  "kind_as_str KindSsh = ''SSH''"
| "kind_as_str KindSftp = ''SFTP''"
| "kind_as_str KindFtp = ''FTP''"
| "kind_as_str KindRdp = ''RDP''"
| "kind_as_str KindVnc = ''VNC''"
| "kind_as_str KindPostgres = ''POSTGRES''"

datatype managed_connection =
    ManagedSsh nat
  | ManagedSftp nat
  | ManagedFtp nat
  | ManagedDesktop protocol_kind nat
  | ManagedPostgres nat "ssh_tunnel option"

fun managed_kind :: "managed_connection \<Rightarrow> protocol_kind" where
  "managed_kind (ManagedSsh _) = KindSsh"
| "managed_kind (ManagedSftp _) = KindSftp"
| "managed_kind (ManagedFtp _) = KindFtp"
| "managed_kind (ManagedDesktop kind _) = kind"
| "managed_kind (ManagedPostgres _ _) = KindPostgres"

fun managed_handle :: "managed_connection \<Rightarrow> nat" where
  "managed_handle (ManagedSsh h) = h"
| "managed_handle (ManagedSftp h) = h"
| "managed_handle (ManagedFtp h) = h"
| "managed_handle (ManagedDesktop _ h) = h"
| "managed_handle (ManagedPostgres h _) = h"

datatype slot_kind = SlotSsh | SlotSftp | SlotFtp | SlotDesktop | SlotPostgres

fun slot_label :: "slot_kind \<Rightarrow> string" where
  "slot_label SlotSsh = ''SSH''"
| "slot_label SlotSftp = ''SFTP''"
| "slot_label SlotFtp = ''FTP''"
| "slot_label SlotDesktop = ''desktop''"
| "slot_label SlotPostgres = ''postgres''"

fun slot_matches :: "slot_kind \<Rightarrow> managed_connection \<Rightarrow> bool" where
  "slot_matches SlotSsh (ManagedSsh _) = True"
| "slot_matches SlotSftp (ManagedSftp _) = True"
| "slot_matches SlotFtp (ManagedFtp _) = True"
| "slot_matches SlotDesktop (ManagedDesktop _ _) = True"
| "slot_matches SlotPostgres (ManagedPostgres _ _) = True"
| "slot_matches _ _ = False"

text \<open>The clients behind the handles.\<close>

datatype 'p any_client =
    CSsh "'p ssh_client"
  | CSftp "'p sftp_client"
  | CFtp ftp_client
  | CRdp rdp_client
  | CVnc vnc_client
  | CPool pg_pool

record 'p manager =
  mg_connections :: "(string \<times> managed_connection) list"
  mg_ptys :: pty_registry
  mg_pending :: "(string \<times> nat) list"
  mg_host_keys :: host_key_store
  mg_events :: "core_event list"
  mg_clients :: "nat \<Rightarrow> 'p any_client option"
  mg_next :: nat
  mg_next_token :: nat
  mg_cancelled :: "nat list"
  mg_released :: "nat list"
  mg_next_tunnel :: nat
  mg_tunnels_closed :: "nat list"
  mg_next_pty :: nat
  mg_disk :: disk

definition with_host_keys :: "host_key_store \<Rightarrow> disk \<Rightarrow> 'p manager" where
  "with_host_keys host_keys d =
     \<lparr>mg_connections = [], mg_ptys = new_registry, mg_pending = [], mg_host_keys = host_keys, mg_events = [],
      mg_clients = (\<lambda>_. None), mg_next = 0, mg_next_token = 0, mg_cancelled = [], mg_released = [],
      mg_next_tunnel = 0, mg_tunnels_closed = [], mg_next_pty = 0, mg_disk = d\<rparr>"

definition new_manager :: "string option \<Rightarrow> string \<Rightarrow> (string \<Rightarrow> string \<Rightarrow> string) \<Rightarrow> (string \<Rightarrow> string option) \<Rightarrow> disk
    \<Rightarrow> 'p manager" where
  "new_manager config_dir temp_dir joined path_parent d =
     (let path = default_path config_dir temp_dir joined in with_host_keys (new_store path (path_parent path)) d)"

definition publish :: "core_event \<Rightarrow> 'p manager \<Rightarrow> 'p manager" where
  "publish e m = m\<lparr>mg_events := mg_events m @ [e]\<rparr>"

section \<open>Inspection\<close>

definition connection_kind :: "string \<Rightarrow> 'p manager \<Rightarrow> protocol_kind option" where
  "connection_kind cid m = map_option managed_kind (map_of (mg_connections m) cid)"

definition get_connection_type :: "string \<Rightarrow> 'p manager \<Rightarrow> string option" where
  "get_connection_type cid m = map_option kind_as_str (connection_kind cid m)"

definition list_connections :: "'p manager \<Rightarrow> string list" where
  "list_connections m = map fst (mg_connections m)"

definition get_connection :: "string \<Rightarrow> 'p manager \<Rightarrow> nat option" where
  "get_connection cid m = (case map_of (mg_connections m) cid of Some (ManagedSsh h) \<Rightarrow> Some h | _ \<Rightarrow> None)"

definition get_sftp_client :: "string \<Rightarrow> 'p manager \<Rightarrow> nat option" where
  "get_sftp_client cid m = (case map_of (mg_connections m) cid of Some (ManagedSftp h) \<Rightarrow> Some h | _ \<Rightarrow> None)"

definition get_ftp_client :: "string \<Rightarrow> 'p manager \<Rightarrow> nat option" where
  "get_ftp_client cid m = (case map_of (mg_connections m) cid of Some (ManagedFtp h) \<Rightarrow> Some h | _ \<Rightarrow> None)"

definition get_desktop_connection :: "string \<Rightarrow> 'p manager \<Rightarrow> nat option" where
  "get_desktop_connection cid m =
     (case map_of (mg_connections m) cid of Some (ManagedDesktop _ h) \<Rightarrow> Some h | _ \<Rightarrow> None)"

definition get_postgres_pool :: "string \<Rightarrow> 'p manager \<Rightarrow> nat option" where
  "get_postgres_pool cid m =
     (case map_of (mg_connections m) cid of Some (ManagedPostgres h _) \<Rightarrow> Some h | _ \<Rightarrow> None)"

section \<open>Opening and disconnecting\<close>

text \<open>What the outside world answers: the peers of every protocol, the keychain, the local listener;
  whether a cancelled token is selected before the connection attempt ends; whether an attempt that is
  given up has got as far as the host-key check; and which references to a client are the last.\<close>

record ('k, 'p) mgr_input =
  mi_ssh :: "('k, 'p) ssh_world"
  mi_ftp :: ftp_server
  mi_pool :: pool_input
  mi_load :: "credential_kind \<Rightarrow> string \<Rightarrow> string + string option"
  mi_listen :: "string \<Rightarrow> string + 16 word"
  mi_cancel_first :: bool
  mi_key_seen :: bool
  mi_key_filed :: bool
  mi_last_ref :: "nat \<Rightarrow> bool"

definition register_client :: "'p any_client \<Rightarrow> 'p manager \<Rightarrow> nat \<times> 'p manager" where
  "register_client c m = (mg_next m, m\<lparr>mg_clients := (mg_clients m)(mg_next m \<mapsto> c), mg_next := Suc (mg_next m)\<rparr>)"

definition resolve_pg_credentials :: "(credential_kind \<Rightarrow> string \<Rightarrow> string + string option) \<Rightarrow> pg_config
    \<Rightarrow> pg_error + pg_config" where
  "resolve_pg_credentials load config =
     (case pg_auth config of
        PgPassword _ \<Rightarrow> Inr config
      | PgKeychain account \<Rightarrow>
          (case load PostgresPassword account of
             Inl e \<Rightarrow> Inl (PgAuth (''keychain load failed for '' @ account @ '': '' @ e))
           | Inr None \<Rightarrow> Inl (PgAuth (''no keychain entry for postgres account '' @ account))
           | Inr (Some password) \<Rightarrow> Inr (config\<lparr>pg_auth := PgPassword password\<rparr>)))"

definition open_ssh :: "('k, 'p) mgr_input \<Rightarrow> ssh_config \<Rightarrow> 'p manager \<Rightarrow> (string + managed_connection) \<times> 'p manager" where
  "open_ssh inp config m =
     (case ssh_connect (mi_ssh inp) config new_ssh_client (mg_host_keys m) (mg_disk m) of
        (r, client, store, d) \<Rightarrow>
          (let m1 = m\<lparr>mg_host_keys := store, mg_disk := d\<rparr> in
           case r of
             Inl e \<Rightarrow> (Inl (display_ssh_error e), m1)
           | Inr _ \<Rightarrow> (case register_client (CSsh client) m1 of (h, m2) \<Rightarrow> (Inr (ManagedSsh h), m2))))"

definition open_sftp_client :: "('k, 'p) mgr_input \<Rightarrow> sftp_config \<Rightarrow> 'p manager
    \<Rightarrow> (string + managed_connection) \<times> 'p manager" where
  "open_sftp_client inp config m =
     (case sftp_connect (mi_ssh inp) config (mg_host_keys m) (mg_disk m) of
        (r, store, d) \<Rightarrow>
          (let m1 = m\<lparr>mg_host_keys := store, mg_disk := d\<rparr> in
           case r of
             Inl e \<Rightarrow> (Inl (display_ssh_error e), m1)
           | Inr client \<Rightarrow> (case register_client (CSftp client) m1 of (h, m2) \<Rightarrow> (Inr (ManagedSftp h), m2))))"

definition open_ftp :: "('k, 'p) mgr_input \<Rightarrow> ftp_config \<Rightarrow> 'p manager \<Rightarrow> (string + managed_connection) \<times> 'p manager" where
  "open_ftp inp config m =
     (case ftp_connect (mi_ftp inp) config of
        Inl e \<Rightarrow> (Inl (display_ftp_error e), m)
      | Inr client \<Rightarrow> (case register_client (CFtp client) m of (h, m2) \<Rightarrow> (Inr (ManagedFtp h), m2)))"

definition open_desktop :: "desktop_request \<Rightarrow> 'p manager \<Rightarrow> (string + managed_connection) \<times> 'p manager" where
  "open_desktop request m =
     (case dr_protocol request of
        RdpKind \<Rightarrow>
          (case rdp_connect (to_rdp_config request) of
             Inl e \<Rightarrow> (Inl e, m)
           | Inr client \<Rightarrow> (case register_client (CRdp client) m of (h, m2) \<Rightarrow> (Inr (ManagedDesktop KindRdp h), m2)))
      | VncKind \<Rightarrow>
          (case vnc_connect (to_vnc_config request) of
             Inl e \<Rightarrow> (Inl e, m)
           | Inr client \<Rightarrow> (case register_client (CVnc client) m of (h, m2) \<Rightarrow> (Inr (ManagedDesktop KindVnc h), m2))))"

definition open_pool :: "('k, 'p) mgr_input \<Rightarrow> pg_config \<Rightarrow> ssh_tunnel option \<Rightarrow> 'p manager
    \<Rightarrow> (string + managed_connection) \<times> 'p manager" where
  "open_pool inp config tunnel m =
     (case pool_connect (mi_pool inp) config of
        Inl e \<Rightarrow> (Inl (display_pg_error e), m)
      | Inr pool \<Rightarrow> (case register_client (CPool pool) m of (h, m2) \<Rightarrow> (Inr (ManagedPostgres h tunnel), m2)))"

text \<open>Every protocol's \<open>disconnect\<close>, and a pool's \<open>shutdown\<close>.\<close>

fun disconnect_client :: "'p any_client \<Rightarrow> (string + unit) \<times> 'p any_client" where
  "disconnect_client (CSsh c) = (case ssh_disconnect c of (r, _, c') \<Rightarrow> (map_err display_ssh_error r, CSsh c'))"
| "disconnect_client (CSftp c) = (case sftp_disconnect c of (r, _, c') \<Rightarrow> (map_err display_ssh_error r, CSftp c'))"
| "disconnect_client (CFtp c) = (case ftp_disconnect c of (r, c') \<Rightarrow> (map_err display_ftp_error r, CFtp c'))"
| "disconnect_client (CRdp c) = (case rdp_disconnect c of (r, c') \<Rightarrow> (r, CRdp c'))"
| "disconnect_client (CVnc c) = (case vnc_disconnect c of (r, c') \<Rightarrow> (r, CVnc c'))"
| "disconnect_client (CPool p) = (Inr (), CPool (pool_shutdown p))"

section \<open>Dropping\<close>

text \<open>A pool has a \<open>Drop\<close>; the other clients are only freed, with whatever session they have.\<close>

fun drop_client :: "'p any_client \<Rightarrow> 'p any_client" where
  "drop_client (CPool p) = CPool (pool_drop p)"
| "drop_client c = c"

definition release_client :: "('k, 'p) mgr_input \<Rightarrow> nat \<Rightarrow> 'p manager \<Rightarrow> 'p manager" where
  "release_client inp h m =
     m\<lparr>mg_released := mg_released m @ [h],
       mg_clients := (if mi_last_ref inp h then (mg_clients m)(h := map_option drop_client (mg_clients m h)) else mg_clients m)\<rparr>"

text \<open>The \<open>Drop\<close> of a tunnel cancels its accept loop and its forwarders.\<close>

definition drop_tunnel :: "ssh_tunnel option \<Rightarrow> 'p manager \<Rightarrow> 'p manager" where
  "drop_tunnel tunnel m =
     (case tunnel of None \<Rightarrow> m | Some t \<Rightarrow> m\<lparr>mg_tunnels_closed := mg_tunnels_closed m @ [tn_cancel t]\<rparr>)"

fun tunnel_of :: "managed_connection \<Rightarrow> ssh_tunnel option" where
  "tunnel_of (ManagedPostgres _ tunnel) = tunnel"
| "tunnel_of _ = None"

definition drop_connection :: "('k, 'p) mgr_input \<Rightarrow> managed_connection \<Rightarrow> 'p manager \<Rightarrow> 'p manager" where
  "drop_connection inp conn m = drop_tunnel (tunnel_of conn) (release_client inp (managed_handle conn) m)"

text \<open>A disconnect after the purge of the terminals. The connection is consumed: its client is
  released before the event, its tunnel after it.\<close>

definition disconnect_managed_connection :: "('k, 'p) mgr_input \<Rightarrow> string \<Rightarrow> managed_connection \<Rightarrow> 'p manager
    \<Rightarrow> (string + unit) \<times> 'p manager" where
  "disconnect_managed_connection inp cid conn m =
     (let h = managed_handle conn in
      case mg_clients m h of
        None \<Rightarrow> (Inr (), drop_connection inp conn m)
      | Some client \<Rightarrow>
          (case disconnect_client client of
             (r, client') \<Rightarrow>
               (let m1 = release_client inp h (m\<lparr>mg_clients := (mg_clients m)(h \<mapsto> client')\<rparr>) in
                case r of
                  Inl e \<Rightarrow> (Inl e, drop_tunnel (tunnel_of conn) m1)
                | Inr _ \<Rightarrow> (Inr (), drop_tunnel (tunnel_of conn) (publish (ConnectionStatus cid Disconnected) m1)))))"

section \<open>Tasks\<close>

datatype connect_request =
    RSsh ssh_config
  | RSftp sftp_config
  | RFtp ftp_config
  | RDesktop desktop_request
  | RPostgres pg_config "ssh_tunnel_ref option"

datatype cancellable = OpenSsh ssh_config | OpenPool pg_config "ssh_tunnel option"

text \<open>What follows a disconnect: a replacement is inserted, or the close returns.\<close>

datatype after_disconnect = ThenInsert managed_connection | ThenReturn

datatype mgr_task =
    Create string connect_request
  | OpenTunnel string pg_config ssh_tunnel_ref
  | RegisterPending string cancellable
  | Connecting string nat cancellable
  | ClearPending string cancellable "string + managed_connection"
  | ReplaceRemove string managed_connection
  | Purging pty_pc string managed_connection after_disconnect
  | Disconnecting string managed_connection after_disconnect
  | ReplaceInsert string managed_connection
  | ReplacePublish string
  | Close string slot_kind
  | CancelPending string
  | StartPty string "32 word" "32 word"
  | PtyCancelOld string nat "32 word" "32 word"
  | PtyCreate string nat "32 word" "32 word"
  | PtyWork pty_pc
  | TaskFailed string
  | TaskDone

definition register_pending_connection :: "string \<Rightarrow> 'p manager \<Rightarrow> nat \<times> 'p manager" where
  "register_pending_connection cid m =
     (mg_next_token m,
      m\<lparr>mg_pending := AList.update cid (mg_next_token m) (mg_pending m), mg_next_token := Suc (mg_next_token m)\<rparr>)"

definition clear_pending_connection :: "string \<Rightarrow> 'p manager \<Rightarrow> 'p manager" where
  "clear_pending_connection cid m = m\<lparr>mg_pending := AList.delete cid (mg_pending m)\<rparr>"

definition cancel_pending_connection :: "string \<Rightarrow> 'p manager \<Rightarrow> bool \<times> 'p manager" where
  "cancel_pending_connection cid m =
     (case map_of (mg_pending m) cid of
        Some token \<Rightarrow>
          (True, m\<lparr>mg_pending := AList.delete cid (mg_pending m), mg_cancelled := mg_cancelled m @ [token]\<rparr>)
      | None \<Rightarrow> (False, m))"

definition take_connection_if_kind :: "string \<Rightarrow> slot_kind \<Rightarrow> 'p manager
    \<Rightarrow> (string + managed_connection option) \<times> 'p manager" where
  "take_connection_if_kind cid expected m =
     (case map_of (mg_connections m) cid of
        None \<Rightarrow> (Inr None, m)
      | Some current \<Rightarrow>
          if \<not> slot_matches expected current
          then (Inl (''Connection '' @ quote1 # cid @ quote1 # '' is '' @ kind_as_str (managed_kind current)
                  @ '', not '' @ slot_label expected), m)
          else (Inr (Some current), m\<lparr>mg_connections := AList.delete cid (mg_connections m)\<rparr>))"

fun open_cancellable :: "('k, 'p) mgr_input \<Rightarrow> cancellable \<Rightarrow> 'p manager \<Rightarrow> (string + managed_connection) \<times> 'p manager" where
  "open_cancellable inp (OpenSsh config) m = open_ssh inp config m"
| "open_cancellable inp (OpenPool config tunnel) m = open_pool inp config tunnel m"

fun request_tunnel :: "cancellable \<Rightarrow> ssh_tunnel option" where
  "request_tunnel (OpenPool _ tunnel) = tunnel"
| "request_tunnel (OpenSsh _) = None"

text \<open>An attempt that is given up: the host-key check may have recorded a key before, or have had it
  written to the file only, which goes on when the future is dropped.\<close>

definition keep_keys :: "('k, 'p) mgr_input \<Rightarrow> 'p manager \<Rightarrow> 'p manager \<Rightarrow> 'p manager" where
  "keep_keys inp m' m =
     m\<lparr>mg_host_keys := (if mi_key_seen inp then mg_host_keys m' else mg_host_keys m),
       mg_disk := (if mi_key_seen inp \<or> mi_key_filed inp then mg_disk m' else mg_disk m)\<rparr>"

definition start_disconnect :: "string \<Rightarrow> managed_connection \<Rightarrow> after_disconnect \<Rightarrow> mgr_task" where
  "start_disconnect cid conn k =
     (case conn of ManagedSsh _ \<Rightarrow> Purging (pty_pc.Start (Purge cid)) cid conn k | _ \<Rightarrow> Disconnecting cid conn k)"

fun after_task :: "string \<Rightarrow> after_disconnect \<Rightarrow> mgr_task" where
  "after_task cid (ThenInsert conn) = ReplaceInsert cid conn"
| "after_task cid ThenReturn = TaskDone"

fun drop_after :: "('k, 'p) mgr_input \<Rightarrow> after_disconnect \<Rightarrow> 'p manager \<Rightarrow> 'p manager" where
  "drop_after inp (ThenInsert conn) m = drop_connection inp conn m"
| "drop_after inp ThenReturn m = m"

definition after_open :: "string \<Rightarrow> (string + managed_connection) \<times> 'p manager \<Rightarrow> mgr_task \<times> 'p manager" where
  "after_open cid r = (case r of (Inl e, m) \<Rightarrow> (TaskFailed e, m) | (Inr conn, m) \<Rightarrow> (ReplaceRemove cid conn, m))"

definition tunnel_source_missing :: "string \<Rightarrow> string" where
  "tunnel_source_missing cid =
     display_pg_error (TunnelSourceMissing (''ssh connection '' @ quote1 # cid @ quote1
       # '' is not registered or has been closed''))"

fun mgr_window :: "('k, 'p) mgr_input \<Rightarrow> mgr_task \<Rightarrow> 'p manager \<Rightarrow> mgr_task \<times> 'p manager" where
  "mgr_window inp (Create cid (RSsh config)) m = (RegisterPending cid (OpenSsh config), m)"
| "mgr_window inp (Create cid (RSftp config)) m = after_open cid (open_sftp_client inp config m)"
| "mgr_window inp (Create cid (RFtp config)) m = after_open cid (open_ftp inp config m)"
| "mgr_window inp (Create cid (RDesktop request)) m = after_open cid (open_desktop request m)"
| "mgr_window inp (Create cid (RPostgres config tunnel)) m =
     (case resolve_pg_credentials (mi_load inp) config of
        Inl e \<Rightarrow> (TaskFailed (display_pg_error e), m)
      | Inr config' \<Rightarrow>
          (case tunnel of
             None \<Rightarrow> (RegisterPending cid (OpenPool config' None), m)
           | Some t \<Rightarrow> (OpenTunnel cid config' t, m)))"
| "mgr_window inp (OpenTunnel cid config t) m =
     (case get_connection (tr_ssh_connection_id t) m of
        None \<Rightarrow> (TaskFailed (tunnel_source_missing (tr_ssh_connection_id t)), m)
      | Some client \<Rightarrow>
          (case tunnel_open (mi_listen inp) (mg_next_tunnel m) client (tr_remote_host t) (tr_remote_port t) of
             Inl e \<Rightarrow> (TaskFailed (display_pg_error (PgTunnel e)), m)
           | Inr opened \<Rightarrow>
               (RegisterPending cid (OpenPool (config\<lparr>pg_host := ''127.0.0.1'', pg_port := tn_local_port opened\<rparr>)
                  (Some opened)), m\<lparr>mg_next_tunnel := Suc (mg_next_tunnel m)\<rparr>)))"
| "mgr_window inp (RegisterPending cid req) m =
     (case register_pending_connection cid m of (token, m') \<Rightarrow> (Connecting cid token req, m'))"
| "mgr_window inp (Connecting cid token req) m =
     (if mi_cancel_first inp \<and> token \<in> set (mg_cancelled m)
      then (ClearPending cid req (Inl ''Connection cancelled by user''), keep_keys inp (snd (open_cancellable inp req m)) m)
      else case open_cancellable inp req m of (r, m') \<Rightarrow> (ClearPending cid req r, m'))"
| "mgr_window inp (ClearPending cid req r) m =
     (case r of
        Inl e \<Rightarrow> (TaskFailed e, drop_tunnel (request_tunnel req) (clear_pending_connection cid m))
      | Inr conn \<Rightarrow> (ReplaceRemove cid conn, clear_pending_connection cid m))"
| "mgr_window inp (ReplaceRemove cid conn) m =
     (case map_of (mg_connections m) cid of
        None \<Rightarrow> (ReplaceInsert cid conn, m)
      | Some previous \<Rightarrow>
          (start_disconnect cid previous (ThenInsert conn), m\<lparr>mg_connections := AList.delete cid (mg_connections m)\<rparr>))"
| "mgr_window inp (Purging pc cid conn k) m =
     (case window pc (mg_ptys m) of
        (pc', r) \<Rightarrow>
          ((case pc' of Returned _ \<Rightarrow> Disconnecting cid conn k | _ \<Rightarrow> Purging pc' cid conn k), m\<lparr>mg_ptys := r\<rparr>))"
| "mgr_window inp (Disconnecting cid conn k) m =
     (case disconnect_managed_connection inp cid conn m of
        (Inl e, m') \<Rightarrow> (TaskFailed e, drop_after inp k m') | (Inr _, m') \<Rightarrow> (after_task cid k, m'))"
| "mgr_window inp (ReplaceInsert cid conn) m =
     (ReplacePublish cid,
      (case map_of (mg_connections m) cid of None \<Rightarrow> id | Some old \<Rightarrow> drop_connection inp old)
        (m\<lparr>mg_connections := AList.update cid conn (mg_connections m)\<rparr>))"
| "mgr_window inp (ReplacePublish cid) m = (TaskDone, publish (ConnectionStatus cid Connected) m)"
| "mgr_window inp (Close cid expected) m =
     (case take_connection_if_kind cid expected m of
        (Inl e, m') \<Rightarrow> (TaskFailed e, m')
      | (Inr None, m') \<Rightarrow> (TaskDone, m')
      | (Inr (Some conn), m') \<Rightarrow> (start_disconnect cid conn ThenReturn, m'))"
| "mgr_window inp (CancelPending cid) m = (TaskDone, snd (cancel_pending_connection cid m))"
| "mgr_window inp (StartPty cid cols rows) m =
     (case get_connection cid m of
        None \<Rightarrow> (TaskFailed ''Connection not found'', m)
      | Some h \<Rightarrow> (PtyCancelOld cid h cols rows, m))"
| "mgr_window inp (PtyCancelOld cid h cols rows) m =
     (PtyCreate cid h cols rows, m\<lparr>mg_ptys := cancel_existing cid (mg_ptys m)\<rparr>)"
| "mgr_window inp (PtyCreate cid h cols rows) m =
     (case mg_clients m h of
        Some (CSsh client) \<Rightarrow>
          (case create_pty_session client cols rows \<lparr>pty_channels = mg_next_pty m, pty_cancel = mg_next_pty m\<rparr> of
             Inl e \<Rightarrow> (TaskFailed (display_ssh_error e), m)
           | Inr pty \<Rightarrow> (PtyWork (pty_pc.Start (Insert cid pty)), m\<lparr>mg_next_pty := Suc (mg_next_pty m)\<rparr>))
      | _ \<Rightarrow> (TaskFailed ''Connection not found'', m))"
| "mgr_window inp (PtyWork pc) m =
     (case window pc (mg_ptys m) of (pc', r) \<Rightarrow> (PtyWork pc', m\<lparr>mg_ptys := r\<rparr>))"
| "mgr_window inp t m = (t, m)"

text \<open>A future dropped at an \<open>await\<close>: what the task holds goes with it.\<close>

fun drop_task :: "('k, 'p) mgr_input \<Rightarrow> mgr_task \<Rightarrow> 'p manager \<Rightarrow> 'p manager" where
  "drop_task inp (Create cid (RSftp config)) m = keep_keys inp (snd (open_sftp_client inp config m)) m"
| "drop_task inp (RegisterPending cid req) m = drop_tunnel (request_tunnel req) m"
| "drop_task inp (Connecting cid token req) m =
     drop_tunnel (request_tunnel req) (keep_keys inp (snd (open_cancellable inp req m)) m)"
| "drop_task inp (ClearPending cid req (Inl e)) m = drop_tunnel (request_tunnel req) m"
| "drop_task inp (ClearPending cid req (Inr conn)) m = drop_connection inp conn m"
| "drop_task inp (ReplaceRemove cid conn) m = drop_connection inp conn m"
| "drop_task inp (Purging pc cid conn k) m = drop_after inp k (drop_connection inp conn m)"
| "drop_task inp (Disconnecting cid conn k) m = drop_after inp k (drop_connection inp conn m)"
| "drop_task inp (ReplaceInsert cid conn) m = drop_connection inp conn m"
| "drop_task inp t m = m"

section \<open>Operations run alone\<close>

fun mgr_run :: "nat \<Rightarrow> ('k, 'p) mgr_input \<Rightarrow> mgr_task \<Rightarrow> 'p manager \<Rightarrow> mgr_task \<times> 'p manager" where
  "mgr_run 0 inp t m = (t, m)"
| "mgr_run (Suc n) inp t m = (case mgr_window inp t m of (t', m') \<Rightarrow> mgr_run n inp t' m')"

definition mgr_result :: "mgr_task \<times> 'p manager \<Rightarrow> (string + unit) option \<times> 'p manager" where
  "mgr_result r = (case r of
     (TaskDone, m) \<Rightarrow> (Some (Inr ()), m)
   | (PtyWork (Returned _), m) \<Rightarrow> (Some (Inr ()), m)
   | (TaskFailed e, m) \<Rightarrow> (Some (Inl e), m)
   | (_, m) \<Rightarrow> (None, m))"

text \<open>An operation has at most eleven windows (\<open>operation_returns\<close>).\<close>

definition create_any :: "('k, 'p) mgr_input \<Rightarrow> string \<Rightarrow> connect_request \<Rightarrow> 'p manager \<Rightarrow> (string + unit) option \<times> 'p manager" where
  "create_any inp cid request m = mgr_result (mgr_run 11 inp (Create cid request) m)"

definition create_connection where "create_connection inp cid config = create_any inp cid (RSsh config)"
definition create_sftp_connection where "create_sftp_connection inp cid config = create_any inp cid (RSftp config)"
definition create_ftp_connection where "create_ftp_connection inp cid config = create_any inp cid (RFtp config)"
definition create_postgres_connection where
  "create_postgres_connection inp cid config tunnel = create_any inp cid (RPostgres config tunnel)"

definition close_any :: "('k, 'p) mgr_input \<Rightarrow> string \<Rightarrow> slot_kind \<Rightarrow> 'p manager \<Rightarrow> (string + unit) option \<times> 'p manager" where
  "close_any inp cid expected m = mgr_result (mgr_run 11 inp (Close cid expected) m)"

definition close_connection where "close_connection inp cid = close_any inp cid SlotSsh"
definition close_sftp_connection where "close_sftp_connection inp cid = close_any inp cid SlotSftp"
definition close_ftp_connection where "close_ftp_connection inp cid = close_any inp cid SlotFtp"
definition close_desktop_connection where "close_desktop_connection inp cid = close_any inp cid SlotDesktop"
definition close_postgres_connection where "close_postgres_connection inp cid = close_any inp cid SlotPostgres"


definition client_desktop_size :: "nat \<Rightarrow> 'p manager \<Rightarrow> 16 word \<times> 16 word" where
  "client_desktop_size h m =
     (case mg_clients m h of
        Some (CRdp c) \<Rightarrow> rdp_desktop_size c | Some (CVnc c) \<Rightarrow> vnc_desktop_size c | _ \<Rightarrow> (0, 0))"

text \<open>The size is read from the client before it is registered, and does not change until then.\<close>

definition create_desktop_connection :: "('k, 'p) mgr_input \<Rightarrow> string \<Rightarrow> desktop_request \<Rightarrow> 'p manager
    \<Rightarrow> (string + 16 word \<times> 16 word) option \<times> 'p manager" where
  "create_desktop_connection inp cid request m =
     (case create_any inp cid (RDesktop request) m of
        (Some (Inr _), m') \<Rightarrow>
          (map_option (\<lambda>h. Inr (client_desktop_size h m')) (get_desktop_connection cid m'), m')
      | (Some (Inl e), m') \<Rightarrow> (Some (Inl e), m')
      | (None, m') \<Rightarrow> (None, m'))"

definition client_start_frame_loop :: "'p any_client \<Rightarrow> string + unit" where
  "client_start_frame_loop client =
     (case client of
        CRdp c \<Rightarrow> rdp_start_frame_loop c | CVnc c \<Rightarrow> vnc_start_frame_loop c | _ \<Rightarrow> Inr ())"

definition start_desktop_stream :: "string \<Rightarrow> 'p manager \<Rightarrow> string + unit" where
  "start_desktop_stream cid m =
     and_then (ok_or (''Desktop connection not found: '' @ cid) (get_desktop_connection cid m))
       (\<lambda>h. case mg_clients m h of Some client \<Rightarrow> client_start_frame_loop client | None \<Rightarrow> Inr ())"

section \<open>Terminals\<close>

definition start_pty_connection :: "('k, 'p) mgr_input \<Rightarrow> string \<Rightarrow> 32 word \<Rightarrow> 32 word \<Rightarrow> 'p manager
    \<Rightarrow> (string + 64 word) option \<times> 'p manager" where
  "start_pty_connection inp cid cols rows m =
     (case mgr_run 11 inp (StartPty cid cols rows) m of
        (PtyWork (Returned (Some g)), m') \<Rightarrow> (Some (Inr g), m')
      | (TaskFailed e, m') \<Rightarrow> (Some (Inl e), m')
      | (_, m') \<Rightarrow> (None, m'))"

definition close_pty_connection :: "('k, 'p) mgr_input \<Rightarrow> string \<Rightarrow> 64 word option \<Rightarrow> 'p manager
    \<Rightarrow> (string + unit) option \<times> 'p manager" where
  "close_pty_connection inp cid expected_gen m =
     mgr_result (mgr_run 11 inp (PtyWork (pty_pc.Start (Remove cid expected_gen))) m)"

text \<open>A send on a session's channel: whether the receiver is still there is \<open>open_end\<close>.\<close>

definition write_to_pty :: "(pty_session \<Rightarrow> bool) \<Rightarrow> string \<Rightarrow> 'p manager \<Rightarrow> string + pty_session" where
  "write_to_pty open_end cid m =
     (case get_session cid (mg_ptys m) of
        None \<Rightarrow> Inl ''PTY connection not found''
      | Some pty \<Rightarrow> if open_end pty then Inr pty else Inl ''PTY channel closed'')"

definition resize_pty :: "(pty_session \<Rightarrow> bool) \<Rightarrow> string \<Rightarrow> 'p manager \<Rightarrow> string + pty_session" where
  "resize_pty open_end cid m =
     (case get_session cid (mg_ptys m) of
        None \<Rightarrow> Inl ''PTY connection not found''
      | Some pty \<Rightarrow> if open_end pty then Inr pty else Inl ''PTY resize channel closed'')"

definition get_pty_session :: "string \<Rightarrow> 'p manager \<Rightarrow> pty_session option" where
  "get_pty_session cid m = get_session cid (mg_ptys m)"

definition get_pty_cancel_token :: "string \<Rightarrow> 'p manager \<Rightarrow> nat option" where
  "get_pty_cancel_token cid m = cancel_token cid (mg_ptys m)"

text \<open>The chunks already queued, up to the size: what is read and what stays queued.\<close>

fun drain_burst :: "nat \<Rightarrow> string \<Rightarrow> string list \<Rightarrow> string \<times> string list" where
  "drain_burst max_bytes out [] = (out, [])"
| "drain_burst max_bytes out (extra # queue) =
     (if length out < max_bytes then drain_burst max_bytes (out @ extra) queue else (out, extra # queue))"

definition read_pty_burst :: "string \<Rightarrow> nat \<Rightarrow> (pty_session \<Rightarrow> string list) \<Rightarrow> 'p manager
    \<Rightarrow> string + string \<times> string list" where
  "read_pty_burst cid max_bytes queue_of m =
     (case get_session cid (mg_ptys m) of
        None \<Rightarrow> Inl ''PTY connection not found''
      | Some pty \<Rightarrow>
          (case queue_of pty of
             [] \<Rightarrow> Inl ''PTY connection closed''
           | data # queue \<Rightarrow> Inr (drain_burst max_bytes data queue)))"

lemma drain_burst_bytes:
  "drain_burst n out queue = (out', rest) \<Longrightarrow>
   out' @ concat rest = out @ concat queue \<and> (\<exists>taken. queue = taken @ rest) \<and> (rest \<noteq> [] \<longrightarrow> n \<le> length out')"
proof (induction n out queue rule: drain_burst.induct)
  case (2 n out extra queue)
  show ?case
  proof (cases "length out < n")
    case True
    then obtain taken where "queue = taken @ rest" "out' @ concat rest = (out @ extra) @ concat queue"
      "rest \<noteq> [] \<longrightarrow> n \<le> length out'"
      using 2 by auto
    then show ?thesis by (auto intro: exI[of _ "extra # taken"])
  next
    case False
    then show ?thesis using 2(2) by auto
  qed
qed auto

section \<open>Interleaving\<close>

fun mgr_entry :: "mgr_task \<Rightarrow> bool" where
  "mgr_entry (Create _ _) = True"
| "mgr_entry (Close _ _) = True"
| "mgr_entry (CancelPending _) = True"
| "mgr_entry (StartPty _ _ _) = True"
| "mgr_entry (PtyWork (pty_pc.Start (Remove _ _))) = True"
| "mgr_entry _ = False"

type_synonym 'p mgr_state = "'p manager \<times> mgr_task list"

text \<open>
  What an application does with a client it has looked up, while the manager works: the calls that
  change the client. A pool runs any window of its own tasks but the first of a shutdown; the work
  under the operation lock only changes cursors (\<open>sql_window_cursors\<close>). Connecting and disconnecting
  are left to the manager.
\<close>

inductive client_use :: "'p any_client \<Rightarrow> 'p any_client \<Rightarrow> bool" where
  use_ssh: "sftp_session c = (r, c') \<Longrightarrow> client_use (CSsh c) (CSsh c')"
| use_sftp: "sftp s = (r, s') \<Longrightarrow> client_use (CSftp s) (CSftp s')"
| use_rdp: "rdp_resize width height d = (e, d') \<Longrightarrow> client_use (CRdp d) (CRdp d')"
| use_vnc: "vnc_resize width height v = (e, v') \<Longrightarrow> client_use (CVnc v) (CVnc v')"
| use_pool: "t \<noteq> ShutCancel \<Longrightarrow> lease_window inp t p = (t', p') \<Longrightarrow> client_use (CPool p) (CPool p')"
| use_cursors: "client_use (CPool p) (CPool (p\<lparr>pl_cursor := cursors\<rparr>))"

lemma sql_window_cursors:
  assumes "sql_window clients t p s = Some (t', p', s')"
  shows "client_use (CPool p) (CPool p')"
proof -
  have "p' = p\<lparr>pl_cursor := pl_cursor p'\<rparr>"
    using assms
    by (cases "(clients, t, p, s)" rule: sql_window.cases)
       (auto simp: execute_on_def close_on_def release_close_def Let_def
          split: option.splits sum.splits prod.splits if_splits)
  then show ?thesis using use_cursors[of p "pl_cursor p'"] by simp
qed

text \<open>\<open>env\<close> is the set of answers the outside world may give. The store of host keys is shared with
  the application, which may make it forget a host.\<close>

inductive mgr_step :: "('k, 'p) mgr_input set \<Rightarrow> 'p mgr_state \<Rightarrow> 'p mgr_state \<Rightarrow> bool"
  for env :: "('k, 'p) mgr_input set" where
  start_op: "mgr_entry t \<Longrightarrow> mgr_step env (m, ts) (m, ts @ [t])"
| run_window: "i < length ts \<Longrightarrow> inp \<in> env \<Longrightarrow> mgr_window inp (ts ! i) m = (t', m') \<Longrightarrow> mgr_step env (m, ts) (m', ts[i := t'])"
| drop_future: "i < length ts \<Longrightarrow> inp \<in> env \<Longrightarrow> mgr_step env (m, ts) (drop_task inp (ts ! i) m, ts[i := TaskDone])"
| use_client: "mg_clients m h = Some c \<Longrightarrow> client_use c c' \<Longrightarrow>
     mgr_step env (m, ts) (m\<lparr>mg_clients := (mg_clients m)(h \<mapsto> c')\<rparr>, ts)"
| forget_host: "forget host port (mg_host_keys m) (mg_disk m) = (r, store', d') \<Longrightarrow>
     mgr_step env (m, ts) (m\<lparr>mg_host_keys := store', mg_disk := d'\<rparr>, ts)"

definition mgr_init :: "'p mgr_state \<Rightarrow> bool" where
  "mgr_init st \<longleftrightarrow> (\<exists>store d. st = (with_host_keys store d, []))"

end
