(* ===== verification/ManagerInv.thy ===== *)
theory ManagerInv
  imports Manager
begin

text \<open>
  What the connection manager keeps under any interleaving: every registered client is live and of
  the protocol its tag says, and every client and tunnel opened is held once or has been let go of.
\<close>

section \<open>Live clients\<close>

fun client_live :: "'p any_client \<Rightarrow> bool" where
  "client_live (CSsh c) = (sc_session c \<noteq> None)"
| "client_live (CSftp c) = (sfc_session c \<noteq> None)"
| "client_live (CFtp c) = (ftp_kind c \<noteq> None)"
| "client_live (CRdp c) = rdp_connected c"
| "client_live (CVnc c) = vnc_connected c"
| "client_live (CPool p) = (\<not> pl_eviction_cancelled p)"

fun tag_matches :: "managed_connection \<Rightarrow> 'p any_client \<Rightarrow> bool" where
  "tag_matches (ManagedSsh _) (CSsh _) = True"
| "tag_matches (ManagedSftp _) (CSftp _) = True"
| "tag_matches (ManagedFtp _) (CFtp _) = True"
| "tag_matches (ManagedDesktop KindRdp _) (CRdp _) = True"
| "tag_matches (ManagedDesktop KindVnc _) (CVnc _) = True"
| "tag_matches (ManagedPostgres _ _) (CPool _) = True"
| "tag_matches _ _ = False"

definition conn_ok :: "'p manager \<Rightarrow> managed_connection \<Rightarrow> bool" where
  "conn_ok m conn \<longleftrightarrow> (\<exists>c. mg_clients m (managed_handle conn) = Some c \<and> client_live c \<and> tag_matches conn c)"

text \<open>A connection attempt registers nothing, or one live client.\<close>

definition opens :: "'p manager \<Rightarrow> string + managed_connection \<Rightarrow> 'p manager \<Rightarrow> bool" where
  "opens m r m' \<longleftrightarrow>
     mg_connections m' = mg_connections m \<and> mg_events m' = mg_events m \<and> mg_pending m' = mg_pending m
     \<and> mg_cancelled m' = mg_cancelled m \<and> mg_released m' = mg_released m \<and> mg_ptys m' = mg_ptys m
     \<and> mg_next_tunnel m' = mg_next_tunnel m \<and> mg_tunnels_closed m' = mg_tunnels_closed m
     \<and> (case r of
          Inl e \<Rightarrow> mg_next m' = mg_next m \<and> mg_clients m' = mg_clients m
        | Inr conn \<Rightarrow> managed_handle conn = mg_next m \<and> mg_next m' = Suc (mg_next m)
            \<and> (\<exists>c. mg_clients m' = (mg_clients m)(mg_next m \<mapsto> c) \<and> client_live c \<and> tag_matches conn c))"

lemma ssh_connect_live:
  "ssh_connect w config c store d = (Inr u, c', store', d') \<Longrightarrow> sc_session c' \<noteq> None"
  by (auto simp: ssh_connect_def split: sum.splits prod.splits)

lemma sftp_connect_live:
  "sftp_connect w config store d = (Inr c, store', d') \<Longrightarrow> sfc_session c \<noteq> None"
  by (auto simp: sftp_connect_def and_then_Inr_iff split: sum.splits prod.splits)

lemma ftp_connect_live: "ftp_connect srv config = Inr c \<Longrightarrow> ftp_kind c \<noteq> None"
  by (cases "ftp_credentials config") (auto simp: ftp_connect_def and_then_Inr_iff split: option.splits)

lemma pool_connect_live: "pool_connect inp cfg = Inr p \<Longrightarrow> \<not> pl_eviction_cancelled p"
  by (auto simp: pool_connect_def and_then_Inr_iff)

lemma open_ssh_opens: "open_ssh inp config m = (r, m') \<Longrightarrow> opens m r m'"
  by (auto simp: open_ssh_def opens_def register_client_def Let_def dest!: ssh_connect_live
      split: sum.splits prod.splits)

lemma open_sftp_opens: "open_sftp_client inp config m = (r, m') \<Longrightarrow> opens m r m'"
  by (auto simp: open_sftp_client_def opens_def register_client_def Let_def dest!: sftp_connect_live
      split: sum.splits prod.splits)

lemma open_ftp_opens: "open_ftp inp config m = (r, m') \<Longrightarrow> opens m r m'"
  by (auto simp: open_ftp_def opens_def register_client_def dest!: ftp_connect_live split: sum.splits)

lemma open_desktop_opens: "open_desktop request m = (r, m') \<Longrightarrow> opens m r m'"
  using desktop_connect_fails(1)[of "to_rdp_config request"] desktop_connect_fails(2)[of "to_vnc_config request"]
  by (auto simp: open_desktop_def opens_def split: desktop_kind.splits)

lemma open_pool_opens: "open_pool inp config tunnel m = (r, m') \<Longrightarrow> opens m r m'"
  by (auto simp: open_pool_def opens_def register_client_def dest!: pool_connect_live split: sum.splits)

lemma open_cancellable_opens: "open_cancellable inp req m = (r, m') \<Longrightarrow> opens m r m'"
  by (cases req) (auto intro: open_ssh_opens open_pool_opens)

lemma opens_frame:
  assumes "opens m r m'"
  shows "mg_connections m' = mg_connections m" "mg_events m' = mg_events m" "mg_released m' = mg_released m"
    "mg_ptys m' = mg_ptys m" "mg_next_tunnel m' = mg_next_tunnel m" "mg_tunnels_closed m' = mg_tunnels_closed m"
  using assms by (simp_all add: opens_def)

lemma opens_error: "opens m (Inl e) m' \<Longrightarrow> mg_next m' = mg_next m \<and> mg_clients m' = mg_clients m"
  by (simp add: opens_def)

lemma opens_ok:
  assumes "opens m (Inr conn) m'"
  shows "managed_handle conn = mg_next m" "mg_next m' = Suc (mg_next m)" "conn_ok m' conn"
    "h < mg_next m \<Longrightarrow> mg_clients m' h = mg_clients m h"
  using assms by (auto simp: opens_def conn_ok_def)

text \<open>Only a pool has a tunnel, the one that was opened for it.\<close>

lemma open_tunnels:
  "open_sftp_client inp c1 m = (Inr conn, m') \<Longrightarrow> tunnel_of conn = None"
  "open_ftp inp c2 m = (Inr conn, m') \<Longrightarrow> tunnel_of conn = None"
  "open_desktop req m = (Inr conn, m') \<Longrightarrow> tunnel_of conn = None"
  "open_cancellable inp creq m = (Inr conn, m') \<Longrightarrow> tunnel_of conn = request_tunnel creq"
  by (cases creq; auto simp: open_ssh_def open_pool_def open_sftp_client_def open_ftp_def open_desktop_def
      register_client_def Let_def split: sum.splits prod.splits desktop_kind.splits)+

section \<open>Disconnecting\<close>

text \<open>From the contract of the protocol clients: a disconnect never fails.\<close>

lemma disconnect_client_ok: "fst (disconnect_client c) = Inr ()"
proof (cases c)
  case (CSsh x)
  then show ?thesis using ssh_protocol.disconnect_ok[of x] by (auto split: prod.splits)
next
  case (CSftp x)
  then show ?thesis using sftp_protocol.disconnect_ok[of x] by (auto split: prod.splits)
next
  case (CFtp x)
  then show ?thesis using ftp_protocol.disconnect_ok[of x] by (auto split: prod.splits)
next
  case (CRdp x)
  then show ?thesis using rdp_protocol.disconnect_ok[of x] by (auto split: prod.splits)
next
  case (CVnc x)
  then show ?thesis using vnc_protocol.disconnect_ok[of x] by (auto split: prod.splits)
qed simp

lemma disconnect_client_res: "disconnect_client c = (r, c') \<Longrightarrow> r = Inr ()"
  using disconnect_client_ok[of c] by simp

section \<open>Dropping\<close>

fun tunnel_token :: "ssh_tunnel option \<Rightarrow> nat list" where
  "tunnel_token None = []"
| "tunnel_token (Some t) = [tn_cancel t]"

lemma drop_tunnel_closed [simp]:
  "mg_tunnels_closed (drop_tunnel t m) = mg_tunnels_closed m @ tunnel_token t"
  by (simp add: drop_tunnel_def split: option.splits)

lemma drop_tunnel_frame [simp]:
  "mg_connections (drop_tunnel t m) = mg_connections m" "mg_ptys (drop_tunnel t m) = mg_ptys m"
  "mg_events (drop_tunnel t m) = mg_events m" "mg_clients (drop_tunnel t m) = mg_clients m"
  "mg_next (drop_tunnel t m) = mg_next m" "mg_released (drop_tunnel t m) = mg_released m"
  "mg_next_tunnel (drop_tunnel t m) = mg_next_tunnel m"
  "mg_host_keys (drop_tunnel t m) = mg_host_keys m" "mg_disk (drop_tunnel t m) = mg_disk m"
  by (simp_all add: drop_tunnel_def split: option.splits)

lemma release_client_frame [simp]:
  "mg_connections (release_client inp h m) = mg_connections m" "mg_ptys (release_client inp h m) = mg_ptys m"
  "mg_events (release_client inp h m) = mg_events m" "mg_next (release_client inp h m) = mg_next m"
  "mg_released (release_client inp h m) = mg_released m @ [h]"
  "mg_next_tunnel (release_client inp h m) = mg_next_tunnel m"
  "mg_tunnels_closed (release_client inp h m) = mg_tunnels_closed m"
  "mg_host_keys (release_client inp h m) = mg_host_keys m" "mg_disk (release_client inp h m) = mg_disk m"
  "h' \<noteq> h \<Longrightarrow> mg_clients (release_client inp h m) h' = mg_clients m h'"
  by (simp_all add: release_client_def)

lemma keep_keys_frame [simp]:
  "mg_connections (keep_keys inp m' m) = mg_connections m" "mg_ptys (keep_keys inp m' m) = mg_ptys m"
  "mg_events (keep_keys inp m' m) = mg_events m" "mg_clients (keep_keys inp m' m) = mg_clients m"
  "mg_next (keep_keys inp m' m) = mg_next m" "mg_released (keep_keys inp m' m) = mg_released m"
  "mg_next_tunnel (keep_keys inp m' m) = mg_next_tunnel m"
  "mg_tunnels_closed (keep_keys inp m' m) = mg_tunnels_closed m"
  by (simp_all add: keep_keys_def)

lemma pending_frame [simp]:
  "mg_connections (clear_pending_connection cid m) = mg_connections m"
  "mg_ptys (clear_pending_connection cid m) = mg_ptys m"
  "mg_events (clear_pending_connection cid m) = mg_events m"
  "mg_clients (clear_pending_connection cid m) = mg_clients m"
  "mg_next (clear_pending_connection cid m) = mg_next m"
  "mg_released (clear_pending_connection cid m) = mg_released m"
  "mg_next_tunnel (clear_pending_connection cid m) = mg_next_tunnel m"
  "mg_tunnels_closed (clear_pending_connection cid m) = mg_tunnels_closed m"
  by (simp_all add: clear_pending_connection_def)

lemma publish_frame [simp]:
  "mg_connections (publish e m) = mg_connections m" "mg_ptys (publish e m) = mg_ptys m"
  "mg_events (publish e m) = mg_events m @ [e]" "mg_clients (publish e m) = mg_clients m"
  "mg_next (publish e m) = mg_next m" "mg_released (publish e m) = mg_released m"
  "mg_next_tunnel (publish e m) = mg_next_tunnel m" "mg_tunnels_closed (publish e m) = mg_tunnels_closed m"
  "mg_host_keys (publish e m) = mg_host_keys m" "mg_disk (publish e m) = mg_disk m"
  by (simp_all add: publish_def)

lemma disconnect_managed_frame:
  assumes "disconnect_managed_connection inp cid conn m = (r, m')"
  shows "r = Inr ()" "mg_connections m' = mg_connections m" "mg_next m' = mg_next m" "mg_ptys m' = mg_ptys m"
    "h \<noteq> managed_handle conn \<Longrightarrow> mg_clients m' h = mg_clients m h"
    "mg_released m' = mg_released m @ [managed_handle conn]" "mg_next_tunnel m' = mg_next_tunnel m"
    "mg_tunnels_closed m' = mg_tunnels_closed m @ tunnel_token (tunnel_of conn)"
    "mg_clients m (managed_handle conn) \<noteq> None \<Longrightarrow>
       mg_events m' = mg_events m @ [ConnectionStatus cid Disconnected]"
proof -
  have "r = Inr () \<and> mg_connections m' = mg_connections m \<and> mg_next m' = mg_next m \<and> mg_ptys m' = mg_ptys m
    \<and> (h \<noteq> managed_handle conn \<longrightarrow> mg_clients m' h = mg_clients m h)
    \<and> mg_released m' = mg_released m @ [managed_handle conn] \<and> mg_next_tunnel m' = mg_next_tunnel m
    \<and> mg_tunnels_closed m' = mg_tunnels_closed m @ tunnel_token (tunnel_of conn)
    \<and> (mg_clients m (managed_handle conn) \<noteq> None \<longrightarrow>
         mg_events m' = mg_events m @ [ConnectionStatus cid Disconnected])" for h
  proof (cases "mg_clients m (managed_handle conn)")
    case None
    then show ?thesis using assms
      by (auto simp: disconnect_managed_connection_def drop_connection_def drop_tunnel_def Let_def split: option.splits)
  next
    case (Some client)
    obtain client' where d: "disconnect_client client = (Inr (), client')"
      using disconnect_client_ok[of client] by (metis prod.collapse)
    show ?thesis using assms Some d
      by (auto simp: disconnect_managed_connection_def drop_tunnel_def publish_def Let_def split: option.splits)
  qed
  then show "r = Inr ()" "mg_connections m' = mg_connections m" "mg_next m' = mg_next m" "mg_ptys m' = mg_ptys m"
    "h \<noteq> managed_handle conn \<Longrightarrow> mg_clients m' h = mg_clients m h"
    "mg_released m' = mg_released m @ [managed_handle conn]" "mg_next_tunnel m' = mg_next_tunnel m"
    "mg_tunnels_closed m' = mg_tunnels_closed m @ tunnel_token (tunnel_of conn)"
    "mg_clients m (managed_handle conn) \<noteq> None \<Longrightarrow>
       mg_events m' = mg_events m @ [ConnectionStatus cid Disconnected]"
    by blast+
qed

lemma drop_connection_frame:
  "mg_connections (drop_connection inp conn m) = mg_connections m" "mg_next (drop_connection inp conn m) = mg_next m"
  "mg_ptys (drop_connection inp conn m) = mg_ptys m" "mg_events (drop_connection inp conn m) = mg_events m"
  "h \<noteq> managed_handle conn \<Longrightarrow> mg_clients (drop_connection inp conn m) h = mg_clients m h"
  "mg_released (drop_connection inp conn m) = mg_released m @ [managed_handle conn]"
  "mg_next_tunnel (drop_connection inp conn m) = mg_next_tunnel m"
  "mg_tunnels_closed (drop_connection inp conn m) =
     mg_tunnels_closed m @ tunnel_token (tunnel_of conn)"
  by (simp_all add: drop_connection_def drop_tunnel_def split: option.splits)

section \<open>Ownership\<close>

definition mgr_valid :: "'p manager \<Rightarrow> bool" where
  "mgr_valid m \<longleftrightarrow> distinct (map fst (mg_connections m))"

definition mgr_conns :: "'p manager \<Rightarrow> managed_connection multiset" where
  "mgr_conns m = mset (map snd (mg_connections m))"

fun after_conns :: "after_disconnect \<Rightarrow> managed_connection multiset" where
  "after_conns (ThenInsert conn) = {#conn#}"
| "after_conns ThenReturn = {#}"

fun mgr_task_conns :: "mgr_task \<Rightarrow> managed_connection multiset" where
  "mgr_task_conns (ClearPending _ _ (Inr conn)) = {#conn#}"
| "mgr_task_conns (ReplaceRemove _ conn) = {#conn#}"
| "mgr_task_conns (Purging _ _ conn k) = {#conn#} + after_conns k"
| "mgr_task_conns (Disconnecting _ conn k) = {#conn#} + after_conns k"
| "mgr_task_conns (ReplaceInsert _ conn) = {#conn#}"
| "mgr_task_conns _ = {#}"

text \<open>A tunnel is held by the connection it was opened for, or before that by the request.\<close>

definition conns_tunnels :: "managed_connection multiset \<Rightarrow> nat multiset" where
  "conns_tunnels cs = (\<Sum>c\<in>#cs. mset (tunnel_token (tunnel_of c)))"

fun request_tokens :: "mgr_task \<Rightarrow> nat list" where
  "request_tokens (RegisterPending _ req) = tunnel_token (request_tunnel req)"
| "request_tokens (Connecting _ _ req) = tunnel_token (request_tunnel req)"
| "request_tokens (ClearPending _ req (Inl _)) = tunnel_token (request_tunnel req)"
| "request_tokens _ = []"

definition mgr_held :: "'p manager \<Rightarrow> nat multiset" where
  "mgr_held m = image_mset managed_handle (mgr_conns m)"

definition mgr_task_held :: "mgr_task \<Rightarrow> nat multiset" where
  "mgr_task_held t = image_mset managed_handle (mgr_task_conns t)"

definition mgr_tunnels :: "'p manager \<Rightarrow> nat multiset" where
  "mgr_tunnels m = conns_tunnels (mgr_conns m)"

definition mgr_task_tunnels :: "mgr_task \<Rightarrow> nat multiset" where
  "mgr_task_tunnels t = conns_tunnels (mgr_task_conns t) + mset (request_tokens t)"

lemma conns_tunnels_simps [simp]:
  "conns_tunnels {#} = {#}" "conns_tunnels (A + B) = conns_tunnels A + conns_tunnels B"
  "conns_tunnels (add_mset c A) = mset (tunnel_token (tunnel_of c)) + conns_tunnels A"
  by (simp_all add: conns_tunnels_def)

text \<open>
  What a turn of a task does: connections and tunnels are opened (\<open>new\<close>, the fresh tokens) or let go
  of (\<open>lost\<close>, \<open>shut\<close>), and the clients of the others are left alone.
\<close>

definition clients_effect :: "'p manager \<Rightarrow> managed_connection multiset \<Rightarrow> managed_connection multiset \<Rightarrow> 'p manager \<Rightarrow> bool" where
  "clients_effect m new lost m' \<longleftrightarrow>
     mg_next m \<le> mg_next m' \<and> image_mset managed_handle new = mset [mg_next m..<mg_next m']
   \<and> (\<forall>conn\<in>#new. conn_ok m' conn)
   \<and> (\<forall>h<mg_next m. h \<notin># image_mset managed_handle lost \<longrightarrow> mg_clients m' h = mg_clients m h)
   \<and> set (mg_released m') = set (mg_released m) \<union> managed_handle ` set_mset lost"

definition tunnels_effect :: "mgr_task \<Rightarrow> 'p manager \<Rightarrow> managed_connection multiset \<Rightarrow> managed_connection multiset
    \<Rightarrow> mgr_task \<Rightarrow> 'p manager \<Rightarrow> bool" where
  "tunnels_effect t m new lost t' m' \<longleftrightarrow>
     mg_next_tunnel m \<le> mg_next_tunnel m' \<and>
     (\<exists>shut. conns_tunnels new + mset (request_tokens t') + shut
         = mset (request_tokens t) + mset [mg_next_tunnel m..<mg_next_tunnel m']
       \<and> set (mg_tunnels_closed m') = set (mg_tunnels_closed m) \<union> set_mset (conns_tunnels lost) \<union> set_mset shut)"

definition turn_effect :: "mgr_task \<Rightarrow> 'p manager \<Rightarrow> mgr_task \<Rightarrow> 'p manager \<Rightarrow> bool" where
  "turn_effect t m t' m' \<longleftrightarrow>
     (\<exists>new lost. mgr_conns m' + mgr_task_conns t' + lost = mgr_conns m + mgr_task_conns t + new
       \<and> clients_effect m new lost m' \<and> tunnels_effect t m new lost t' m')"

definition same_resources :: "'p manager \<Rightarrow> 'p manager \<Rightarrow> bool" where
  "same_resources m m' \<longleftrightarrow> mg_next m' = mg_next m \<and> mg_clients m' = mg_clients m \<and> mg_released m' = mg_released m
     \<and> mg_next_tunnel m' = mg_next_tunnel m \<and> mg_tunnels_closed m' = mg_tunnels_closed m"

lemma effect_keep:
  assumes "same_resources m m'" and "request_tokens t' = request_tokens t"
    and "mgr_conns m' + mgr_task_conns t' = mgr_conns m + mgr_task_conns t"
  shows "turn_effect t m t' m'"
  unfolding turn_effect_def
  by (rule exI[of _ "{#}"], rule exI[of _ "{#}"])
     (use assms in \<open>simp add: same_resources_def clients_effect_def tunnels_effect_def\<close>)

lemma effect_open:
  assumes "opens m r m'" and "mgr_task_conns t = {#}"
    and "mgr_task_conns t' = (case r of Inl _ \<Rightarrow> {#} | Inr conn \<Rightarrow> {#conn#})"
    and "(case r of Inl _ \<Rightarrow> [] | Inr conn \<Rightarrow> tunnel_token (tunnel_of conn)) @ request_tokens t' = request_tokens t"
  shows "turn_effect t m t' m'"
proof (cases r)
  case (Inl e)
  then show ?thesis using assms opens_error[of m e m'] opens_frame[OF assms(1)]
    by (intro effect_keep) (simp_all add: mgr_conns_def same_resources_def)
next
  case (Inr conn)
  then have o: "opens m (Inr conn) m'" using assms(1) by simp
  have "mset (tunnel_token (tunnel_of conn)) + mset (request_tokens t') = mset (request_tokens t)"
    unfolding assms(4)[symmetric] Inr by simp
  then show ?thesis
    unfolding turn_effect_def
    by (intro exI[of _ "{#conn#}"] exI[of _ "{#}"])
       (use opens_ok[OF o] opens_frame[OF o] assms(2,3) Inr in
         \<open>simp add: mgr_conns_def clients_effect_def tunnels_effect_def\<close>)
qed

text \<open>Letting go of connections, and of the tunnel of a request.\<close>

lemma effect_lose:
  assumes "mg_next m' = mg_next m" "mg_next_tunnel m' = mg_next_tunnel m"
    and "\<And>h. h \<notin> managed_handle ` set lost \<Longrightarrow> mg_clients m' h = mg_clients m h"
    and "mg_released m' = mg_released m @ map managed_handle lost"
    and "mg_tunnels_closed m' = mg_tunnels_closed m @ concat (map (tunnel_token \<circ> tunnel_of) lost) @ shut"
    and "mgr_conns m' + mgr_task_conns t' + mset lost = mgr_conns m + mgr_task_conns t"
    and "mset (request_tokens t') + mset shut = mset (request_tokens t)"
  shows "turn_effect t m t' m'"
proof -
  have "conns_tunnels (mset xs) = mset (concat (map (tunnel_token \<circ> tunnel_of) xs))" for xs
    by (induction xs) simp_all
  then show ?thesis
    unfolding turn_effect_def
    by (intro exI[of _ "{#}"] exI[of _ "mset lost"])
       (use assms in \<open>auto simp: clients_effect_def tunnels_effect_def intro!: exI[of _ "mset shut"]\<close>)
qed

lemma after_open_effect:
  assumes "after_open cid (r, m1) = (t', m')" and "opens m r m1" and "\<And>conn. r = Inr conn \<Longrightarrow> tunnel_of conn = None"
  shows "turn_effect (Create cid req) m t' m'"
  using assms by (cases r) (auto simp: after_open_def intro!: effect_open)

lemma mgr_conns_delete:
  "mgr_valid m \<Longrightarrow> map_of (mg_connections m) cid = Some c \<Longrightarrow>
   mgr_conns (m\<lparr>mg_connections := AList.delete cid (mg_connections m)\<rparr>) + {#c#} = mgr_conns m"
  using delete_values_distinct[of "mg_connections m" cid c] by (simp add: mgr_conns_def mgr_valid_def)

lemma after_task_conns [simp]: "mgr_task_conns (after_task cid k) = after_conns k" "request_tokens (after_task cid k) = []"
  by (cases k; simp)+

lemma start_disconnect_conns [simp]:
  "mgr_task_conns (start_disconnect cid conn k) = {#conn#} + after_conns k" "request_tokens (start_disconnect cid conn k) = []"
  by (simp_all add: start_disconnect_def split: managed_connection.splits)

lemma insert_effect:
  assumes "mgr_window inp (ReplaceInsert cid conn) m = (t', m')"
  shows "turn_effect (ReplaceInsert cid conn) m t' m'"
proof (cases "map_of (mg_connections m) cid")
  case None
  then show ?thesis using assms update_values_new[OF None, of conn]
    by (auto simp: mgr_conns_def same_resources_def intro!: effect_keep)
next
  case (Some old)
  let ?m1 = "m\<lparr>mg_connections := AList.update cid conn (mg_connections m)\<rparr>"
  have "t' = ReplacePublish cid" "m' = drop_connection inp old ?m1" using assms Some by auto
  then show ?thesis using update_values_old[OF Some, of conn] drop_connection_frame[where inp = inp and conn = old and m = ?m1]
    by (intro effect_lose[where lost = "[old]" and shut = "[]"]) (auto simp: mgr_conns_def)
qed

lemma disconnecting_effect:
  assumes "mgr_window inp (Disconnecting cid conn k) m = (t', m')"
  shows "turn_effect (Disconnecting cid conn k) m t' m'"
proof -
  obtain r m1 where d: "disconnect_managed_connection inp cid conn m = (r, m1)" by fastforce
  note frame = disconnect_managed_frame[OF d]
  then have "t' = after_task cid k" "m' = m1" using assms d by (auto split: sum.splits)
  then show ?thesis using frame
    by (intro effect_lose[where lost = "[conn]" and shut = "[]"]) (auto simp: mgr_conns_def)
qed

lemma open_tunnel_effect:
  assumes "mgr_window inp (OpenTunnel cid config tr) m = (t', m')"
  shows "turn_effect (OpenTunnel cid config tr) m t' m'"
proof (cases "get_connection (tr_ssh_connection_id tr) m")
  case None
  then show ?thesis using assms by (auto simp: same_resources_def intro!: effect_keep)
next
  case (Some client)
  show ?thesis
  proof (cases "mi_listen inp ''127.0.0.1:0''")
    case (Inl e)
    then show ?thesis using assms Some by (auto simp: tunnel_open_def same_resources_def intro!: effect_keep)
  next
    case (Inr port)
    obtain opened cfg where e: "t' = RegisterPending cid (OpenPool cfg (Some opened))"
      "tn_cancel opened = mg_next_tunnel m" "m' = m\<lparr>mg_next_tunnel := Suc (mg_next_tunnel m)\<rparr>"
      using assms Some Inr by (auto simp: tunnel_open_def)
    have "clients_effect m {#} {#} m'" unfolding e by (simp add: clients_effect_def)
    moreover have "tunnels_effect (OpenTunnel cid config tr) m {#} {#} t' m'"
      unfolding e(1,3) by (simp add: tunnels_effect_def e(2))
    ultimately show ?thesis unfolding turn_effect_def
      by (intro exI[of _ "{#}"] conjI) (simp_all add: mgr_conns_def e(1,3))
  qed
qed

lemma mgr_window_effect:
  assumes "mgr_valid m" and "mgr_window inp t m = (t', m')"
  shows "turn_effect t m t' m'"
proof (cases t)
  case (Create cid req)
  show ?thesis
  proof (cases req)
    case (RSftp config)
    obtain r m1 where o: "open_sftp_client inp config m = (r, m1)" by fastforce
    then show ?thesis using assms Create RSftp open_sftp_opens[OF o] open_tunnels(1)[of inp config m]
      by (auto intro!: after_open_effect[of cid r m1])
  next
    case (RFtp config)
    obtain r m1 where o: "open_ftp inp config m = (r, m1)" by fastforce
    then show ?thesis using assms Create RFtp open_ftp_opens[OF o] open_tunnels(2)[of inp config m]
      by (auto intro!: after_open_effect[of cid r m1])
  next
    case (RDesktop request)
    obtain r m1 where o: "open_desktop request m = (r, m1)" by fastforce
    then show ?thesis using assms Create RDesktop open_desktop_opens[OF o] open_tunnels(3)[of request m]
      by (auto intro!: after_open_effect[of cid r m1])
  qed (use assms Create in \<open>auto simp: same_resources_def intro!: effect_keep split: sum.splits option.splits\<close>)
next
  case (OpenTunnel cid config tr)
  then show ?thesis using assms open_tunnel_effect by blast
next
  case (RegisterPending cid req)
  then show ?thesis using assms
    by (auto simp: register_pending_connection_def mgr_conns_def same_resources_def intro!: effect_keep)
next
  case (Connecting cid token req)
  obtain r m1 where o: "open_cancellable inp req m = (r, m1)" by fastforce
  show ?thesis
  proof (cases "mi_cancel_first inp \<and> token \<in> set (mg_cancelled m)")
    case True
    then show ?thesis using assms Connecting
      by (auto simp: same_resources_def mgr_conns_def intro!: effect_keep)
  next
    case False
    then have "t' = ClearPending cid req r" "m' = m1" using assms Connecting o by auto
    then show ?thesis using Connecting open_tunnels(4)[of inp req m] o
      by (intro effect_open[OF open_cancellable_opens[OF o, folded \<open>m' = m1\<close>]]) (auto split: sum.splits)
  qed
next
  case (ClearPending cid req r)
  show ?thesis
  proof (cases r)
    case (Inl e)
    then show ?thesis using assms ClearPending
      by (intro effect_lose[where lost = "[]" and shut = "tunnel_token (request_tunnel req)"])
         (auto simp: mgr_conns_def)
  qed (use assms ClearPending in \<open>auto simp: mgr_conns_def same_resources_def intro!: effect_keep\<close>)
next
  case (ReplaceRemove cid conn)
  then show ?thesis using assms mgr_conns_delete[OF assms(1), of cid]
    by (auto simp: same_resources_def add.assoc[symmetric] intro!: effect_keep split: option.splits)
next
  case (Purging pc cid conn k)
  then show ?thesis using assms
    by (auto simp: same_resources_def mgr_conns_def intro!: effect_keep split: prod.splits pty_pc.splits)
next
  case (Disconnecting cid conn k)
  then show ?thesis using assms disconnecting_effect by blast
next
  case (ReplaceInsert cid conn)
  then show ?thesis using assms insert_effect by blast
next
  case (Close cid expected)
  then show ?thesis using assms mgr_conns_delete[OF assms(1), of cid]
    by (auto simp: take_connection_if_kind_def same_resources_def intro!: effect_keep
        split: prod.splits sum.splits option.splits if_splits)
next
  case (CancelPending cid)
  then show ?thesis using assms
    by (auto simp: cancel_pending_connection_def mgr_conns_def same_resources_def intro!: effect_keep split: option.splits)
next
  case (PtyCreate cid h cols rows)
  then show ?thesis using assms
    by (auto simp: same_resources_def mgr_conns_def intro!: effect_keep split: option.splits any_client.splits sum.splits)
qed (use assms in \<open>auto simp: same_resources_def mgr_conns_def intro!: effect_keep split: option.splits prod.splits\<close>)

text \<open>A dropped future lets go of everything it held.\<close>

lemma drop_connections_effect:
  assumes "mgr_task_conns t = mset (conn # rest)" and "request_tokens t = []"
    and "m' = fold (drop_connection inp) rest (drop_connection inp conn m)"
  shows "turn_effect t m TaskDone m'"
proof -
  have fold: "mg_next (fold (drop_connection inp) xs m) = mg_next m
    \<and> mg_next_tunnel (fold (drop_connection inp) xs m) = mg_next_tunnel m
    \<and> mg_connections (fold (drop_connection inp) xs m) = mg_connections m
    \<and> mg_released (fold (drop_connection inp) xs m) = mg_released m @ map managed_handle xs
    \<and> mg_tunnels_closed (fold (drop_connection inp) xs m) = mg_tunnels_closed m @ concat (map (tunnel_token \<circ> tunnel_of) xs)
    \<and> (\<forall>h. h \<notin> managed_handle ` set xs \<longrightarrow> mg_clients (fold (drop_connection inp) xs m) h = mg_clients m h)" for xs
    by (induction xs arbitrary: m) (simp_all add: drop_connection_frame)
  have "m' = fold (drop_connection inp) (conn # rest) m" using assms(3) by simp
  then show ?thesis using fold[of "conn # rest"] assms(1,2)
    by (intro effect_lose[where lost = "conn # rest" and shut = "[]"]) (auto simp: mgr_conns_def)
qed

lemma drop_after_fold:
  "drop_after inp k m = fold (drop_connection inp) (case k of ThenInsert conn \<Rightarrow> [conn] | ThenReturn \<Rightarrow> []) m"
  by (cases k) simp_all

lemma after_conns_list: "after_conns k = mset (case k of ThenInsert conn \<Rightarrow> [conn] | ThenReturn \<Rightarrow> [])"
  by (cases k) simp_all

lemma drop_request_effect:
  assumes "mgr_task_conns t = {#}" and "request_tokens t = tunnel_token tunnel" and "same_resources m m1"
    and "mg_connections m1 = mg_connections m"
  shows "turn_effect t m TaskDone (drop_tunnel tunnel m1)"
  using assms
  by (intro effect_lose[where lost = "[]" and shut = "tunnel_token tunnel"]) (auto simp: mgr_conns_def same_resources_def)

lemma drop_task_effect: "turn_effect t m TaskDone (drop_task inp t m)"
proof (cases t)
  case (Create cid req)
  then show ?thesis
    by (cases req) (auto simp: same_resources_def mgr_conns_def intro!: effect_keep)
next
  case (RegisterPending cid req)
  then show ?thesis by (auto simp: same_resources_def intro!: drop_request_effect)
next
  case (Connecting cid token req)
  then show ?thesis by (auto simp: same_resources_def intro!: drop_request_effect)
next
  case (ClearPending cid req r)
  show ?thesis
  proof (cases r)
    case (Inl e)
    then show ?thesis using ClearPending by (auto simp: same_resources_def intro!: drop_request_effect)
  next
    case (Inr conn)
    then show ?thesis using ClearPending by (auto intro!: drop_connections_effect[where rest = "[]"])
  qed
next
  case (ReplaceRemove cid conn)
  then show ?thesis by (auto intro!: drop_connections_effect[where rest = "[]"])
next
  case (Purging pc cid conn k)
  then show ?thesis by (auto simp: drop_after_fold after_conns_list intro!: drop_connections_effect)
next
  case (Disconnecting cid conn k)
  then show ?thesis by (auto simp: drop_after_fold after_conns_list intro!: drop_connections_effect)
next
  case (ReplaceInsert cid conn)
  then show ?thesis by (auto intro!: drop_connections_effect[where rest = "[]"])
qed (auto simp: same_resources_def intro!: effect_keep)

section \<open>The ledgers\<close>

text \<open>A turn of a task: its next window, or the end of its future.\<close>

definition mgr_turn :: "('k, 'p) mgr_input \<times> bool \<Rightarrow> mgr_task \<Rightarrow> 'p manager \<Rightarrow> mgr_task \<times> 'p manager" where
  "mgr_turn inp t m = (if snd inp then (TaskDone, drop_task (fst inp) t m) else mgr_window (fst inp) t m)"

lemma mgr_turn_effect: "mgr_valid m \<Longrightarrow> mgr_turn inp t m = (t', m') \<Longrightarrow> turn_effect t m t' m'"
  using mgr_window_effect[of m "fst inp" t t' m'] drop_task_effect[of t m "fst inp"]
  by (auto simp: mgr_turn_def split: if_splits)

lemma drop_after_connections [simp]: "mg_connections (drop_after inp k m) = mg_connections m"
  by (cases k) (simp_all add: drop_connection_frame)

lemma drop_task_connections [simp]: "mg_connections (drop_task inp t m) = mg_connections m"
  by (cases "(inp, t, m)" rule: drop_task.cases) (auto simp: drop_connection_frame)

lemma opens_valid: "opens m r m' \<Longrightarrow> mgr_valid m \<Longrightarrow> mgr_valid m'"
  by (simp add: opens_def mgr_valid_def)

lemma after_open_valid: "opens m r m1 \<Longrightarrow> after_open cid (r, m1) = (t', m') \<Longrightarrow> mgr_valid m \<Longrightarrow> mgr_valid m'"
  using opens_valid[of m r m1] by (auto simp: after_open_def split: sum.splits)

lemma mgr_window_valid:
  assumes "mgr_window inp t m = (t', m')" and v: "mgr_valid m"
  shows "mgr_valid m'"
proof (cases t)
  case (Create cid req)
  show ?thesis
  proof (cases req)
    case (RSftp config)
    then show ?thesis using assms Create
      by (cases "open_sftp_client inp config m") (auto intro: after_open_valid dest: open_sftp_opens)
  next
    case (RFtp config)
    then show ?thesis using assms Create
      by (cases "open_ftp inp config m") (auto intro: after_open_valid dest: open_ftp_opens)
  next
    case (RDesktop request)
    then show ?thesis using assms Create
      by (cases "open_desktop request m") (auto intro: after_open_valid dest: open_desktop_opens)
  qed (use assms Create in \<open>auto split: sum.splits option.splits\<close>)
next
  case (Connecting cid token req)
  obtain r m1 where o: "open_cancellable inp req m = (r, m1)" by fastforce
  then show ?thesis using assms Connecting opens_valid[OF open_cancellable_opens[OF o]]
    by (auto simp: mgr_valid_def split: if_splits)
next
  case (Disconnecting cid conn k)
  obtain r m1 where d: "disconnect_managed_connection inp cid conn m = (r, m1)" by fastforce
  then show ?thesis using assms Disconnecting disconnect_managed_frame(2)[OF d]
    by (auto simp: mgr_valid_def split: sum.splits)
qed (use assms in \<open>auto simp: mgr_valid_def register_pending_connection_def cancel_pending_connection_def
      take_connection_if_kind_def drop_connection_frame distinct_delete distinct_update
      split: prod.splits sum.splits option.splits if_splits any_client.splits\<close>)

lemma mgr_turn_valid: "mgr_valid m \<Longrightarrow> mgr_turn inp t m = (t', m') \<Longrightarrow> mgr_valid m'"
  using mgr_window_valid[of "fst inp" t m t' m'] by (auto simp: mgr_turn_def mgr_valid_def split: if_splits)

interpretation mgr_client_ledger: task_ledger mgr_valid mgr_turn mgr_held mgr_task_held mg_next "\<lambda>m. set (mg_released m)"
proof unfold_locales
  fix m m' :: "'a manager" and inp :: "('b, 'a) mgr_input \<times> bool" and t t'
  assume "mgr_valid m" and "mgr_turn inp t m = (t', m')"
  then obtain new lost where e: "mgr_conns m' + mgr_task_conns t' + lost = mgr_conns m + mgr_task_conns t + new"
    and c: "clients_effect m new lost m'"
    using mgr_turn_effect unfolding turn_effect_def by blast
  show "mg_next m \<le> mg_next m' \<and>
      (\<exists>lost. mgr_held m' + mgr_task_held t' + lost = mgr_held m + mgr_task_held t + mset [mg_next m..<mg_next m']
         \<and> set (mg_released m') = set (mg_released m) \<union> set_mset lost)"
    using arg_cong[OF e, of "image_mset managed_handle"] c
    by (intro conjI exI[of _ "image_mset managed_handle lost"])
       (simp_all add: clients_effect_def mgr_held_def mgr_task_held_def)
qed

interpretation mgr_tunnel_ledger:
  task_ledger mgr_valid mgr_turn mgr_tunnels mgr_task_tunnels mg_next_tunnel "\<lambda>m. set (mg_tunnels_closed m)"
proof unfold_locales
  fix m m' :: "'a manager" and inp :: "('b, 'a) mgr_input \<times> bool" and t t'
  assume "mgr_valid m" and "mgr_turn inp t m = (t', m')"
  then obtain new lost where e: "mgr_conns m' + mgr_task_conns t' + lost = mgr_conns m + mgr_task_conns t + new"
    and "tunnels_effect t m new lost t' m'"
    using mgr_turn_effect unfolding turn_effect_def by blast
  then obtain shut where s: "mg_next_tunnel m \<le> mg_next_tunnel m'"
    "conns_tunnels new + mset (request_tokens t') + shut
      = mset (request_tokens t) + mset [mg_next_tunnel m..<mg_next_tunnel m']"
    "set (mg_tunnels_closed m') = set (mg_tunnels_closed m) \<union> set_mset (conns_tunnels lost) \<union> set_mset shut"
    unfolding tunnels_effect_def by blast
  have "mgr_tunnels m' + mgr_task_tunnels t' + (conns_tunnels lost + shut)
      = (mgr_tunnels m + conns_tunnels (mgr_task_conns t)) + (conns_tunnels new + mset (request_tokens t') + shut)"
    using arg_cong[OF e, of conns_tunnels] by (simp add: mgr_tunnels_def mgr_task_tunnels_def ac_simps)
  also have "\<dots> = mgr_tunnels m + mgr_task_tunnels t + mset [mg_next_tunnel m..<mg_next_tunnel m']"
    unfolding s(2) by (simp add: mgr_task_tunnels_def ac_simps)
  finally show "mg_next_tunnel m \<le> mg_next_tunnel m' \<and>
      (\<exists>lost. mgr_tunnels m' + mgr_task_tunnels t' + lost
           = mgr_tunnels m + mgr_task_tunnels t + mset [mg_next_tunnel m..<mg_next_tunnel m']
         \<and> set (mg_tunnels_closed m') = set (mg_tunnels_closed m) \<union> set_mset lost)"
    using s(1,3) by (intro conjI exI[of _ "conns_tunnels lost + shut"]) (simp_all add: Un_assoc)
qed

section \<open>The invariant\<close>

definition all_conns :: "'p mgr_state \<Rightarrow> managed_connection multiset" where
  "all_conns st = mgr_conns (fst st) + sum_list (map mgr_task_conns (snd st))"

definition all_tunnels :: "'p mgr_state \<Rightarrow> nat multiset" where
  "all_tunnels st = mgr_tunnels (fst st) + sum_list (map mgr_task_tunnels (snd st))"

lemma all_conns_handles:
  "image_mset managed_handle (all_conns (m, ts)) = mgr_held m + sum_list (map mgr_task_held ts)"
proof -
  have "image_mset managed_handle (sum_list (map mgr_task_conns ts)) = sum_list (map mgr_task_held ts)" for ts
    by (induction ts) (simp_all add: mgr_task_held_def)
  then show ?thesis by (simp add: all_conns_def mgr_held_def)
qed

definition mgr_inv :: "'p mgr_state \<Rightarrow> bool" where
  "mgr_inv st \<longleftrightarrow>
     mgr_valid (fst st)
   \<and> accounted (image_mset managed_handle (all_conns st)) (mg_next (fst st)) (set (mg_released (fst st)))
   \<and> accounted (all_tunnels st) (mg_next_tunnel (fst st)) (set (mg_tunnels_closed (fst st)))
   \<and> (\<forall>conn \<in># all_conns st. conn_ok (fst st) conn)"

lemma all_conns_task:
  assumes "i < length ts"
  shows "\<exists>r. all_conns (m, ts) = mgr_conns m + mgr_task_conns (ts ! i) + r
    \<and> all_conns (m', ts[i := t']) = mgr_conns m' + mgr_task_conns t' + r"
  using sum_list_task[OF assms, of mgr_task_conns] by (auto simp: all_conns_def add.assoc add.commute)

lemma conn_ok_cong: "mg_clients m' (managed_handle conn) = mg_clients m (managed_handle conn) \<Longrightarrow> conn_ok m' conn = conn_ok m conn"
  by (simp add: conn_ok_def)

lemma mgr_turn_conns_ok:
  assumes inv: "mgr_inv (m, ts)" and i: "i < length ts" and w: "mgr_turn inp (ts ! i) m = (t', m')"
    and own: "accounted (image_mset managed_handle (all_conns (m', ts[i := t']))) (mg_next m') (set (mg_released m'))"
  shows "\<forall>conn \<in># all_conns (m', ts[i := t']). conn_ok m' conn"
proof
  fix c
  assume c: "c \<in># all_conns (m', ts[i := t'])"
  obtain r where r: "all_conns (m, ts) = mgr_conns m + mgr_task_conns (ts ! i) + r"
    "all_conns (m', ts[i := t']) = mgr_conns m' + mgr_task_conns t' + r"
    using all_conns_task[OF i] by blast
  obtain new lost where e: "mgr_conns m' + mgr_task_conns t' + lost = mgr_conns m + mgr_task_conns (ts ! i) + new"
    and eff: "clients_effect m new lost m'"
    using mgr_turn_effect[OF _ w] inv unfolding mgr_inv_def turn_effect_def by auto
  have "all_conns (m', ts[i := t']) + lost = (mgr_conns m' + mgr_task_conns t' + lost) + r" unfolding r by simp
  also have "\<dots> = all_conns (m, ts) + new" unfolding e r by simp
  finally have all: "all_conns (m', ts[i := t']) + lost = all_conns (m, ts) + new" .
  have "c \<in># all_conns (m, ts) + new" unfolding all[symmetric] using c by simp
  then consider "c \<in># new" | "c \<in># all_conns (m, ts)" by auto
  then show "conn_ok m' c"
  proof cases
    case 1
    then show ?thesis using eff by (simp add: clients_effect_def)
  next
    case 2
    have "managed_handle c \<in># image_mset managed_handle (all_conns (m, ts))"
      "managed_handle c \<in># image_mset managed_handle (all_conns (m', ts[i := t']))" using c 2 by auto
    then have "managed_handle c < mg_next m" "managed_handle c \<notin> set (mg_released m')"
      using accounted_owned[OF own] accounted_owned[of _ "mg_next m"] inv unfolding mgr_inv_def fst_conv by blast+
    then have "mg_clients m' (managed_handle c) = mg_clients m (managed_handle c)"
      using eff by (auto simp: clients_effect_def)
    then show ?thesis using conn_ok_cong[of m' c m] 2 inv by (simp add: mgr_inv_def)
  qed
qed

lemma mgr_turn_inv:
  assumes inv: "mgr_inv (m, ts)" and i: "i < length ts" and w: "mgr_turn inp (ts ! i) m = (t', m')"
  shows "mgr_inv (m', ts[i := t'])"
proof -
  have v: "mgr_valid m" using inv by (simp add: mgr_inv_def)
  have "accounted (image_mset managed_handle (all_conns (m', ts[i := t']))) (mg_next m') (set (mg_released m'))"
    using mgr_client_ledger.turn_accounted[OF _ v i w] inv by (simp add: mgr_inv_def all_conns_handles)
  moreover have "accounted (all_tunnels (m', ts[i := t'])) (mg_next_tunnel m') (set (mg_tunnels_closed m'))"
    using mgr_tunnel_ledger.turn_accounted[OF _ v i w] inv by (simp add: mgr_inv_def all_tunnels_def)
  ultimately show ?thesis
    using mgr_turn_conns_ok[OF inv i w] mgr_turn_valid[OF v w] by (simp add: mgr_inv_def)
qed

lemma mgr_entry_holds_nothing: "mgr_entry t \<Longrightarrow> mgr_task_conns t = {#} \<and> request_tokens t = []"
  by (cases t) auto

lemma mgr_inv_start:
  assumes "mgr_entry t"
  shows "mgr_inv (m, ts @ [t]) = mgr_inv (m, ts)"
  using mgr_entry_holds_nothing[OF assms] by (simp add: mgr_inv_def all_conns_def all_tunnels_def mgr_task_tunnels_def)

text \<open>An application that uses a client keeps it live, and its protocol.\<close>

lemma pool_use_live:
  assumes "lease_window inp t p = (t', p')" and "t \<noteq> ShutCancel"
  shows "pl_eviction_cancelled p' = pl_eviction_cancelled p"
  using assms
  by (cases t) (auto simp: pool_defs Let_def split: option.splits sum.splits if_splits prod.splits pool_job.splits list.splits)

lemma client_use_live: "client_use c c' \<Longrightarrow> client_live c' = client_live c"
  by (induction rule: client_use.induct)
     (auto simp: sftp_session_def sftp_def rdp_resize_def vnc_resize_def pool_use_live split: option.splits sum.splits if_splits)

lemma tag_matches_kind:
  "tag_matches conn (CSsh s) = slot_matches SlotSsh conn" "tag_matches conn (CSftp t) = slot_matches SlotSftp conn"
  "tag_matches conn (CFtp f) = slot_matches SlotFtp conn" "tag_matches conn (CPool p) = slot_matches SlotPostgres conn"
  "tag_matches conn (CRdp r) = (\<exists>h. conn = ManagedDesktop KindRdp h)"
  "tag_matches conn (CVnc v) = (\<exists>h. conn = ManagedDesktop KindVnc h)"
  by (cases conn; simp; case_tac x41; simp)+

lemma client_use_tag: "client_use c c' \<Longrightarrow> tag_matches conn c' = tag_matches conn c"
  by (induction rule: client_use.induct) (simp_all add: tag_matches_kind)

lemma mgr_inv_use:
  assumes inv: "mgr_inv (m, ts)" and "mg_clients m h = Some c" and "client_use c c'"
  shows "mgr_inv (m\<lparr>mg_clients := (mg_clients m)(h \<mapsto> c')\<rparr>, ts)"
proof -
  let ?m = "m\<lparr>mg_clients := (mg_clients m)(h \<mapsto> c')\<rparr>"
  have "conn_ok m conn \<Longrightarrow> conn_ok ?m conn" for conn
    using assms(2) client_use_live[OF assms(3)] client_use_tag[OF assms(3), of conn] by (auto simp: conn_ok_def)
  moreover have "all_conns (?m, ts) = all_conns (m, ts)" "all_tunnels (?m, ts) = all_tunnels (m, ts)"
    by (simp_all add: all_conns_def all_tunnels_def mgr_conns_def mgr_tunnels_def)
  ultimately show ?thesis using inv by (auto simp: mgr_inv_def mgr_valid_def)
qed

lemma mgr_inv_keys: "mgr_inv (m\<lparr>mg_host_keys := store, mg_disk := d\<rparr>, ts) = mgr_inv (m, ts)"
  by (simp add: mgr_inv_def mgr_valid_def all_conns_def all_tunnels_def mgr_conns_def mgr_tunnels_def conn_ok_def)

lemma mgr_inv_step:
  assumes "mgr_inv st" and "mgr_step env st st'"
  shows "mgr_inv st'"
  using assms(2,1)
proof (induction rule: mgr_step.induct)
  case (start_op t m ts)
  then show ?case by (simp add: mgr_inv_start)
next
  case (run_window i ts inp m t' m')
  then show ?case using mgr_turn_inv[of m ts i "(inp, False)" t' m'] by (simp add: mgr_turn_def)
next
  case (drop_future i ts inp m)
  then show ?case using mgr_turn_inv[of m ts i "(inp, True)"] by (simp add: mgr_turn_def)
next
  case (use_client m h c c' ts)
  then show ?case by (intro mgr_inv_use)
next
  case (forget_host host port m r store' d' ts)
  then show ?case by (simp add: mgr_inv_keys)
qed

lemma mgr_inv_init: "mgr_init st \<Longrightarrow> mgr_inv st"
  by (auto simp: mgr_init_def mgr_inv_def with_host_keys_def all_conns_def all_tunnels_def mgr_conns_def
      mgr_tunnels_def mgr_valid_def accounted_def)

interpretation mgr_sys: inv_system mgr_init "mgr_step env" mgr_inv
  for env :: "('k, 'p) mgr_input set"
  by unfold_locales (auto intro: mgr_inv_init mgr_inv_step)

fun task_over :: "mgr_task \<Rightarrow> bool" where
  "task_over (TaskFailed _) = True"
| "task_over TaskDone = True"
| "task_over (PtyWork (Returned _)) = True"
| "task_over _ = False"

lemma task_over_holds_nothing: "task_over t \<Longrightarrow> mgr_task_conns t = {#} \<and> request_tokens t = []"
  by (cases t) auto

section \<open>The registry\<close>

lemma registered_in_all: "map_of (mg_connections m) cid = Some conn \<Longrightarrow> conn \<in># all_conns (m, ts)"
  using map_of_SomeD[of "mg_connections m" cid conn] by (force simp: all_conns_def mgr_conns_def)

lemma mgr_inv_handles:
  assumes "mgr_inv (m, ts)"
  shows "distinct (map (managed_handle \<circ> snd) (mg_connections m))"
proof -
  have "mset (map (managed_handle \<circ> snd) (mg_connections m)) \<subseteq># image_mset managed_handle (all_conns (m, ts))"
    by (simp add: all_conns_def mgr_conns_def image_mset.compositionality comp_def)
  also have "\<dots> \<subseteq># mset [0..<mg_next m]" using assms by (auto simp: mgr_inv_def dest: accounted_subset)
  finally show ?thesis by (rule distinct_submset) simp
qed

text \<open>
  C10. However connects, closes, cancellations and terminals interleave, wherever their futures are
  dropped, and whatever the application calls on the clients it has looked up short of connecting and
  disconnecting them itself, a registered connection has a client that is still connected, of the
  protocol its tag says, and no other connection id shares it.
\<close>

theorem registered_clients_live:
  assumes "reach mgr_init (mgr_step env) (m, ts)" and "map_of (mg_connections m) cid = Some conn"
  shows "\<exists>c. mg_clients m (managed_handle conn) = Some c \<and> client_live c \<and> tag_matches conn c
    \<and> (\<forall>cid' conn'. map_of (mg_connections m) cid' = Some conn' \<and> managed_handle conn' = managed_handle conn
         \<longrightarrow> cid' = cid)"
proof -
  have inv: "mgr_inv (m, ts)" by (rule mgr_sys.reach_inv[OF assms(1)])
  have "conn_ok m conn" using inv registered_in_all[OF assms(2)] by (simp add: mgr_inv_def)
  moreover have "cid' = cid"
    if "map_of (mg_connections m) cid' = Some conn'" "managed_handle conn' = managed_handle conn" for cid' conn'
  proof -
    let ?xs = "map (\<lambda>(k, c). (k, managed_handle c)) (mg_connections m)"
    have "map snd ?xs = map (managed_handle \<circ> snd) (mg_connections m)" by auto
    then have "distinct (map snd ?xs)" using mgr_inv_handles[OF inv] by (simp only:)
    then show ?thesis using map_of_two[of ?xs cid' "managed_handle conn" cid] that assms(2)
      by (simp add: map_of_map)
  qed
  ultimately show ?thesis by (auto simp: conn_ok_def)
qed

end
