(* ===== verification/ManagerStatus.thy ===== *)
theory ManagerStatus
  imports ManagerInv
begin

text \<open>
  Every operation returns; and when operations follow each other, the published status of a
  connection agrees with the registry, and a terminal exists only on a registered SSH connection.
\<close>

section \<open>Operations return\<close>

text \<open>The windows a task has left; an operation of the terminals has at most two, a purge also.\<close>

fun pty_left :: "pty_pc \<Rightarrow> nat" where
  "pty_left (pty_pc.Start _) = 2"
| "pty_left (Returned _) = 0"
| "pty_left _ = 1"

fun mgr_left :: "mgr_task \<Rightarrow> nat" where
  "mgr_left (Create _ _) = 11"
| "mgr_left (OpenTunnel _ _ _) = 10"
| "mgr_left (RegisterPending _ _) = 9"
| "mgr_left (Connecting _ _ _) = 8"
| "mgr_left (ClearPending _ _ _) = 7"
| "mgr_left (ReplaceRemove _ _) = 6"
| "mgr_left (Purging pc _ _ _) = 3 + max 1 (pty_left pc)"
| "mgr_left (Disconnecting _ _ _) = 3"
| "mgr_left (ReplaceInsert _ _) = 2"
| "mgr_left (ReplacePublish _) = 1"
| "mgr_left (Close _ _) = 6"
| "mgr_left (CancelPending _) = 1"
| "mgr_left (StartPty _ _ _) = 5"
| "mgr_left (PtyCancelOld _ _ _ _) = 4"
| "mgr_left (PtyCreate _ _ _ _) = 3"
| "mgr_left (PtyWork pc) = pty_left pc"
| "mgr_left _ = 0"

lemma pty_left_over: "pty_left pc = 0 \<longleftrightarrow> (\<exists>g. pc = Returned g)"
  by (cases pc) auto

lemma mgr_left_over: "mgr_left t = 0 \<longleftrightarrow> task_over t"
proof (cases t)
  case (PtyWork pc)
  then show ?thesis by (cases pc) auto
qed auto

lemma pty_left_less:
  assumes "window pc r = (pc', r')" and "\<And>g. pc \<noteq> Returned g"
  shows "pty_left pc' < pty_left pc"
proof (cases pc)
  case (Start op)
  then show ?thesis using assms by (cases op) (auto split: prod.splits if_splits)
qed (use assms in auto)

lemma start_disconnect_left: "mgr_left (start_disconnect cid conn k) < 6"
  by (simp add: start_disconnect_def split: managed_connection.splits)

lemma mgr_left_less:
  assumes "mgr_window inp t m = (t', m')" and "\<not> task_over t"
  shows "mgr_left t' < mgr_left t"
proof (cases t)
  case (Create cid req)
  then show ?thesis using assms
    by (cases req) (auto simp: after_open_def split: prod.splits sum.splits option.splits)
next
  case (ReplaceRemove cid conn)
  then show ?thesis using assms start_disconnect_left[of cid _ "ThenInsert conn"] by (auto split: option.splits)
next
  case (Close cid expected)
  then show ?thesis using assms start_disconnect_left[of cid _ ThenReturn]
    by (auto simp: take_connection_if_kind_def split: option.splits if_splits)
next
  case (Purging pc cid conn k)
  then show ?thesis using assms pty_left_less[of pc "mg_ptys m"]
    by (cases pc) (auto split: prod.splits pty_pc.splits pty_op.splits if_splits)
next
  case (Disconnecting cid conn k)
  then show ?thesis using assms by (cases k) (auto split: prod.splits sum.splits)
next
  case (PtyWork pc)
  then show ?thesis using assms pty_left_less[of pc "mg_ptys m"] by (cases pc) (auto split: prod.splits)
qed (use assms in \<open>auto simp: register_pending_connection_def
      split: prod.splits sum.splits option.splits if_splits any_client.splits\<close>)

lemma mgr_window_over: "task_over t \<Longrightarrow> mgr_window inp t m = (t, m)"
  by (cases t rule: task_over.cases) auto

text \<open>The task after windows that each find the state the other tasks have left.\<close>

fun task_after :: "(('k, 'p) mgr_input \<times> 'p manager) list \<Rightarrow> mgr_task \<Rightarrow> mgr_task" where
  "task_after [] t = t"
| "task_after ((inp, m) # rest) t = task_after rest (fst (mgr_window inp t m))"

lemma task_after_over: "mgr_left t \<le> length ims \<Longrightarrow> task_over (task_after ims t)"
proof (induction ims t rule: task_after.induct)
  case (2 inp m rest t)
  obtain t' m' where w: "mgr_window inp t m = (t', m')" by fastforce
  have "mgr_left t' \<le> length rest"
    using mgr_left_less[OF w] mgr_window_over[of t inp m] w 2(2)
    by (cases "task_over t") (auto simp: mgr_left_over[symmetric])
  then show ?case using 2(1) w by simp
qed (simp add: mgr_left_over)

lemma entry_left: "mgr_entry t \<Longrightarrow> mgr_left t \<le> 11"
  by (cases t rule: mgr_entry.cases) auto


lemma mgr_run_after:
  fixes inp :: "('k, 'p) mgr_input"
  shows "\<exists>ims :: (('k, 'p) mgr_input \<times> 'p manager) list. length ims = n \<and> fst (mgr_run n inp t m) = task_after ims t"
proof (induction n arbitrary: t m)
  case (Suc n)
  obtain t' m' where w: "mgr_window inp t m = (t', m')" by fastforce
  obtain ims :: "(('k, 'p) mgr_input \<times> 'p manager) list"
    where "length ims = n" "fst (mgr_run n inp t' m') = task_after ims t'" using Suc by blast
  then show ?case using w by (intro exI[of _ "(inp, m) # ims"]) simp
qed simp

lemma mgr_run_over:
  fixes inp :: "('k, 'p) mgr_input"
  assumes "mgr_left t \<le> n"
  shows "task_over (fst (mgr_run n inp t m))"
proof -
  obtain ims :: "(('k, 'p) mgr_input \<times> 'p manager) list"
    where "length ims = n" "fst (mgr_run n inp t m) = task_after ims t" using mgr_run_after by blast
  then show ?thesis using task_after_over[of t ims] assms by simp
qed

lemma mgr_result_over: "task_over (fst r) \<Longrightarrow> \<exists>x. fst (mgr_result r) = Some x"
  by (cases r; cases "fst r" rule: task_over.cases) (auto simp: mgr_result_def)

lemma operation_returns:
  "\<exists>r. fst (create_any inp cid request m) = Some r" "\<exists>r. fst (close_any inp cid expected m) = Some r"
  "\<exists>r. fst (close_pty_connection inp cid gen m) = Some r"
  unfolding create_any_def close_any_def close_pty_connection_def by (intro mgr_result_over mgr_run_over; simp)+

section \<open>Status events\<close>

definition agrees :: "'p manager \<Rightarrow> string \<Rightarrow> bool" where
  "agrees m cid \<longleftrightarrow> (map_of (mg_connections m) cid \<noteq> None \<longleftrightarrow> published_status cid (mg_events m) = Some Connected)"

fun solo_status :: "mgr_task \<Rightarrow> 'p manager \<Rightarrow> bool" where
  "solo_status (Purging pc cid conn k) m \<longleftrightarrow>
     map_of (mg_connections m) cid = None \<and> (\<forall>c. c \<noteq> cid \<longrightarrow> agrees m c)"
| "solo_status (Disconnecting cid conn k) m \<longleftrightarrow>
     map_of (mg_connections m) cid = None \<and> (\<forall>c. c \<noteq> cid \<longrightarrow> agrees m c)"
| "solo_status (ReplacePublish cid) m \<longleftrightarrow>
     map_of (mg_connections m) cid \<noteq> None \<and> (\<forall>c. c \<noteq> cid \<longrightarrow> agrees m c)"
| "solo_status t m \<longleftrightarrow> (\<forall>c. agrees m c)"

lemma agrees_cong:
  "mg_connections m' = mg_connections m \<Longrightarrow> mg_events m' = mg_events m \<Longrightarrow> agrees m' = agrees m"
  by (simp add: agrees_def fun_eq_iff)

lemma agrees_pending [simp]:
  "agrees (m\<lparr>mg_pending := x\<rparr>) = agrees m" "agrees (m\<lparr>mg_pending := x, mg_next_token := y\<rparr>) = agrees m"
  "agrees (m\<lparr>mg_pending := x, mg_cancelled := z\<rparr>) = agrees m" "agrees (m\<lparr>mg_ptys := r\<rparr>) = agrees m"
  "agrees (m\<lparr>mg_next_tunnel := n\<rparr>) = agrees m" "agrees (m\<lparr>mg_next_pty := n\<rparr>) = agrees m"
  "agrees (drop_tunnel tunnel m) = agrees m" "agrees (keep_keys inp m2 m) = agrees m"
  "agrees (clear_pending_connection cid m) = agrees m" "agrees (drop_connection inp conn m) = agrees m"
  by (rule agrees_cong; simp add: drop_connection_frame)+

lemma all_agrees:
  "All (agrees m) \<longleftrightarrow>
     (\<forall>c. (map_of (mg_connections m) c \<noteq> None) = (published_status c (mg_events m) = Some Connected))"
  by (simp add: agrees_def[abs_def])

lemma opens_agrees: "opens m r m' \<Longrightarrow> agrees m' = agrees m"
  by (rule agrees_cong) (simp_all add: opens_def)

lemma after_open_solo:
  "opens m r m1 \<Longrightarrow> after_open cid (r, m1) = (t', m') \<Longrightarrow> \<forall>c. agrees m c \<Longrightarrow> solo_status t' m'"
  by (cases r) (auto simp: after_open_def opens_agrees)

lemma start_disconnect_status [simp]:
  "solo_status (start_disconnect cid conn k) m \<longleftrightarrow>
     map_of (mg_connections m) cid = None \<and> (\<forall>c. c \<noteq> cid \<longrightarrow> agrees m c)"
  by (simp add: start_disconnect_def split: managed_connection.splits)

lemma after_task_status [simp]: "solo_status (after_task cid k) m \<longleftrightarrow> (\<forall>c. agrees m c)"
  by (cases k) simp_all

lemma disconnect_solo:
  assumes "disconnect_managed_connection inp cid conn m = (r, m')" and "mgr_inv (m, [t])" and "conn \<in># mgr_task_conns t"
    and "map_of (mg_connections m) cid = None" and "\<forall>c. c \<noteq> cid \<longrightarrow> agrees m c"
  shows "r = Inr () \<and> (\<forall>c. agrees m' c)"
proof -
  have "conn_ok m conn" using assms(2,3) by (simp add: mgr_inv_def all_conns_def)
  then have "mg_clients m (managed_handle conn) \<noteq> None" by (auto simp: conn_ok_def)
  then show ?thesis using disconnect_managed_frame[OF assms(1)] assms(4,5)
    by (auto simp: agrees_def published_status_append)
qed

lemma status_window:
  assumes w: "mgr_window inp t m = (t', m')" and inv: "mgr_inv (m, [t])" and s: "solo_status t m"
  shows "solo_status t' m'"
proof (cases t)
  case (Create cid req)
  show ?thesis
  proof (cases req)
    case (RSftp config)
    then show ?thesis using w s Create
      by (cases "open_sftp_client inp config m") (auto intro: after_open_solo dest: open_sftp_opens)
  next
    case (RFtp config)
    then show ?thesis using w s Create
      by (cases "open_ftp inp config m") (auto intro: after_open_solo dest: open_ftp_opens)
  next
    case (RDesktop request)
    then show ?thesis using w s Create
      by (cases "open_desktop request m") (auto intro: after_open_solo dest: open_desktop_opens)
  qed (use w s Create in \<open>auto split: sum.splits option.splits\<close>)
next
  case (Connecting cid token req)
  then show ?thesis using w s
    by (cases "open_cancellable inp req m")
       (auto simp: opens_agrees split: if_splits dest!: open_cancellable_opens)
next
  case (ReplaceRemove cid conn)
  then show ?thesis using w s by (auto simp: all_agrees agrees_def delete_conv' split: option.splits)
next
  case (Disconnecting cid conn k)
  obtain r m1 where d: "disconnect_managed_connection inp cid conn m = (r, m1)" by fastforce
  have "r = Inr () \<and> (\<forall>c. agrees m1 c)"
    by (rule disconnect_solo[OF d inv]) (use s Disconnecting in auto)
  then show ?thesis using w d Disconnecting by auto
next
  case (ReplaceInsert cid conn)
  then have e: "t' = ReplacePublish cid" "mg_connections m' = AList.update cid conn (mg_connections m)" "mg_events m' = mg_events m"
    using w by (auto simp: drop_connection_frame split: option.splits)
  then show ?thesis using s ReplaceInsert by (auto simp: all_agrees agrees_def update_conv')
next
  case (ReplacePublish cid)
  then have e: "t' = TaskDone" "m' = publish (ConnectionStatus cid Connected) m" using w by auto
  have "agrees m' c" for c
    using s ReplacePublish unfolding e(2)
    by (cases "c = cid") (auto simp: agrees_def publish_def published_status_append)
  then have "\<forall>c. agrees m' c" by blast
  then show ?thesis unfolding e(1) by simp
next
  case (Close cid expected)
  then show ?thesis using w s
    by (auto simp: take_connection_if_kind_def all_agrees agrees_def delete_conv' split: option.splits if_splits)
qed (use w s in \<open>auto simp: register_pending_connection_def cancel_pending_connection_def
      split: sum.splits option.splits prod.splits pty_pc.splits any_client.splits\<close>)

section \<open>Terminals\<close>

definition terminal_ok :: "'p manager \<Rightarrow> string \<Rightarrow> bool" where
  "terminal_ok m cid \<longleftrightarrow> (get_session cid (mg_ptys m) \<noteq> None \<longrightarrow> get_connection cid m \<noteq> None)"

fun terminal_work :: "pty_pc \<Rightarrow> 'p manager \<Rightarrow> bool" where
  "terminal_work (pty_pc.Start (Insert cid _)) m \<longleftrightarrow> get_connection cid m \<noteq> None"
| "terminal_work (InsertBumped cid _ _) m \<longleftrightarrow> get_connection cid m \<noteq> None"
| "terminal_work _ m \<longleftrightarrow> True"

fun solo_terminals :: "mgr_task \<Rightarrow> 'p manager \<Rightarrow> bool" where
  "solo_terminals (Purging pc cid conn k) m \<longleftrightarrow>
     map_of (mg_connections m) cid = None
   \<and> (pc = pty_pc.Start (Purge cid) \<and> (\<forall>c. c \<noteq> cid \<longrightarrow> terminal_ok m c) \<or> pc = PurgeTaken cid \<and> (\<forall>c. terminal_ok m c))"
| "solo_terminals (Disconnecting cid conn k) m \<longleftrightarrow> map_of (mg_connections m) cid = None \<and> (\<forall>c. terminal_ok m c)"
| "solo_terminals (ReplaceInsert cid conn) m \<longleftrightarrow> map_of (mg_connections m) cid = None \<and> (\<forall>c. terminal_ok m c)"
| "solo_terminals (PtyCancelOld cid _ _ _) m \<longleftrightarrow> get_connection cid m \<noteq> None \<and> (\<forall>c. terminal_ok m c)"
| "solo_terminals (PtyCreate cid _ _ _) m \<longleftrightarrow> get_connection cid m \<noteq> None \<and> (\<forall>c. terminal_ok m c)"
| "solo_terminals (PtyWork pc) m \<longleftrightarrow> terminal_work pc m \<and> (\<forall>c. terminal_ok m c)"
| "solo_terminals t m \<longleftrightarrow> (\<forall>c. terminal_ok m c)"

lemma get_connection_cong: "mg_connections m' = mg_connections m \<Longrightarrow> get_connection c m' = get_connection c m"
  by (simp add: get_connection_def)

lemma terminal_cong:
  "mg_connections m' = mg_connections m \<Longrightarrow> mg_ptys m' = mg_ptys m \<Longrightarrow> terminal_ok m' = terminal_ok m"
  by (simp add: terminal_ok_def fun_eq_iff get_connection_def)

lemma terminal_frame [simp]:
  "terminal_ok (m\<lparr>mg_pending := x\<rparr>) = terminal_ok m" "terminal_ok (m\<lparr>mg_pending := x, mg_next_token := y\<rparr>) = terminal_ok m"
  "terminal_ok (m\<lparr>mg_pending := x, mg_cancelled := z\<rparr>) = terminal_ok m"
  "terminal_ok (m\<lparr>mg_next_tunnel := n\<rparr>) = terminal_ok m" "terminal_ok (m\<lparr>mg_next_pty := n\<rparr>) = terminal_ok m"
  "terminal_ok (drop_tunnel tunnel m) = terminal_ok m" "terminal_ok (keep_keys inp m2 m) = terminal_ok m"
  "terminal_ok (clear_pending_connection cid m) = terminal_ok m" "terminal_ok (publish e m) = terminal_ok m"
  by (rule terminal_cong; simp)+

lemma get_connection_ptys [simp]: "get_connection c (m\<lparr>mg_ptys := r\<rparr>) = get_connection c m"
  by (rule get_connection_cong) simp

lemma get_connection_pty_count [simp]: "get_connection c (m\<lparr>mg_next_pty := n\<rparr>) = get_connection c m"
  by (rule get_connection_cong) simp

lemma all_terminals: "All (terminal_ok m) \<longleftrightarrow> (\<forall>c. sessions (mg_ptys m) c \<noteq> None \<longrightarrow> get_connection c m \<noteq> None)"
  by (simp add: terminal_ok_def[abs_def] get_session_def)

lemma opens_terminal: "opens m r m' \<Longrightarrow> terminal_ok m' = terminal_ok m"
  by (rule terminal_cong) (simp_all add: opens_def)

lemma after_open_terminals:
  "opens m r m1 \<Longrightarrow> after_open cid (r, m1) = (t', m') \<Longrightarrow> \<forall>c. terminal_ok m c \<Longrightarrow> solo_terminals t' m'"
  by (cases r) (auto simp: after_open_def opens_terminal)

lemma after_task_terminals [simp]:
  "map_of (mg_connections m) cid = None \<Longrightarrow> solo_terminals (after_task cid k) m \<longleftrightarrow> (\<forall>c. terminal_ok m c)"
  by (cases k) simp_all

text \<open>Taking a connection out: a terminal of it is purged next, and only an SSH connection has one.\<close>

lemma start_disconnect_terminals:
  assumes "\<forall>c. terminal_ok m c" and "map_of (mg_connections m) cid = Some conn"
  shows "solo_terminals (start_disconnect cid conn k) (m\<lparr>mg_connections := AList.delete cid (mg_connections m)\<rparr>)"
proof -
  let ?m = "m\<lparr>mg_connections := AList.delete cid (mg_connections m)\<rparr>"
  have others: "terminal_ok ?m c" if "c \<noteq> cid" for c
    using assms(1)[rule_format, of c] that by (simp add: terminal_ok_def get_connection_def delete_conv')
  moreover have "terminal_ok ?m cid" if "\<And>h. conn \<noteq> ManagedSsh h"
    using assms(1)[rule_format, of cid] assms(2) that
    by (simp add: terminal_ok_def get_connection_def split: managed_connection.splits)
  ultimately have "\<forall>c. terminal_ok ?m c" if "\<And>h. conn \<noteq> ManagedSsh h" using that by metis
  then show ?thesis using others
    by (auto simp: start_disconnect_def delete_conv' split: managed_connection.splits)
qed

lemma terminal_work_window:
  assumes "window pc (mg_ptys m) = (pc', r)" and "terminal_work pc m" and "\<forall>c. terminal_ok m c"
  shows "terminal_work pc' (m\<lparr>mg_ptys := r\<rparr>) \<and> (\<forall>c. terminal_ok (m\<lparr>mg_ptys := r\<rparr>) c)"
proof (cases pc)
  case (Start op)
  then show ?thesis using assms
    by (cases op) (auto simp: terminal_ok_def get_session_def bump_generation_def Let_def split: if_splits)
qed (use assms in \<open>auto simp: terminal_ok_def get_session_def put_session_def drop_generation_def split: if_splits\<close>)

lemma terminals_window:
  assumes w: "mgr_window inp t m = (t', m')" and s: "solo_terminals t m"
  shows "solo_terminals t' m'"
proof (cases t)
  case (Create cid req)
  show ?thesis
  proof (cases req)
    case (RSftp config)
    then show ?thesis using w s Create
      by (cases "open_sftp_client inp config m") (auto intro: after_open_terminals dest: open_sftp_opens)
  next
    case (RFtp config)
    then show ?thesis using w s Create
      by (cases "open_ftp inp config m") (auto intro: after_open_terminals dest: open_ftp_opens)
  next
    case (RDesktop request)
    then show ?thesis using w s Create
      by (cases "open_desktop request m") (auto intro: after_open_terminals dest: open_desktop_opens)
  qed (use w s Create in \<open>auto split: sum.splits option.splits\<close>)
next
  case (Connecting cid token req)
  then show ?thesis using w s
    by (cases "open_cancellable inp req m")
       (auto simp: opens_terminal split: if_splits dest!: open_cancellable_opens)
next
  case (ReplaceRemove cid conn)
  then show ?thesis using w s start_disconnect_terminals[of m cid]
    by (auto split: option.splits)
next
  case (Purging pc cid conn k)
  then show ?thesis using w s
    by (auto simp: all_terminals terminal_ok_def get_session_def drop_generation_def split: if_splits)
next
  case (Disconnecting cid conn k)
  obtain r m1 where d: "disconnect_managed_connection inp cid conn m = (r, m1)" by fastforce
  note frame = disconnect_managed_frame(1,2,4)[OF d]
  have "terminal_ok m1 = terminal_ok m" by (rule terminal_cong[OF frame(2,3)])
  then show ?thesis using w s d frame Disconnecting by auto
next
  case (ReplaceInsert cid conn)
  then have e: "t' = ReplacePublish cid" "m' = m\<lparr>mg_connections := AList.update cid conn (mg_connections m)\<rparr>"
    using w s by auto
  have "terminal_ok m' c" for c
  proof -
    have "terminal_ok m c" "map_of (mg_connections m) cid = None" using s ReplaceInsert by simp_all
    then show ?thesis unfolding e(2)
      by (cases "c = cid") (simp_all add: terminal_ok_def get_connection_def update_conv')
  qed
  then have "\<forall>c. terminal_ok m' c" by blast
  then show ?thesis unfolding e(1) by simp
next
  case (Close cid expected)
  then show ?thesis using w s start_disconnect_terminals[of m cid]
    by (auto simp: take_connection_if_kind_def split: option.splits if_splits)
next
  case (PtyCancelOld cid h cols rows)
  then show ?thesis using w s
    by (auto simp: all_terminals terminal_ok_def get_session_def cancel_existing_def split: if_splits)
next
  case (PtyCreate cid h cols rows)
  then show ?thesis using w s
    by (auto simp: create_pty_session_def split: option.splits any_client.splits sum.splits)
next
  case (PtyWork pc)
  then show ?thesis using w s terminal_work_window[of pc m] by (auto split: prod.splits)
qed (use w s in \<open>auto simp: register_pending_connection_def cancel_pending_connection_def
      split: sum.splits option.splits prod.splits\<close>)

section \<open>Operations in sequence\<close>

lemma solo_inv:
  assumes "mgr_window inp t m = (t', m')" and "mgr_inv (m, [t])"
  shows "mgr_inv (m', [t'])"
  using mgr_turn_inv[OF assms(2), of 0 "(inp, False)" t' m'] assms(1) by (simp add: mgr_turn_def)

lemma solo_run:
  "mgr_inv (m, [t]) \<Longrightarrow> solo_status t m \<Longrightarrow> solo_terminals t m \<Longrightarrow> mgr_run n inp t m = (t', m') \<Longrightarrow>
   mgr_inv (m', [t']) \<and> solo_status t' m' \<and> solo_terminals t' m'"
proof (induction n arbitrary: t m)
  case (Suc n)
  obtain t1 m1 where w: "mgr_window inp t m = (t1, m1)" by fastforce
  show ?case
    using Suc.IH[OF solo_inv[OF w Suc.prems(1)] status_window[OF w Suc.prems(1,2)] terminals_window[OF w Suc.prems(3)]]
      Suc.prems(4) w by simp
qed simp

text \<open>Operations one after the other, each with the answers of its own time.\<close>

definition mgr_ops :: "(('k, 'p) mgr_input \<times> mgr_task) list \<Rightarrow> 'p manager \<Rightarrow> 'p manager" where
  "mgr_ops ops m = fold (\<lambda>(inp, t) m. if mgr_entry t then snd (mgr_run 11 inp t m) else m) ops m"

definition settled_ok :: "'p manager \<Rightarrow> bool" where
  "settled_ok m \<longleftrightarrow> mgr_inv (m, []) \<and> (\<forall>c. agrees m c) \<and> (\<forall>c. terminal_ok m c)"

lemma entry_solo: "mgr_entry t \<Longrightarrow> settled_ok m \<Longrightarrow> mgr_inv (m, [t]) \<and> solo_status t m \<and> solo_terminals t m"
  using mgr_inv_start[of t m "[]"] by (cases t rule: mgr_entry.cases) (auto simp: settled_ok_def)

lemma over_settled: "task_over t \<Longrightarrow> mgr_inv (m, [t]) \<Longrightarrow> solo_status t m \<Longrightarrow> solo_terminals t m \<Longrightarrow> settled_ok m"
  by (cases t rule: task_over.cases)
     (auto simp: settled_ok_def mgr_inv_def all_conns_def all_tunnels_def mgr_task_tunnels_def)

lemma operation_settles:
  assumes "mgr_entry t" and "settled_ok m"
  shows "settled_ok (snd (mgr_run 11 inp t m))"
proof -
  obtain t' m' where r: "mgr_run 11 inp t m = (t', m')" by fastforce
  have "task_over t'" using mgr_run_over[of t 11 inp m] r entry_left[OF assms(1)] by simp
  then show ?thesis using solo_run[OF _ _ _ r] entry_solo[OF assms] over_settled[of t' m'] r by simp
qed

lemma mgr_ops_settled: "settled_ok m \<Longrightarrow> settled_ok (mgr_ops ops m)"
  by (induction ops arbitrary: m) (auto simp: mgr_ops_def operation_settles)

lemma new_manager_settled: "settled_ok (with_host_keys store d)"
proof -
  have "mgr_inv (with_host_keys store d, [])" by (rule mgr_inv_init) (auto simp: mgr_init_def)
  then show ?thesis
    by (simp add: settled_ok_def agrees_def terminal_ok_def get_session_def with_host_keys_def new_registry_def)
qed

text \<open>
  C11. When operations follow each other, events and terminals describe the registry: after any
  sequence of connects of every protocol, closes, cancellations and terminals, successful or not, a
  connection is registered exactly when the last status published for it is \<open>Connected\<close>; and a terminal
  can be looked up only under the id of a registered SSH connection: closing the connection, or
  connecting the id anew with any protocol, ends it.
\<close>

theorem bookkeeping_matches_registry:
  "(map_of (mg_connections (mgr_ops ops (with_host_keys store d))) cid \<noteq> None
      \<longleftrightarrow> published_status cid (mg_events (mgr_ops ops (with_host_keys store d))) = Some Connected)
   \<and> (get_pty_session cid (mgr_ops ops (with_host_keys store d)) = None
      \<or> connection_kind cid (mgr_ops ops (with_host_keys store d)) = Some KindSsh)"
proof -
  let ?m = "mgr_ops ops (with_host_keys store d)"
  note ok = mgr_ops_settled[OF new_manager_settled, of ops store d]
  have "map_of (mg_connections ?m) cid \<noteq> None \<longleftrightarrow> published_status cid (mg_events ?m) = Some Connected"
    using ok by (simp add: settled_ok_def agrees_def)
  moreover have "connection_kind cid ?m = Some KindSsh" if "get_pty_session cid ?m = Some pty" for pty
  proof -
    have "get_connection cid ?m \<noteq> None"
      using ok that by (auto simp: settled_ok_def terminal_ok_def get_pty_session_def)
    then show ?thesis
      by (auto simp: get_connection_def connection_kind_def split: option.splits managed_connection.splits)
  qed
  ultimately show ?thesis by (cases "get_pty_session cid ?m") simp_all
qed

end
