(* ===== verification/ManagerSpec.thy ===== *)
theory ManagerSpec
  imports ManagerStatus
begin

text \<open>
  The registry the connection manager implements: a map from connection ids to protocols, with a
  connect that adds an entry or changes nothing and a close that checks the protocol. The operations
  of \<open>Manager\<close>, run one after the other, refine it.
\<close>

section \<open>The specification\<close>

type_synonym registry = "string \<Rightarrow> protocol_kind option"

definition spec_create :: "string \<Rightarrow> protocol_kind \<Rightarrow> bool \<Rightarrow> registry \<Rightarrow> registry" where
  "spec_create cid kind ok r = (if ok then r(cid \<mapsto> kind) else r)"

fun slot_accepts :: "slot_kind \<Rightarrow> protocol_kind \<Rightarrow> bool" where
  "slot_accepts SlotSsh k = (k = KindSsh)"
| "slot_accepts SlotSftp k = (k = KindSftp)"
| "slot_accepts SlotFtp k = (k = KindFtp)"
| "slot_accepts SlotDesktop k = (k = KindRdp \<or> k = KindVnc)"
| "slot_accepts SlotPostgres k = (k = KindPostgres)"

definition spec_close :: "string \<Rightarrow> slot_kind \<Rightarrow> registry \<Rightarrow> bool \<times> registry" where
  "spec_close cid slot r =
     (case r cid of
        None \<Rightarrow> (True, r)
      | Some kind \<Rightarrow> if slot_accepts slot kind then (True, r(cid := None)) else (False, r))"

section \<open>The abstraction\<close>

definition registry_of :: "'p manager \<Rightarrow> registry" where
  "registry_of m = (\<lambda>cid. connection_kind cid m)"

fun request_kind :: "connect_request \<Rightarrow> protocol_kind" where
  "request_kind (RSsh _) = KindSsh"
| "request_kind (RSftp _) = KindSftp"
| "request_kind (RFtp _) = KindFtp"
| "request_kind (RDesktop request) = (case dr_protocol request of RdpKind \<Rightarrow> KindRdp | VncKind \<Rightarrow> KindVnc)"
| "request_kind (RPostgres _ _) = KindPostgres"

fun cancellable_kind :: "cancellable \<Rightarrow> protocol_kind" where
  "cancellable_kind (OpenSsh _) = KindSsh"
| "cancellable_kind (OpenPool _ _) = KindPostgres"

lemma open_kinds:
  "open_ssh inp c1 m = (Inr conn, m') \<Longrightarrow> managed_kind conn = KindSsh"
  "open_sftp_client inp c2 m = (Inr conn, m') \<Longrightarrow> managed_kind conn = KindSftp"
  "open_ftp inp c3 m = (Inr conn, m') \<Longrightarrow> managed_kind conn = KindFtp"
  "open_desktop req m = (Inr conn, m') \<Longrightarrow> managed_kind conn = request_kind (RDesktop req)"
  "open_pool inp c4 tunnel m = (Inr conn, m') \<Longrightarrow> managed_kind conn = KindPostgres"
  by (auto simp: open_ssh_def open_sftp_client_def open_ftp_def open_desktop_def open_pool_def register_client_def
      Let_def split: sum.splits prod.splits desktop_kind.splits)

lemma open_cancellable_kind:
  "open_cancellable inp req m = (Inr conn, m') \<Longrightarrow> managed_kind conn = cancellable_kind req"
  by (cases req) (auto dest: open_kinds)

lemma registry_cong: "mg_connections m' = mg_connections m \<Longrightarrow> registry_of m' = registry_of m"
  by (simp add: registry_of_def connection_kind_def)

lemma registry_delete: "registry_of (m\<lparr>mg_connections := AList.delete cid (mg_connections m)\<rparr>) = (registry_of m)(cid := None)"
  by (auto simp: registry_of_def connection_kind_def delete_conv' fun_eq_iff)

lemma registry_update:
  "registry_of (m\<lparr>mg_connections := AList.update cid conn (mg_connections m)\<rparr>) = (registry_of m)(cid \<mapsto> managed_kind conn)"
  by (auto simp: registry_of_def connection_kind_def update_conv' fun_eq_iff)

lemma registry_absent: "map_of (mg_connections m) cid = None \<Longrightarrow> (registry_of m)(cid := None) = registry_of m"
  by (auto simp: registry_of_def connection_kind_def fun_eq_iff)

section \<open>A connect, window by window\<close>

text \<open>Where the registry is at each point of a connect that began with \<open>r\<close>.\<close>

fun tracks :: "registry \<Rightarrow> string \<Rightarrow> protocol_kind \<Rightarrow> mgr_task \<Rightarrow> 'p manager \<Rightarrow> bool" where
  "tracks r cid k (Create c req) m = (c = cid \<and> request_kind req = k \<and> registry_of m = r)"
| "tracks r cid k (OpenTunnel c _ _) m = (c = cid \<and> k = KindPostgres \<and> registry_of m = r)"
| "tracks r cid k (RegisterPending c req) m = (c = cid \<and> cancellable_kind req = k \<and> registry_of m = r)"
| "tracks r cid k (Connecting c _ req) m = (c = cid \<and> cancellable_kind req = k \<and> registry_of m = r)"
| "tracks r cid k (ClearPending c _ res) m =
     (c = cid \<and> registry_of m = r \<and> (case res of Inl _ \<Rightarrow> True | Inr conn \<Rightarrow> managed_kind conn = k))"
| "tracks r cid k (ReplaceRemove c conn) m = (c = cid \<and> managed_kind conn = k \<and> registry_of m = r)"
| "tracks r cid k (Purging _ c _ (ThenInsert conn)) m =
     (c = cid \<and> managed_kind conn = k \<and> registry_of m = r(cid := None))"
| "tracks r cid k (Disconnecting c _ (ThenInsert conn)) m =
     (c = cid \<and> managed_kind conn = k \<and> registry_of m = r(cid := None))"
| "tracks r cid k (ReplaceInsert c conn) m = (c = cid \<and> managed_kind conn = k \<and> registry_of m = r(cid := None))"
| "tracks r cid k (ReplacePublish c) m = (c = cid \<and> registry_of m = r(cid \<mapsto> k))"
| "tracks r cid k TaskDone m = (registry_of m = r(cid \<mapsto> k))"
| "tracks r cid k (TaskFailed _) m = (registry_of m = r)"
| "tracks r cid k _ m = False"

lemma start_disconnect_tracks [simp]:
  "tracks r cid k (start_disconnect c previous (ThenInsert conn)) m \<longleftrightarrow>
     c = cid \<and> managed_kind conn = k \<and> registry_of m = r(cid := None)"
  by (simp add: start_disconnect_def split: managed_connection.splits)

lemma after_open_tracks:
  assumes "opens m res m1" and "after_open cid (res, m1) = (t', m')" and "registry_of m = r"
    and "\<And>conn. res = Inr conn \<Longrightarrow> managed_kind conn = k"
  shows "tracks r cid k t' m'"
  using assms registry_cong[of m1 m] by (cases res) (auto simp: after_open_def opens_def)

lemma tracks_window:
  assumes w: "mgr_window inp t m = (t', m')" and t: "tracks r cid k t m"
  shows "tracks r cid k t' m'"
proof (cases t)
  case (Create c req)
  then have c: "c = cid" and r: "registry_of m = r" and k: "request_kind req = k" using t by auto
  show ?thesis
  proof (cases req)
    case (RSftp config)
    obtain res m1 where o: "open_sftp_client inp config m = (res, m1)" by fastforce
    show ?thesis
      by (rule after_open_tracks[OF open_sftp_opens[OF o]])
         (use w Create RSftp o c r k open_kinds(2) in auto)
  next
    case (RFtp config)
    obtain res m1 where o: "open_ftp inp config m = (res, m1)" by fastforce
    show ?thesis
      by (rule after_open_tracks[OF open_ftp_opens[OF o]])
         (use w Create RFtp o c r k open_kinds(3) in auto)
  next
    case (RDesktop request)
    obtain res m1 where o: "open_desktop request m = (res, m1)" by fastforce
    show ?thesis
      by (rule after_open_tracks[OF open_desktop_opens[OF o]])
         (use w Create RDesktop o c r k open_kinds(4) in auto)
  qed (use w Create c r k in \<open>auto split: sum.splits option.splits\<close>)
next
  case (OpenTunnel c config tr)
  then show ?thesis using w t registry_cong[of m' m] by (auto split: option.splits sum.splits)
next
  case (RegisterPending c req)
  then show ?thesis using w t by (auto simp: register_pending_connection_def registry_of_def connection_kind_def)
next
  case (Connecting c token req)
  obtain res m1 where o: "open_cancellable inp req m = (res, m1)" by fastforce
  have "registry_of m1 = registry_of m"
    using open_cancellable_opens[OF o] by (intro registry_cong) (simp add: opens_def)
  then show ?thesis using w t Connecting o registry_cong[of "keep_keys inp m1 m" m]
    by (cases res) (auto split: if_splits dest: open_cancellable_kind)
next
  case (ClearPending c req res)
  then show ?thesis using w t registry_cong[of m' m] by (auto split: sum.splits)
next
  case (ReplaceRemove c conn)
  then show ?thesis using w t registry_absent[of m cid] registry_delete[of cid m] by (auto split: option.splits)
next
  case (Purging pc c previous after)
  then show ?thesis using w t registry_cong[of m' m] by (cases after) (auto split: prod.splits pty_pc.splits)
next
  case (Disconnecting c previous after)
  obtain res m1 where d: "disconnect_managed_connection inp c previous m = (res, m1)" by fastforce
  then show ?thesis using w t Disconnecting disconnect_managed_frame(1,2)[OF d] registry_cong[of m1 m]
    by (cases after) auto
next
  case (ReplaceInsert c conn)
  then show ?thesis using w t registry_update[of c conn m]
      registry_cong[of m' "m\<lparr>mg_connections := AList.update c conn (mg_connections m)\<rparr>"]
    by (auto simp: drop_connection_frame split: option.splits)
next
  case (ReplacePublish c)
  then show ?thesis using w t registry_cong[of m' m] by (auto simp: publish_def)
qed (use w t in auto)

lemma tracks_run:
  "tracks r cid k t m \<Longrightarrow> mgr_run n inp t m = (t', m') \<Longrightarrow> tracks r cid k t' m'"
proof (induction n arbitrary: t m)
  case (Suc n)
  obtain t1 m1 where "mgr_window inp t m = (t1, m1)" by fastforce
  then show ?case using Suc tracks_window by fastforce
qed simp

section \<open>The refinement\<close>

lemma mgr_ops_inv: "mgr_inv (mgr_ops ops (with_host_keys store d), [])"
  using mgr_ops_settled[OF new_manager_settled, of ops store d] by (simp add: settled_ok_def)

lemma create_refines:
  assumes "create_any inp cid request m = (res, m')"
  shows "res \<noteq> None \<and> registry_of m' = spec_create cid (request_kind request) (res = Some (Inr ())) (registry_of m)"
proof -
  obtain t' m1 where run: "mgr_run 11 inp (Create cid request) m = (t', m1)" by fastforce
  have "tracks (registry_of m) cid (request_kind request) t' m1"
    by (rule tracks_run[OF _ run]) simp
  moreover have "task_over t'" using mgr_run_over[of "Create cid request" 11 inp m] run by simp
  ultimately show ?thesis using assms run
    by (cases t') (auto simp: create_any_def mgr_result_def spec_create_def)
qed

lemma slot_accepts_matches: "tag_matches conn c \<Longrightarrow> slot_matches slot conn = slot_accepts slot (managed_kind conn)"
  by (cases "(conn, c)" rule: tag_matches.cases; cases slot) auto

text \<open>A close that has taken its connection out.\<close>

fun closing :: "registry \<Rightarrow> mgr_task \<Rightarrow> 'p manager \<Rightarrow> bool" where
  "closing r (Purging _ _ _ ThenReturn) m = (registry_of m = r)"
| "closing r (Disconnecting _ _ ThenReturn) m = (registry_of m = r)"
| "closing r TaskDone m = (registry_of m = r)"
| "closing r _ m = False"

lemma closing_window:
  assumes "mgr_window inp t m = (t', m')" and "closing r t m"
  shows "closing r t' m'"
proof (cases t)
  case (Purging pc c conn k)
  then show ?thesis using assms registry_cong[of m' m] by (cases k) (auto split: prod.splits pty_pc.splits)
next
  case (Disconnecting c conn k)
  obtain res m1 where d: "disconnect_managed_connection inp c conn m = (res, m1)" by fastforce
  then show ?thesis using assms Disconnecting disconnect_managed_frame(1,2)[OF d] registry_cong[of m1 m]
    by (cases k) auto
qed (use assms in auto)

lemma closing_run: "closing r t m \<Longrightarrow> mgr_run n inp t m = (t', m') \<Longrightarrow> closing r t' m'"
proof (induction n arbitrary: t m)
  case (Suc n)
  obtain t1 m1 where "mgr_window inp t m = (t1, m1)" by fastforce
  then show ?case using Suc closing_window by fastforce
qed simp

lemma close_refines:
  assumes "mgr_inv (m, [])" and "close_any inp cid slot m = (res, m')"
  shows "res \<noteq> None \<and> (res = Some (Inr ()), registry_of m') = spec_close cid slot (registry_of m)"
proof (cases "map_of (mg_connections m) cid")
  case None
  then show ?thesis using assms(2)
    by (auto simp: close_any_def mgr_result_def eval_nat_numeral take_connection_if_kind_def spec_close_def
        registry_of_def connection_kind_def)
next
  case (Some conn)
  have "conn_ok m conn" using assms(1) registered_in_all[OF Some] by (simp add: mgr_inv_def)
  then have acc: "slot_matches slot conn = slot_accepts slot (managed_kind conn)"
    using slot_accepts_matches unfolding conn_ok_def by blast
  have reg: "registry_of m cid = Some (managed_kind conn)" using Some by (simp add: registry_of_def connection_kind_def)
  obtain t' m1 where run: "mgr_run 11 inp (Close cid slot) m = (t', m1)" by fastforce
  then have over: "task_over t'" using mgr_run_over[of "Close cid slot" 11 inp m] by simp
  show ?thesis
  proof (cases "slot_matches slot conn")
    case False
    then show ?thesis using assms(2) Some acc reg
      by (auto simp: close_any_def mgr_result_def eval_nat_numeral take_connection_if_kind_def spec_close_def)
  next
    case True
    let ?m1 = "m\<lparr>mg_connections := AList.delete cid (mg_connections m)\<rparr>"
    have "mgr_run 11 inp (Close cid slot) m = mgr_run 10 inp (start_disconnect cid conn ThenReturn) ?m1"
      using Some True mgr_run.simps(2)[of 10 inp "Close cid slot" m] by (simp add: take_connection_if_kind_def)
    then have "closing ((registry_of m)(cid := None)) t' m1"
      using run closing_run[of _ "start_disconnect cid conn ThenReturn" ?m1 10 inp] registry_delete[of cid m]
      by (simp add: start_disconnect_def split: managed_connection.splits)
    then show ?thesis using assms(2) run over True acc reg
      by (cases t' rule: task_over.cases) (auto simp: close_any_def mgr_result_def spec_close_def)
  qed
qed

text \<open>
  C7. The manager refines the registry: after any sequence of operations, a connect of any protocol
  returns and either adds or replaces the entry of its id with its protocol, or fails and leaves the
  registry as it was; a close returns and does what the specification does, its success included.
\<close>

theorem operations_refine_registry:
  fixes inp :: "('k, 'p) mgr_input" and ops :: "(('k, 'p) mgr_input \<times> mgr_task) list"
  shows "let m = mgr_ops ops (with_host_keys store d) in
    (\<exists>res m'. create_any inp cid request m = (Some res, m')
       \<and> registry_of m' = spec_create cid (request_kind request) (res = Inr ()) (registry_of m))
    \<and> (\<exists>res m'. close_any inp cid slot m = (Some res, m')
       \<and> (res = Inr (), registry_of m') = spec_close cid slot (registry_of m))"
proof -
  define m where "m = mgr_ops ops (with_host_keys store d)"
  obtain res m1 where c: "create_any inp cid request m = (res, m1)" by fastforce
  obtain res2 m2 where c2: "close_any inp cid slot m = (res2, m2)" by fastforce
  have "mgr_inv (m, [])" unfolding m_def by (rule mgr_ops_inv)
  from close_refines[OF this c2] create_refines[OF c] c c2 show ?thesis
    unfolding Let_def m_def[symmetric] by (cases res; cases res2) auto
qed

end
