(* ===== verification/ManagerOwn.thy ===== *)
theory ManagerOwn
  imports ManagerInv
begin

text \<open>
  What the ownership of clients and tunnels gives: nothing leaks; and where the sessions of the
  registered SSH and SFTP connections come from.
\<close>

section \<open>Leaks\<close>

lemma conns_tunnels_member: "k \<in># conns_tunnels cs \<longleftrightarrow> (\<exists>c\<in>#cs. k \<in> set (tunnel_token (tunnel_of c)))"
  by (induction cs) auto

lemma tunnel_token_pool: "k \<in> set (tunnel_token (tunnel_of c)) \<longleftrightarrow> (\<exists>h t. c = ManagedPostgres h (Some t) \<and> tn_cancel t = k)"
  by (cases c rule: tunnel_of.cases; cases "tunnel_of c") auto

lemma registered_tunnel_in_all:
  "map_of (mg_connections m) cid = Some (ManagedPostgres h (Some t)) \<Longrightarrow> tn_cancel t \<in># all_tunnels (m, ts)"
  using map_of_SomeD[of "mg_connections m" cid]
  by (force simp: all_tunnels_def mgr_tunnels_def conns_tunnels_member mgr_conns_def)

lemma registered_conn: "mgr_valid m \<Longrightarrow> c \<in># mgr_conns m \<Longrightarrow> \<exists>cid. map_of (mg_connections m) cid = Some c"
  using map_of_is_SomeI[of "mg_connections m" _ c] by (auto simp: mgr_valid_def mgr_conns_def)

lemma held_when_over:
  assumes inv: "mgr_inv (m, ts)" and over: "list_all task_over ts"
  shows "h < mg_next m \<Longrightarrow> h \<notin> set (mg_released m) \<Longrightarrow>
      \<exists>cid conn. map_of (mg_connections m) cid = Some conn \<and> managed_handle conn = h"
    and "k < mg_next_tunnel m \<Longrightarrow> k \<notin> set (mg_tunnels_closed m) \<Longrightarrow>
      \<exists>cid h t. map_of (mg_connections m) cid = Some (ManagedPostgres h (Some t)) \<and> tn_cancel t = k"
proof -
  have "sum_list (map mgr_task_conns ts) = {#}" "sum_list (map mgr_task_tunnels ts) = {#}"
    using over by (induction ts) (auto simp: mgr_task_tunnels_def dest: task_over_holds_nothing)
  then have all: "all_conns (m, ts) = mgr_conns m" "all_tunnels (m, ts) = conns_tunnels (mgr_conns m)"
    by (simp_all add: all_conns_def all_tunnels_def mgr_tunnels_def)
  have v: "mgr_valid m" and clients: "accounted (image_mset managed_handle (mgr_conns m)) (mg_next m) (set (mg_released m))"
    and tunnels: "accounted (conns_tunnels (mgr_conns m)) (mg_next_tunnel m) (set (mg_tunnels_closed m))"
    using inv by (simp_all add: mgr_inv_def all)
  show "\<exists>cid conn. map_of (mg_connections m) cid = Some conn \<and> managed_handle conn = h"
    if "h < mg_next m" "h \<notin> set (mg_released m)"
    using accounted_iff[OF clients, of h] that registered_conn[OF v] by fastforce
  show "\<exists>cid h t. map_of (mg_connections m) cid = Some (ManagedPostgres h (Some t)) \<and> tn_cancel t = k"
    if "k < mg_next_tunnel m" "k \<notin> set (mg_tunnels_closed m)"
    using accounted_iff[OF tunnels, of k] that registered_conn[OF v]
    by (fastforce simp: conns_tunnels_member tunnel_token_pool)
qed

text \<open>
  C8. Nothing leaks. In every interleaving the tunnel of a registered pool is open; and once all
  tasks have returned or been dropped, every client the manager has not let go of is registered and
  every open tunnel belongs to a registered pool.
\<close>

theorem nothing_leaks:
  assumes "reach mgr_init (mgr_step env) (m, ts)"
  shows "(\<forall>cid h t. map_of (mg_connections m) cid = Some (ManagedPostgres h (Some t)) \<longrightarrow>
      tn_cancel t < mg_next_tunnel m \<and> tn_cancel t \<notin> set (mg_tunnels_closed m))
    \<and> (list_all task_over ts \<longrightarrow>
        (\<forall>h<mg_next m. h \<notin> set (mg_released m) \<longrightarrow>
           (\<exists>cid conn. map_of (mg_connections m) cid = Some conn \<and> managed_handle conn = h))
      \<and> (\<forall>k<mg_next_tunnel m. k \<notin> set (mg_tunnels_closed m) \<longrightarrow>
           (\<exists>cid h t. map_of (mg_connections m) cid = Some (ManagedPostgres h (Some t)) \<and> tn_cancel t = k)))"
proof -
  have inv: "mgr_inv (m, ts)" by (rule mgr_sys.reach_inv[OF assms])
  then have tunnels: "accounted (all_tunnels (m, ts)) (mg_next_tunnel m) (set (mg_tunnels_closed m))"
    by (simp add: mgr_inv_def)
  show ?thesis
    using accounted_owned[OF tunnels registered_tunnel_in_all] held_when_over[OF inv] by blast
qed

section \<open>Where sessions come from\<close>

text \<open>
  A session is trusted when it came out of a handshake of this manager, in which the host-key store
  accepted the key the server offered, and was then authenticated.
\<close>

definition session_trusted :: "('k, 'p) mgr_input set \<Rightarrow> 'p ssh_session \<Rightarrow> bool" where
  "session_trusted env s \<longleftrightarrow>
     (\<exists>inp\<in>env. \<exists>m ts host port username auth key cl store' d'.
        reach mgr_init (mgr_step env) (m, ts)
      \<and> attempt (mi_ssh inp) handshake_config host port = OffersKey key (Established s)
      \<and> check_server_key (keys (mi_ssh inp)) key (new_client host port) (mg_host_keys m) (mg_disk m)
          = (Inr True, cl, store', d')
      \<and> authenticate (mi_ssh inp) s username auth = Inr True)"

fun client_trusted :: "('k, 'p) mgr_input set \<Rightarrow> 'p any_client \<Rightarrow> bool" where
  "client_trusted env (CSsh c) = (\<forall>s. sc_session c = Some s \<longrightarrow> session_trusted env s)"
| "client_trusted env (CSftp c) = (\<forall>s. sfc_session c = Some s \<longrightarrow> session_trusted env s)"
| "client_trusted env _ = True"

lemma connect_trusted:
  assumes "reach mgr_init (mgr_step env) (m, ts)" and "inp \<in> env"
    and "connect_authenticated (mi_ssh inp) host port username auth timeout (mg_host_keys m) (mg_disk m) = (Inr s, store', d')"
  shows "session_trusted env s"
  using session_handshake[OF assms(3)] assms(1,2) unfolding session_trusted_def by blast

lemma ssh_connect_trusted:
  assumes "reach mgr_init (mgr_step env) (m, ts)" and "inp \<in> env"
    and "ssh_connect (mi_ssh inp) config new_ssh_client (mg_host_keys m) (mg_disk m) = (Inr u, c, store', d')"
  shows "client_trusted env (CSsh c)"
  using assms(3) by (auto simp: ssh_connect_def split: sum.splits prod.splits intro: connect_trusted[OF assms(1,2)])

lemma sftp_connect_trusted:
  assumes "reach mgr_init (mgr_step env) (m, ts)" and "inp \<in> env"
    and "sftp_connect (mi_ssh inp) config (mg_host_keys m) (mg_disk m) = (Inr c, store', d')"
  shows "client_trusted env (CSftp c)"
  using assms(3)
  by (auto simp: sftp_connect_def and_then_Inr_iff split: sum.splits prod.splits intro: connect_trusted[OF assms(1,2)])

lemma disconnect_client_trusted: "client_trusted env (snd (disconnect_client c))"
  by (cases c) (auto simp: ssh_disconnect_def sftp_disconnect_def split: prod.splits)

lemma drop_client_trusted: "client_trusted env c \<Longrightarrow> client_trusted env (drop_client c)"
  by (cases c) auto

definition clients_trusted :: "('k, 'p) mgr_input set \<Rightarrow> 'p manager \<Rightarrow> bool" where
  "clients_trusted env m \<longleftrightarrow> (\<forall>h c. mg_clients m h = Some c \<longrightarrow> client_trusted env c)"

lemma trusted_upd:
  "clients_trusted env m \<Longrightarrow> client_trusted env c \<Longrightarrow> mg_clients m' = (mg_clients m)(h \<mapsto> c) \<Longrightarrow> clients_trusted env m'"
  by (simp add: clients_trusted_def)

lemma trusted_drop: "clients_trusted env m \<Longrightarrow> clients_trusted env (drop_connection inp conn m)"
  by (auto simp: clients_trusted_def drop_connection_def release_client_def drop_client_trusted split: if_splits)

lemma trusted_drop_after: "clients_trusted env m \<Longrightarrow> clients_trusted env (drop_after inp k m)"
  by (cases k) (simp_all add: trusted_drop)

lemma trusted_disconnect:
  assumes "disconnect_managed_connection inp cid conn m = (r, m')" and "clients_trusted env m"
  shows "clients_trusted env m'"
proof (cases "mg_clients m (managed_handle conn)")
  case None
  then show ?thesis using assms trusted_drop[of env m inp conn] by (simp add: disconnect_managed_connection_def)
next
  case (Some c)
  have "client_trusted env (snd (disconnect_client c))" by (rule disconnect_client_trusted)
  then show ?thesis using assms Some drop_client_trusted[of env "snd (disconnect_client c)"]
    by (cases "disconnect_client c")
       (auto simp: disconnect_managed_connection_def clients_trusted_def release_client_def Let_def
          split: sum.splits if_splits)
qed

text \<open>The clients a connection attempt registers.\<close>

lemma open_clients:
  "open_ssh inp config m = (r, m1) \<Longrightarrow> mg_clients m1 = mg_clients m \<or>
     (\<exists>c store' d'. mg_clients m1 = (mg_clients m)(mg_next m \<mapsto> CSsh c)
        \<and> ssh_connect (mi_ssh inp) config new_ssh_client (mg_host_keys m) (mg_disk m) = (Inr (), c, store', d'))"
  "open_sftp_client inp config2 m = (r, m1) \<Longrightarrow> mg_clients m1 = mg_clients m \<or>
     (\<exists>c store' d'. mg_clients m1 = (mg_clients m)(mg_next m \<mapsto> CSftp c)
        \<and> sftp_connect (mi_ssh inp) config2 (mg_host_keys m) (mg_disk m) = (Inr c, store', d'))"
  "open_ftp inp config3 m = (r, m1) \<Longrightarrow> mg_clients m1 = mg_clients m \<or> (\<exists>c. mg_clients m1 = (mg_clients m)(mg_next m \<mapsto> CFtp c))"
  "open_desktop request m = (r, m1) \<Longrightarrow> mg_clients m1 = mg_clients m \<or> (\<exists>c. mg_clients m1 = (mg_clients m)(mg_next m \<mapsto> CRdp c))
     \<or> (\<exists>c. mg_clients m1 = (mg_clients m)(mg_next m \<mapsto> CVnc c))"
  "open_pool inp config4 tunnel m = (r, m1) \<Longrightarrow> mg_clients m1 = mg_clients m \<or> (\<exists>c. mg_clients m1 = (mg_clients m)(mg_next m \<mapsto> CPool c))"
  by (auto simp: open_ssh_def open_sftp_client_def open_ftp_def open_desktop_def open_pool_def register_client_def Let_def
      split: sum.splits prod.splits desktop_kind.splits)

lemma trusted_open:
  assumes "reach mgr_init (mgr_step env) (m, ts)" and "inp \<in> env" and t: "clients_trusted env m"
  shows "open_sftp_client inp config m = (r, m1) \<Longrightarrow> clients_trusted env m1"
    and "open_ftp inp config2 m = (r, m1) \<Longrightarrow> clients_trusted env m1"
    and "open_desktop request m = (r, m1) \<Longrightarrow> clients_trusted env m1"
    and "open_cancellable inp req m = (r, m1) \<Longrightarrow> clients_trusted env m1"
proof -
  have same: "mg_clients m1 = mg_clients m \<Longrightarrow> clients_trusted env m1" using t by (simp add: clients_trusted_def)
  have new: "client_trusted env c \<Longrightarrow> mg_clients m1 = (mg_clients m)(mg_next m \<mapsto> c) \<Longrightarrow> clients_trusted env m1" for c
    by (rule trusted_upd[OF t])
  show "clients_trusted env m1" if o: "open_sftp_client inp config m = (r, m1)"
    using open_clients(2)[OF o]
    by (elim disjE exE conjE) (erule same, rule new[rotated], assumption, rule sftp_connect_trusted[OF assms(1,2)], assumption)
  show "clients_trusted env m1" if o: "open_ftp inp config2 m = (r, m1)"
    using open_clients(3)[OF o] by (elim disjE exE) (erule same, rule new[rotated], assumption, simp)
  show "clients_trusted env m1" if o: "open_desktop request m = (r, m1)"
    using open_clients(4)[OF o] by (elim disjE exE) (erule same, rule new[rotated], assumption, simp, rule new[rotated], assumption, simp)
  show "clients_trusted env m1" if o: "open_cancellable inp req m = (r, m1)"
  proof (cases req)
    case (OpenSsh config)
    then have "open_ssh inp config m = (r, m1)" using o by simp
    from open_clients(1)[OF this] show ?thesis
      by (elim disjE exE conjE) (erule same, rule new[rotated], assumption, rule ssh_connect_trusted[OF assms(1,2)], assumption)
  next
    case (OpenPool config tunnel)
    then have "open_pool inp config tunnel m = (r, m1)" using o by simp
    from open_clients(5)[OF this] show ?thesis by (elim disjE exE) (erule same, rule new[rotated], assumption, simp)
  qed
qed

lemma after_open_trusted: "after_open cid (r, m1) = (t', m') \<Longrightarrow> clients_trusted env m1 \<Longrightarrow> clients_trusted env m'"
  by (auto simp: after_open_def split: sum.splits)

lemma window_trusted:
  assumes r: "reach mgr_init (mgr_step env) (m, ts)" and i: "inp \<in> env" and t: "clients_trusted env m"
    and w: "mgr_window inp task m = (task', m')"
  shows "clients_trusted env m'"
proof (cases task)
  case (Create cid req)
  show ?thesis
  proof (cases req)
    case (RSftp config)
    then show ?thesis using w Create trusted_open(1)[OF r i t, of config]
      by (cases "open_sftp_client inp config m") (auto intro: after_open_trusted)
  next
    case (RFtp config)
    then show ?thesis using w Create trusted_open(2)[OF r i t, of config]
      by (cases "open_ftp inp config m") (auto intro: after_open_trusted)
  next
    case (RDesktop request)
    then show ?thesis using w Create trusted_open(3)[OF r i t, of request]
      by (cases "open_desktop request m") (auto intro: after_open_trusted)
  qed (use w t Create in \<open>auto split: sum.splits option.splits\<close>)
next
  case (Connecting cid token req)
  then show ?thesis using w t trusted_open(4)[OF r i t, of req]
    by (cases "open_cancellable inp req m") (auto simp: clients_trusted_def split: if_splits)
next
  case (Disconnecting cid conn k)
  then show ?thesis using w trusted_disconnect[OF _ t, of inp cid conn] trusted_drop_after[of env _ inp k]
    by (auto split: prod.splits sum.splits)
next
  case (ReplaceInsert cid conn)
  have "clients_trusted env (m\<lparr>mg_connections := AList.update cid conn (mg_connections m)\<rparr>)"
    using t by (simp add: clients_trusted_def)
  then show ?thesis using w ReplaceInsert by (auto simp: trusted_drop split: option.splits)
qed (use w t in \<open>auto simp: clients_trusted_def register_pending_connection_def cancel_pending_connection_def
      take_connection_if_kind_def split: prod.splits sum.splits option.splits if_splits any_client.splits\<close>)

lemma drop_task_trusted: "clients_trusted env m \<Longrightarrow> clients_trusted env (drop_task inp t m)"
  by (cases "(inp, t, m)" rule: drop_task.cases)
     (auto simp: trusted_drop trusted_drop_after, auto simp: clients_trusted_def)

lemma client_use_trusted: "client_use c c' \<Longrightarrow> client_trusted env c \<Longrightarrow> client_trusted env c'"
  by (induction rule: client_use.induct) (auto simp: sftp_session_def sftp_def split: option.splits sum.splits)

lemma clients_are_trusted:
  assumes "reach mgr_init (mgr_step env) st"
  shows "clients_trusted env (fst st)"
  using assms
proof (induction rule: reach.induct)
  case (reach_init st)
  then show ?case by (auto simp: mgr_init_def with_host_keys_def clients_trusted_def)
next
  case (reach_step st st')
  show ?case using reach_step(2)
  proof (cases rule: mgr_step.cases)
    case (start_op t m ts)
    then show ?thesis using reach_step.IH by simp
  next
    case (run_window i ts inp m t' m')
    then show ?thesis using window_trusted[of env m ts inp "ts ! i" t' m'] reach_step.IH reach_step.hyps(1) by simp
  next
    case (drop_future i ts inp m)
    then show ?thesis using drop_task_trusted[of env m inp "ts ! i"] reach_step.IH by simp
  next
    case (use_client m h c c' ts)
    then have "client_trusted env c" using reach_step.IH by (simp add: clients_trusted_def)
    then show ?thesis using use_client reach_step.IH client_use_trusted[of c c' env] by (simp add: clients_trusted_def)
  next
    case (forget_host host port m r store' d' ts)
    then show ?thesis using reach_step.IH by (simp add: clients_trusted_def)
  qed
qed

text \<open>
  C9. Whatever connects, closes and cancellations interleave, and whatever the application calls on its
  clients and makes the store forget, a connection that is registered as SSH or SFTP has a session, and
  that session came out of a handshake of this manager in which the store of host keys, as it was at
  that time, accepted the key the server offered; and it was authenticated.
\<close>

theorem registered_sessions_trusted:
  assumes "reach mgr_init (mgr_step env) (m, ts)"
  shows "(get_connection cid m = Some h \<longrightarrow>
            (\<exists>c s. mg_clients m h = Some (CSsh c) \<and> sc_session c = Some s \<and> session_trusted env s))
       \<and> (get_sftp_client cid m = Some h \<longrightarrow>
            (\<exists>c s. mg_clients m h = Some (CSftp c) \<and> sfc_session c = Some s \<and> session_trusted env s))"
proof -
  have inv: "mgr_inv (m, ts)" by (rule mgr_sys.reach_inv[OF assms])
  have ok: "conn_ok m conn" if "map_of (mg_connections m) cid = Some conn" for conn
    using inv registered_in_all[OF that] by (simp add: mgr_inv_def)
  have trusted: "mg_clients m h = Some c \<Longrightarrow> client_trusted env c" for c
    using clients_are_trusted[OF assms] by (simp add: clients_trusted_def)
  have "\<exists>c s. mg_clients m h = Some (CSsh c) \<and> sc_session c = Some s \<and> session_trusted env s"
    if "get_connection cid m = Some h"
  proof -
    have "conn_ok m (ManagedSsh h)"
      using that ok by (auto simp: get_connection_def split: option.splits managed_connection.splits)
    then obtain x where x: "mg_clients m h = Some x" "client_live x" "tag_matches (ManagedSsh h) x"
      by (auto simp: conn_ok_def)
    then show ?thesis using trusted[OF x(1)] by (cases x) auto
  qed
  moreover have "\<exists>c s. mg_clients m h = Some (CSftp c) \<and> sfc_session c = Some s \<and> session_trusted env s"
    if "get_sftp_client cid m = Some h"
  proof -
    have "conn_ok m (ManagedSftp h)"
      using that ok by (auto simp: get_sftp_client_def split: option.splits managed_connection.splits)
    then obtain x where x: "mg_clients m h = Some x" "client_live x" "tag_matches (ManagedSftp h) x"
      by (auto simp: conn_ok_def)
    then show ?thesis using trusted[OF x(1)] by (cases x) auto
  qed
  ultimately show ?thesis by blast
qed

end
