(* ===== verification/ManagerPty.thy ===== *)
theory ManagerPty
  imports ManagerInv
begin

text \<open>
  The terminals of the connection manager under any interleaving, dropped futures included: the
  registry of \<open>PtyRegistry\<close> as the manager uses it.
\<close>

fun task_session :: "mgr_task \<Rightarrow> pty_session option" where
  "task_session (PtyWork pc) = pending_session pc"
| "task_session (Purging pc _ _ _) = pending_session pc"
| "task_session _ = None"

text \<open>What a turn does to the terminals: nothing but counting, taking one out, putting one in, or
  opening one with a fresh token.\<close>

definition pty_same :: "mgr_task \<Rightarrow> 'p manager \<Rightarrow> mgr_task \<Rightarrow> 'p manager \<Rightarrow> bool" where
  "pty_same t m t' m' \<longleftrightarrow>
     sessions (mg_ptys m') = sessions (mg_ptys m) \<and> cancelled (mg_ptys m') = cancelled (mg_ptys m)
   \<and> mg_next_pty m' = mg_next_pty m \<and> (task_session t' = None \<or> task_session t' = task_session t)"

definition pty_take :: "mgr_task \<Rightarrow> 'p manager \<Rightarrow> mgr_task \<Rightarrow> 'p manager \<Rightarrow> bool" where
  "pty_take t m t' m' \<longleftrightarrow>
     (\<exists>cid. mg_ptys m' = take_session cid (mg_ptys m)) \<and> mg_next_pty m' = mg_next_pty m \<and> task_session t' = None"

definition pty_put :: "mgr_task \<Rightarrow> 'p manager \<Rightarrow> mgr_task \<Rightarrow> 'p manager \<Rightarrow> bool" where
  "pty_put t m t' m' \<longleftrightarrow>
     (\<exists>cid s. task_session t = Some s \<and> sessions (mg_ptys m') = (sessions (mg_ptys m))(cid \<mapsto> s))
   \<and> cancelled (mg_ptys m') = cancelled (mg_ptys m) \<and> mg_next_pty m' = mg_next_pty m \<and> task_session t' = None"

definition pty_new :: "mgr_task \<Rightarrow> 'p manager \<Rightarrow> mgr_task \<Rightarrow> 'p manager \<Rightarrow> bool" where
  "pty_new t m t' m' \<longleftrightarrow>
     mg_ptys m' = mg_ptys m \<and> mg_next_pty m' = Suc (mg_next_pty m)
   \<and> (\<exists>s. task_session t' = Some s \<and> pty_cancel s = mg_next_pty m)"

lemmas pty_effects = pty_same_def pty_take_def pty_put_def pty_new_def

definition pty_effect :: "mgr_task \<Rightarrow> 'p manager \<Rightarrow> mgr_task \<Rightarrow> 'p manager \<Rightarrow> bool" where
  "pty_effect t m t' m' \<longleftrightarrow> pty_same t m t' m' \<or> pty_take t m t' m' \<or> pty_put t m t' m' \<or> pty_new t m t' m'"

lemma pty_window_effect:
  assumes "window pc (mg_ptys m) = (pc', r)" and "task_session t = pending_session pc"
    and "task_session t' = None \<or> task_session t' = pending_session pc'"
  shows "pty_effect t m t' (m\<lparr>mg_ptys := r\<rparr>)"
proof (cases pc)
  case (Start op)
  show ?thesis
  proof (cases op)
    case (Insert cid s)
    then have "pty_same t m t' (m\<lparr>mg_ptys := r\<rparr>)" using Start assms
      by (auto simp: pty_same_def bump_generation_def Let_def)
    then show ?thesis by (simp add: pty_effect_def)
  next
    case (Remove cid g)
    then have "pty_same t m t' (m\<lparr>mg_ptys := r\<rparr>)" using Start assms by (auto simp: pty_same_def split: if_splits)
    then show ?thesis by (simp add: pty_effect_def)
  next
    case (CancelExisting cid)
    then have "pty_take t m t' (m\<lparr>mg_ptys := r\<rparr>)" using Start assms by (auto simp: pty_take_def)
    then show ?thesis by (simp add: pty_effect_def)
  next
    case (Purge cid)
    then have "pty_take t m t' (m\<lparr>mg_ptys := r\<rparr>)" using Start assms by (auto simp: pty_take_def)
    then show ?thesis by (simp add: pty_effect_def)
  qed
next
  case (InsertBumped cid s g)
  then have "pty_put t m t' (m\<lparr>mg_ptys := r\<rparr>)" using assms by (auto simp: pty_put_def put_session_def)
  then show ?thesis by (simp add: pty_effect_def)
next
  case (RemoveChecked cid)
  then have "pty_take t m t' (m\<lparr>mg_ptys := r\<rparr>)" using assms by (auto simp: pty_take_def)
  then show ?thesis by (simp add: pty_effect_def)
next
  case (PurgeTaken cid)
  then have "pty_same t m t' (m\<lparr>mg_ptys := r\<rparr>)" using assms by (auto simp: pty_same_def drop_generation_def)
  then show ?thesis by (simp add: pty_effect_def)
next
  case (Returned g)
  then have "pty_same t m t' (m\<lparr>mg_ptys := r\<rparr>)" using assms by (auto simp: pty_same_def)
  then show ?thesis by (simp add: pty_effect_def)
qed

lemma next_pty_frame [simp]:
  "mg_next_pty (drop_tunnel t m) = mg_next_pty m" "mg_next_pty (release_client inp h m) = mg_next_pty m"
  "mg_next_pty (keep_keys inp m' m) = mg_next_pty m" "mg_next_pty (clear_pending_connection cid m) = mg_next_pty m"
  "mg_next_pty (publish e m) = mg_next_pty m" "mg_next_pty (drop_connection inp conn m) = mg_next_pty m"
  by (simp_all add: drop_tunnel_def release_client_def keep_keys_def clear_pending_connection_def publish_def
      drop_connection_def split: option.splits)

lemma open_next_pty:
  "open_sftp_client inp c1 m = (r, m') \<Longrightarrow> mg_next_pty m' = mg_next_pty m"
  "open_ftp inp c2 m = (r, m') \<Longrightarrow> mg_next_pty m' = mg_next_pty m"
  "open_desktop req m = (r, m') \<Longrightarrow> mg_next_pty m' = mg_next_pty m"
  "open_cancellable inp creq m = (r, m') \<Longrightarrow> mg_next_pty m' = mg_next_pty m"
  by (cases creq; auto simp: open_ssh_def open_pool_def open_sftp_client_def open_ftp_def open_desktop_def
      register_client_def Let_def split: sum.splits prod.splits desktop_kind.splits)+

lemma open_ptys:
  "open_sftp_client inp c1 m = (r, m') \<Longrightarrow> mg_ptys m' = mg_ptys m"
  "open_ftp inp c2 m = (r, m') \<Longrightarrow> mg_ptys m' = mg_ptys m"
  "open_desktop req m = (r, m') \<Longrightarrow> mg_ptys m' = mg_ptys m"
  "open_cancellable inp creq m = (r, m') \<Longrightarrow> mg_ptys m' = mg_ptys m"
  by (rule opens_frame(4), erule open_sftp_opens open_ftp_opens open_desktop_opens open_cancellable_opens)+

lemma disconnect_next_pty: "mg_next_pty (snd (disconnect_managed_connection inp cid conn m)) = mg_next_pty m"
proof (cases "mg_clients m (managed_handle conn)")
  case None
  then show ?thesis by (simp add: disconnect_managed_connection_def)
next
  case (Some client)
  obtain r client' where "disconnect_client client = (r, client')" by fastforce
  then show ?thesis using Some by (cases r) (simp_all add: disconnect_managed_connection_def Let_def)
qed

lemma drop_task_pty [simp]:
  "mg_ptys (drop_task inp t m) = mg_ptys m" "mg_next_pty (drop_task inp t m) = mg_next_pty m"
proof -
  have "mg_ptys (drop_after inp k m) = mg_ptys m \<and> mg_next_pty (drop_after inp k m) = mg_next_pty m" for k m
    by (cases k) (simp_all add: drop_connection_frame)
  then show "mg_ptys (drop_task inp t m) = mg_ptys m" "mg_next_pty (drop_task inp t m) = mg_next_pty m"
    by (cases "(inp, t, m)" rule: drop_task.cases; simp add: drop_connection_frame)+
qed

lemma start_disconnect_session [simp]: "task_session (start_disconnect cid conn k) = None"
  by (simp add: start_disconnect_def split: managed_connection.splits)

lemma after_task_session [simp]: "task_session (after_task cid k) = None"
  by (cases k) simp_all

lemma mgr_window_pty_effect:
  assumes "mgr_window inp t m = (t', m')"
  shows "pty_effect t m t' m'"
proof (cases t)
  case (Purging pc cid conn k)
  then show ?thesis using assms by (auto split: prod.splits pty_pc.splits intro!: pty_window_effect)
next
  case (PtyWork pc)
  then show ?thesis using assms by (auto split: prod.splits intro!: pty_window_effect)
next
  case (PtyCancelOld cid h cols rows)
  then have "pty_take t m t' m'" using assms by (auto simp: pty_take_def cancel_existing_def)
  then show ?thesis by (simp add: pty_effect_def)
next
  case (PtyCreate cid h cols rows)
  then have "pty_same t m t' m' \<or> pty_new t m t' m'" using assms
    by (auto simp: pty_same_def pty_new_def create_pty_session_def split: option.splits any_client.splits sum.splits)
  then show ?thesis by (auto simp: pty_effect_def)
next
  case (Create cid req)
  then have "pty_same t m t' m'" using assms
    by (cases req) (auto simp: pty_same_def after_open_def dest: open_next_pty open_ptys
        split: prod.splits sum.splits option.splits)
  then show ?thesis by (simp add: pty_effect_def)
next
  case (Connecting cid token req)
  then have "pty_same t m t' m'" using assms
    by (auto simp: pty_same_def dest: open_next_pty open_ptys split: prod.splits if_splits)
  then show ?thesis by (simp add: pty_effect_def)
next
  case (Disconnecting cid conn k)
  obtain r m1 where d: "disconnect_managed_connection inp cid conn m = (r, m1)" by fastforce
  have "pty_same t m t' m'" using assms Disconnecting d disconnect_next_pty[of inp cid conn m] disconnect_managed_frame(1,4)[OF d]
    by (auto simp: pty_same_def)
  then show ?thesis by (simp add: pty_effect_def)
qed (use assms in \<open>auto simp: pty_effect_def pty_same_def register_pending_connection_def
      cancel_pending_connection_def take_connection_if_kind_def drop_connection_frame
      split: prod.splits sum.splits option.splits if_splits\<close>)

lemma mgr_turn_pty_effect: "mgr_turn inp t m = (t', m') \<Longrightarrow> pty_effect t m t' m'"
  using mgr_window_pty_effect[of "fst inp" t m t' m']
  by (auto simp: mgr_turn_def pty_effect_def pty_same_def split: if_splits)

section \<open>The invariant\<close>

text \<open>Who uses a cancellation token: a registered session, or a task that is about to register one.\<close>

fun uses_token :: "'p mgr_state \<Rightarrow> string + nat \<Rightarrow> nat \<Rightarrow> bool" where
  "uses_token (m, ts) (Inl cid) k \<longleftrightarrow> (\<exists>s. sessions (mg_ptys m) cid = Some s \<and> pty_cancel s = k)"
| "uses_token (m, ts) (Inr i) k \<longleftrightarrow> i < length ts \<and> (\<exists>s. task_session (ts ! i) = Some s \<and> pty_cancel s = k)"

definition pty_ok :: "'p mgr_state \<Rightarrow> bool" where
  "pty_ok st \<longleftrightarrow>
     (\<forall>u k. uses_token st u k \<longrightarrow> k < mg_next_pty (fst st) \<and> k \<notin> cancelled (mg_ptys (fst st)))
   \<and> (\<forall>u u' k. uses_token st u k \<longrightarrow> uses_token st u' k \<longrightarrow> u = u')
   \<and> (\<forall>k\<in>cancelled (mg_ptys (fst st)). k < mg_next_pty (fst st))"

lemma pty_ok_fewer:
  assumes "pty_ok (m, ts)" and "\<And>u k. uses_token (m', ts') u k \<Longrightarrow> uses_token (m, ts) u k \<and> k \<notin> X"
    and "mg_next_pty m' = mg_next_pty m" and "cancelled (mg_ptys m') = cancelled (mg_ptys m) \<union> X"
    and "\<And>k. k \<in> X \<Longrightarrow> k < mg_next_pty m"
  shows "pty_ok (m', ts')"
proof -
  have ok: "uses_token (m, ts) u k \<Longrightarrow> k < mg_next_pty m \<and> k \<notin> cancelled (mg_ptys m)"
    "uses_token (m, ts) u k \<Longrightarrow> uses_token (m, ts) u' k \<Longrightarrow> u = u'" "k \<in> cancelled (mg_ptys m) \<Longrightarrow> k < mg_next_pty m"
    for u u' k
    using assms(1) unfolding pty_ok_def fst_conv by blast+
  show ?thesis
    unfolding pty_ok_def fst_conv assms(3,4)
  proof (intro conjI allI impI ballI)
    fix u u' k
    assume u: "uses_token (m', ts') u k"
    then show "k < mg_next_pty m" "k \<notin> cancelled (mg_ptys m) \<union> X" using ok(1) assms(2)[OF u] by blast+
    assume "uses_token (m', ts') u' k"
    then show "u = u'" using ok(2)[of u k u'] assms(2)[OF u] assms(2)[of u' k] by simp
  next
    fix k
    assume "k \<in> cancelled (mg_ptys m) \<union> X"
    then show "k < mg_next_pty m" using ok(3) assms(5) by blast
  qed
qed

lemma pty_ok_same:
  assumes "pty_ok (m, ts)" and "i < length ts" and "pty_same (ts ! i) m t' m'"
  shows "pty_ok (m', ts[i := t'])"
proof (rule pty_ok_fewer[OF assms(1), where X = "{}"])
  fix u k
  assume "uses_token (m', ts[i := t']) u k"
  then show "uses_token (m, ts) u k \<and> k \<notin> {}"
    using assms(2,3) by (cases u) (auto simp: pty_same_def nth_list_update split: if_splits)
qed (use assms(3) in \<open>simp_all add: pty_same_def\<close>)

lemma pty_ok_take:
  assumes "pty_ok (m, ts)" and "i < length ts" and "pty_take (ts ! i) m t' m'"
  shows "pty_ok (m', ts[i := t'])"
proof -
  obtain cid where e: "mg_ptys m' = take_session cid (mg_ptys m)" "mg_next_pty m' = mg_next_pty m" "task_session t' = None"
    using assms(3) by (auto simp: pty_take_def)
  let ?X = "pty_cancel ` set_option (sessions (mg_ptys m) cid)"
  show ?thesis
  proof (rule pty_ok_fewer[OF assms(1), where X = ?X])
    fix u k
    assume u: "uses_token (m', ts[i := t']) u k"
    then have old: "uses_token (m, ts) u k" "u \<noteq> Inl cid"
      using assms(2) e by (cases u; auto simp: nth_list_update split: if_splits)+
    have "uses_token (m, ts) (Inl cid) k" if "k \<in> ?X" using that by auto
    then show "uses_token (m, ts) u k \<and> k \<notin> ?X" using old assms(1) unfolding pty_ok_def by blast
  next
    fix k
    assume "k \<in> ?X"
    then have "uses_token (m, ts) (Inl cid) k" by auto
    then show "k < mg_next_pty m" using assms(1) unfolding pty_ok_def fst_conv by blast
  qed (use e in \<open>simp_all add: cancelled_take_session\<close>)
qed

lemma pty_ok_put:
  assumes ok: "pty_ok (m, ts)" and i: "i < length ts" and "pty_put (ts ! i) m t' m'"
  shows "pty_ok (m', ts[i := t'])"
proof -
  obtain cid s where e: "task_session (ts ! i) = Some s" "sessions (mg_ptys m') = (sessions (mg_ptys m))(cid \<mapsto> s)"
    "cancelled (mg_ptys m') = cancelled (mg_ptys m)" "mg_next_pty m' = mg_next_pty m" "task_session t' = None"
    using assms(3) by (auto simp: pty_put_def)
  have old: "uses_token (m, ts) (if u = Inl cid then Inr i else u) k \<and> u \<noteq> Inr i"
    if "uses_token (m', ts[i := t']) u k" for u k
    using that i e by (cases u) (auto simp: nth_list_update split: if_splits)
  have one: "u = u'" if "uses_token (m, ts) u k" "uses_token (m, ts) u' k" for u u' k
    using ok that unfolding pty_ok_def by blast
  have "u = u'" if "uses_token (m', ts[i := t']) u k" "uses_token (m', ts[i := t']) u' k" for u u' k
    using one[of "if u = Inl cid then Inr i else u" k "if u' = Inl cid then Inr i else u'"] old[OF that(1)] old[OF that(2)]
    by (simp split: if_splits)
  moreover have "k < mg_next_pty m' \<and> k \<notin> cancelled (mg_ptys m')" if "uses_token (m', ts[i := t']) u k" for u k
    using old[OF that] ok e(3,4) unfolding pty_ok_def fst_conv by metis
  moreover have "\<forall>k\<in>cancelled (mg_ptys m'). k < mg_next_pty m'" using ok e(3,4) unfolding pty_ok_def by simp
  ultimately show ?thesis unfolding pty_ok_def fst_conv by blast
qed

lemma pty_ok_new:
  assumes ok: "pty_ok (m, ts)" and i: "i < length ts" and "pty_new (ts ! i) m t' m'"
  shows "pty_ok (m', ts[i := t'])"
proof -
  have e: "mg_ptys m' = mg_ptys m" "mg_next_pty m' = Suc (mg_next_pty m)"
    and new: "\<And>k. uses_token (m', ts[i := t']) (Inr i) k \<Longrightarrow> k = mg_next_pty m"
    using assms(3) i by (auto simp: pty_new_def)
  have old: "uses_token (m, ts) u k" if "uses_token (m', ts[i := t']) u k" "u \<noteq> Inr i" for u k
    using that e(1) by (cases u) auto
  have below: "k < mg_next_pty m \<and> k \<notin> cancelled (mg_ptys m)" if "uses_token (m, ts) u k" for u k
    using ok that unfolding pty_ok_def fst_conv by blast
  have fresh: "mg_next_pty m \<notin> cancelled (mg_ptys m)" using ok unfolding pty_ok_def by auto
  have "u = u'" if u: "uses_token (m', ts[i := t']) u k" "uses_token (m', ts[i := t']) u' k" for u u' k
  proof (cases "u = Inr i \<or> u' = Inr i")
    case True
    then show ?thesis using u new old below by (metis less_irrefl)
  next
    case False
    then have "uses_token (m, ts) u k" "uses_token (m, ts) u' k" using u old by blast+
    then show ?thesis using ok unfolding pty_ok_def by blast
  qed
  moreover have "k < mg_next_pty m' \<and> k \<notin> cancelled (mg_ptys m')" if "uses_token (m', ts[i := t']) u k" for u k
    using that new old[OF that] below fresh e by (cases "u = Inr i") (auto simp: less_SucI)
  moreover have "\<forall>k\<in>cancelled (mg_ptys m'). k < mg_next_pty m'" using ok e unfolding pty_ok_def by (auto simp: less_SucI)
  ultimately show ?thesis unfolding pty_ok_def fst_conv by blast
qed

lemma pty_ok_turn:
  assumes "pty_ok (m, ts)" and "i < length ts" and "mgr_turn inp (ts ! i) m = (t', m')"
  shows "pty_ok (m', ts[i := t'])"
  using mgr_turn_pty_effect[OF assms(3)] pty_ok_same[OF assms(1,2)] pty_ok_take[OF assms(1,2)] pty_ok_put[OF assms(1,2)]
    pty_ok_new[OF assms(1,2)] by (auto simp: pty_effect_def)

lemma pty_ok_start:
  assumes "pty_ok (m, ts)" and "mgr_entry t"
  shows "pty_ok (m, ts @ [t])"
proof (rule pty_ok_fewer[OF assms(1), where X = "{}"])
  have none: "task_session t = None" using assms(2) by (cases t rule: mgr_entry.cases) auto
  fix u k
  assume "uses_token (m, ts @ [t]) u k"
  then show "uses_token (m, ts) u k \<and> k \<notin> {}" using none by (cases u) (auto simp: nth_append split: if_splits)
qed simp_all

lemma pty_ok_same_ptys:
  assumes "mg_ptys m' = mg_ptys m" and "mg_next_pty m' = mg_next_pty m"
  shows "pty_ok (m', ts) = pty_ok (m, ts)"
proof -
  have "uses_token (m', ts) u k = uses_token (m, ts) u k" for u k using assms(1) by (cases u) auto
  then show ?thesis by (simp add: pty_ok_def assms)
qed

interpretation pty_sys: inv_system mgr_init "mgr_step env" pty_ok for env :: "('k, 'p) mgr_input set"
proof unfold_locales
  fix st :: "'p mgr_state"
  assume "mgr_init st"
  then obtain store d where st: "st = (with_host_keys store d, [])" by (auto simp: mgr_init_def)
  have "\<not> uses_token st u k" for u k
    unfolding st by (cases u) (simp_all add: with_host_keys_def new_registry_def)
  then show "pty_ok st" by (simp add: pty_ok_def st with_host_keys_def new_registry_def)
next
  fix st st' :: "'p mgr_state"
  assume ok: "pty_ok st" and step: "mgr_step env st st'"
  from step show "pty_ok st'"
  proof (cases rule: mgr_step.cases)
    case (start_op t m ts)
    then show ?thesis using ok pty_ok_start by simp
  next
    case (run_window i ts inp m t' m')
    then show ?thesis using ok pty_ok_turn[of m ts i "(inp, False)" t' m'] by (simp add: mgr_turn_def)
  next
    case (drop_future i ts inp m)
    then show ?thesis using ok pty_ok_turn[of m ts i "(inp, True)"] by (simp add: mgr_turn_def)
  next
    case (use_client m h c c' ts)
    then show ?thesis using ok pty_ok_same_ptys[of "fst st'" m ts] by simp
  next
    case (forget_host host port m r store' d' ts)
    then show ?thesis using ok pty_ok_same_ptys[of "fst st'" m ts] by simp
  qed
qed

text \<open>
  C24. However connects, closes and terminals of the manager interleave, window by window, and
  wherever futures are dropped: a terminal that can be looked up has not been cancelled, and no two
  connections share one.
\<close>

theorem terminals_live:
  assumes "reach mgr_init (mgr_step env) (m, ts)" and "get_pty_session cid m = Some s"
  shows "pty_cancel s \<notin> cancelled (mg_ptys m)
    \<and> (\<forall>cid' s'. get_pty_session cid' m = Some s' \<longrightarrow> pty_cancel s' = pty_cancel s \<longrightarrow> cid' = cid)"
proof -
  have ok: "pty_ok (m, ts)" by (rule pty_sys.reach_inv[OF assms(1)])
  have u: "uses_token (m, ts) (Inl c) (pty_cancel x)" if "get_pty_session c m = Some x" for c x
    using that by (simp add: get_pty_session_def get_session_def)
  have "pty_cancel s \<notin> cancelled (mg_ptys m)" using ok u[OF assms(2)] unfolding pty_ok_def fst_conv by blast
  moreover have "cid' = cid" if "get_pty_session cid' m = Some s'" "pty_cancel s' = pty_cancel s" for cid' s'
  proof -
    have "(Inl cid' :: string + nat) = Inl cid" using ok u[OF that(1)] u[OF assms(2)] that(2) unfolding pty_ok_def by metis
    then show ?thesis by simp
  qed
  ultimately show ?thesis by blast
qed

end
