(* ===== verification/ManagerRaces.thy ===== *)
theory ManagerRaces
  imports ManagerOwn ManagerStatus ManagerPty
begin

text \<open>
  Schedules of the connection manager run on a small world: where operations on one id interfere,
  and the examples of the invariants.
\<close>

section \<open>Schedules\<close>

datatype mgr_move = StartOp mgr_task | RunWindow nat

definition mgr_move_one :: "('k, 'p) mgr_input \<Rightarrow> mgr_move \<Rightarrow> 'p mgr_state \<Rightarrow> 'p mgr_state" where
  "mgr_move_one inp mv st =
     (case st of (m, ts) \<Rightarrow>
        (case mv of
           StartOp t \<Rightarrow> if mgr_entry t then (m, ts @ [t]) else (m, ts)
         | RunWindow i \<Rightarrow>
             if i < length ts then (case mgr_window inp (ts ! i) m of (t', m') \<Rightarrow> (m', ts[i := t'])) else (m, ts)))"

definition mgr_schedule :: "('k, 'p) mgr_input \<Rightarrow> mgr_move list \<Rightarrow> 'p mgr_state \<Rightarrow> 'p mgr_state" where
  "mgr_schedule inp mvs st = fold (mgr_move_one inp) mvs st"

lemma mgr_move_reach:
  assumes "reach mgr_init (mgr_step {inp}) st"
  shows "reach mgr_init (mgr_step {inp}) (mgr_move_one inp mv st)"
proof -
  have "mgr_move_one inp mv st = st \<or> mgr_step {inp} st (mgr_move_one inp mv st)"
    by (cases st; cases mv) (auto simp: mgr_move_one_def split: prod.splits intro: mgr_step.intros)
  then show ?thesis using assms by (metis reach_step)
qed

lemma mgr_schedule_reach:
  "reach mgr_init (mgr_step {inp}) st \<Longrightarrow> reach mgr_init (mgr_step {inp}) (mgr_schedule inp mvs st)"
  unfolding mgr_schedule_def by (induction mvs arbitrary: st) (simp_all add: mgr_move_reach)

text \<open>A world in which an SSH server with a known key and Postgres answer.\<close>

definition small_world :: "(string, unit) mgr_input" where
  "small_world = \<lparr>mi_ssh = demo_world,
     mi_ftp = \<lparr>ftp_tcp = (\<lambda>_. None), ftp_tls = (\<lambda>_ _ _. Inl []), ftp_login = (\<lambda>_ _ _. None), ftp_binary = (\<lambda>_. None)\<rparr>,
     mi_pool = quiet_input, mi_load = (\<lambda>_ _. Inr None), mi_listen = (\<lambda>_. Inr 5432), mi_cancel_first = True,
     mi_key_seen = False, mi_key_filed = False, mi_last_ref = (\<lambda>_. True)\<rparr>"

definition known_store :: host_key_store where
  "known_store = \<lparr>hk_path = ''f'', hk_parent = None, hk_state = Some [(''h'', ''k'')]\<rparr>"

definition start_manager :: "unit manager" where
  "start_manager = with_host_keys known_store demo_disk"

lemma start_reach: "reach mgr_init (mgr_step {inp}) (start_manager, [])"
  by (rule reach_init) (auto simp: mgr_init_def start_manager_def)

definition small_config :: ssh_config where
  "small_config = \<lparr>sc_host = ''h'', sc_port = 22, sc_username = ''u'', sc_auth_method = PasswordAuth ''pw''\<rparr>"

definition small_client :: "unit ssh_client" where
  "small_client = \<lparr>sc_session = Some demo_session, sc_sftp = None\<rparr>"

lemma small_connect:
  "ssh_connect small_world' small_config new_ssh_client known_store d = (Inr (), small_client, known_store, d)"
  if "small_world' = demo_world"
  unfolding that
  by (simp add: ssh_connect_def connect_authenticated_def run_handshake_def demo_world_def demo_session_def
      check_server_key_def verify_def demo_keys_def known_store_def ensure_loaded_def make_key_def new_client_def
      Let_def small_config_def small_client_def new_ssh_client_def)

lemma open_small:
  "mg_host_keys m = known_store \<Longrightarrow> open_ssh small_world small_config m =
     (Inr (ManagedSsh (mg_next m)),
      m\<lparr>mg_clients := (mg_clients m)(mg_next m \<mapsto> CSsh small_client), mg_next := Suc (mg_next m)\<rparr>)"
  by (simp add: open_ssh_def small_world_def small_connect register_client_def Let_def)

lemma open_db: "open_pool small_world (pg_local ''db'' ''u'') tunnel m =
    (Inr (ManagedPostgres (mg_next m) tunnel),
     m\<lparr>mg_clients := (mg_clients m)(mg_next m \<mapsto> CPool local_pool), mg_next := Suc (mg_next m)\<rparr>)"
  by (simp add: open_pool_def small_world_def local_pool_connects register_client_def)

lemma resolve_local: "resolve_pg_credentials load (pg_local a b) = Inr (pg_local a b)"
  by (simp add: resolve_pg_credentials_def pg_local_def)

lemma local_redirected: "(pg_local a b)\<lparr>pg_host := ''127.0.0.1'', pg_port := 5432\<rparr> = pg_local a b"
  by (simp add: pg_local_def)

definition connect_ssh :: mgr_task where
  "connect_ssh = Create ''c'' (RSsh small_config)"

abbreviation ssh_request :: cancellable where
  "ssh_request \<equiv> OpenSsh small_config"

lemmas mgr_eval = mgr_schedule_def mgr_move_one_def connect_ssh_def resolve_local open_small open_db
  register_pending_connection_def clear_pending_connection_def publish_def start_manager_def with_host_keys_def

section \<open>Two connects of one id\<close>

text \<open>The second registers its token, the first ends and clears the entry.\<close>

definition lost_token :: "mgr_move list" where
  "lost_token = [StartOp connect_ssh, StartOp connect_ssh, RunWindow 0, RunWindow 0, RunWindow 1, RunWindow 1,
     RunWindow 0, RunWindow 0]"

lemma lost_token_run:
  "mgr_schedule small_world lost_token (start_manager, []) =
     (start_manager\<lparr>mg_pending := [], mg_clients := (mg_clients start_manager)(0 \<mapsto> CSsh small_client), mg_next := 1,
        mg_next_token := 2\<rparr>,
      [ReplaceRemove ''c'' (ManagedSsh 0), Connecting ''c'' 1 ssh_request])"
  by (simp add: lost_token_def mgr_eval)

text \<open>
  A second connect of the same id cannot be cancelled once the first has ended: a state is
  reachable in which a task is connecting with a token nobody has cancelled and
  \<open>cancel_pending_connection\<close> finds nothing to cancel.
\<close>

lemma pending_connect_not_cancellable:
  "\<exists>m ts token. reach mgr_init (mgr_step {small_world}) (m, ts) \<and> Connecting ''c'' token ssh_request \<in> set ts
     \<and> token \<notin> set (mg_cancelled m) \<and> cancel_pending_connection ''c'' m = (False, m)"
proof -
  have "reach mgr_init (mgr_step {small_world}) (mgr_schedule small_world lost_token (start_manager, []))"
    by (rule mgr_schedule_reach[OF start_reach])
  note r = this[unfolded lost_token_run]
  show ?thesis
    by (intro exI conjI, rule r)
       (simp_all add: cancel_pending_connection_def start_manager_def with_host_keys_def)
qed

text \<open>Both find the id free, and both register.\<close>

definition twin_connect :: "mgr_move list" where
  "twin_connect = [StartOp connect_ssh, StartOp connect_ssh]
     @ concat (replicate 5 [RunWindow 0, RunWindow 1]) @ [RunWindow 0, RunWindow 0, RunWindow 1, RunWindow 1]"

lemma twin_connect_run:
  "mgr_schedule small_world twin_connect (start_manager, []) =
     (start_manager\<lparr>mg_connections := [(''c'', ManagedSsh 1)],
        mg_events := [ConnectionStatus ''c'' Connected, ConnectionStatus ''c'' Connected],
        mg_clients := (mg_clients start_manager)(0 \<mapsto> CSsh small_client, 1 \<mapsto> CSsh small_client), mg_next := 2,
        mg_next_token := 2, mg_released := [0]\<rparr>,
      [TaskDone, TaskDone])"
  by (simp add: twin_connect_def mgr_eval eval_nat_numeral drop_connection_def release_client_def drop_tunnel_def
      fun_upd_twist[of "Suc 0"])

text \<open>
  Two concurrent connects of one id drop a client that no one disconnects: both tasks have
  returned, one connection is registered, \<open>Connected\<close> was published twice and \<open>Disconnected\<close> never,
  and the first client was let go of with its session.
\<close>

lemma twin_connects_forget_client:
  "\<exists>m c s. reach mgr_init (mgr_step {small_world}) (m, [TaskDone, TaskDone])
     \<and> mg_connections m = [(''c'', ManagedSsh 1)]
     \<and> 0 \<in> set (mg_released m) \<and> mg_clients m 0 = Some (CSsh c) \<and> sc_session c = Some s
     \<and> mg_events m = [ConnectionStatus ''c'' Connected, ConnectionStatus ''c'' Connected]"
proof -
  have "reach mgr_init (mgr_step {small_world}) (mgr_schedule small_world twin_connect (start_manager, []))"
    by (rule mgr_schedule_reach[OF start_reach])
  note r = this[unfolded twin_connect_run]
  show ?thesis
    by (rule exI, rule exI[of _ small_client], rule exI[of _ demo_session], intro conjI, rule r)
       (simp_all add: small_client_def)
qed

section \<open>A terminal that outlives its connection\<close>

text \<open>The channel of the terminal is open when the connection is closed, and is registered after it.\<close>

definition late_terminal :: "mgr_move list" where
  "late_terminal = StartOp connect_ssh # replicate 7 (RunWindow 0)
     @ StartOp (StartPty ''c'' 80 24) # replicate 3 (RunWindow 1)
     @ StartOp (Close ''c'' SlotSsh) # replicate 4 (RunWindow 2) @ replicate 2 (RunWindow 1)"

lemma late_terminal_run:
  "\<exists>m g. mgr_schedule small_world late_terminal (start_manager, [])
       = (m, [TaskDone, PtyWork (Returned (Some g)), TaskDone])
     \<and> connection_kind ''c'' m = None \<and> get_pty_session ''c'' m \<noteq> None
     \<and> mg_events m = [ConnectionStatus ''c'' Connected, ConnectionStatus ''c'' Disconnected]"
  by (simp add: late_terminal_def mgr_eval eval_nat_numeral take_connection_if_kind_def start_disconnect_def
      get_connection_def cancel_existing_def take_session_def new_registry_def create_pty_session_def small_client_def
      demo_session_def drop_generation_def bump_generation_def put_session_def Let_def disconnect_managed_connection_def
      ssh_disconnect_def release_client_def drop_tunnel_def connection_kind_def get_pty_session_def get_session_def)


section \<open>Witnesses\<close>

theorem registered_clients_live_witness:
  "\<exists>c. ((mg_clients start_manager)(0 \<mapsto> CSsh small_client, 1 \<mapsto> CSsh small_client)) 1 = Some c
     \<and> client_live c \<and> tag_matches (ManagedSsh 1) c"
proof -
  have "reach mgr_init (mgr_step {small_world}) (mgr_schedule small_world twin_connect (start_manager, []))"
    by (rule mgr_schedule_reach[OF start_reach])
  note r = this[unfolded twin_connect_run]
  from registered_clients_live[OF r, of "''c''" "ManagedSsh 1"] show ?thesis by auto
qed

theorem registered_sessions_trusted_witness:
  "\<exists>s. sc_session small_client = Some s \<and> session_trusted {small_world} s"
proof -
  have "reach mgr_init (mgr_step {small_world}) (mgr_schedule small_world twin_connect (start_manager, []))"
    by (rule mgr_schedule_reach[OF start_reach])
  note r = this[unfolded twin_connect_run]
  from registered_sessions_trusted[OF r, of "''c''" 1] show ?thesis by (auto simp: get_connection_def)
qed


theorem bookkeeping_matches_registry_witness:
  "connection_kind ''c'' (mgr_ops [(small_world, connect_ssh), (small_world, StartPty ''c'' 80 24)] start_manager)
     = Some KindSsh"
proof -
  have "\<exists>pty. get_pty_session ''c''
      (mgr_ops [(small_world, connect_ssh), (small_world, StartPty ''c'' 80 24)] start_manager) = Some pty"
    by (simp add: mgr_ops_def mgr_eval eval_nat_numeral get_connection_def cancel_existing_def take_session_def new_registry_def
        create_pty_session_def small_client_def demo_session_def bump_generation_def put_session_def Let_def
        get_pty_session_def get_session_def)
  then show ?thesis
    using bookkeeping_matches_registry[of "[(small_world, connect_ssh), (small_world, StartPty ''c'' 80 24)]"
        known_store demo_disk "''c''"]
    unfolding start_manager_def by (elim exE conjE) simp
qed

definition one_terminal :: "mgr_move list" where
  "one_terminal = StartOp connect_ssh # replicate 7 (RunWindow 0)
     @ StartOp (StartPty ''c'' 80 24) # replicate 5 (RunWindow 1)"

lemma one_terminal_run:
  "\<exists>m g. mgr_schedule small_world one_terminal (start_manager, []) = (m, [TaskDone, PtyWork (Returned (Some g))])
     \<and> get_pty_session ''c'' m = Some \<lparr>pty_channels = 0, pty_cancel = 0\<rparr>"
  by (simp add: one_terminal_def mgr_eval eval_nat_numeral get_connection_def cancel_existing_def take_session_def
      new_registry_def create_pty_session_def small_client_def demo_session_def bump_generation_def put_session_def Let_def
      get_pty_session_def get_session_def)

theorem terminals_live_witness:
  "\<exists>m :: unit manager. get_pty_session ''c'' m = Some \<lparr>pty_channels = 0, pty_cancel = 0\<rparr> \<and> 0 \<notin> cancelled (mg_ptys m)"
proof -
  obtain m g where run: "mgr_schedule small_world one_terminal (start_manager, []) = (m, [TaskDone, PtyWork (Returned (Some g))])"
    and s: "get_pty_session ''c'' m = Some \<lparr>pty_channels = 0, pty_cancel = 0\<rparr>"
    using one_terminal_run by blast
  have "reach mgr_init (mgr_step {small_world}) (mgr_schedule small_world one_terminal (start_manager, []))"
    by (rule mgr_schedule_reach[OF start_reach])
  from terminals_live[OF this[unfolded run] s, THEN conjunct1] have "0 \<notin> cancelled (mg_ptys m)" by simp
  with s show ?thesis by blast
qed

text \<open>A pool through a tunnel of the registered SSH connection.\<close>

definition through_tunnel :: "mgr_move list" where
  "through_tunnel = StartOp connect_ssh # replicate 7 (RunWindow 0)
     @ StartOp (Create ''d'' (RPostgres (pg_local ''db'' ''u'')
         (Some \<lparr>tr_ssh_connection_id = ''c'', tr_remote_host = ''db'', tr_remote_port = 5432\<rparr>))) # replicate 8 (RunWindow 1)"

lemma through_tunnel_run:
  "\<exists>m. mgr_schedule small_world through_tunnel (start_manager, []) = (m, [TaskDone, TaskDone])
     \<and> mg_next_tunnel m = 1 \<and> mg_tunnels_closed m = []"
proof -
  have "mi_listen small_world a = Inr 5432" for a by (simp add: small_world_def)
  then show ?thesis
    by (simp add: through_tunnel_def mgr_eval eval_nat_numeral get_connection_def tunnel_open_def local_redirected)
qed

theorem nothing_leaks_witness:
  "\<exists>m cid h t. mg_next_tunnel m = 1 \<and> map_of (mg_connections (m :: unit manager)) cid = Some (ManagedPostgres h (Some t))
     \<and> tn_cancel t = 0"
proof -
  obtain m :: "unit manager" where run: "mgr_schedule small_world through_tunnel (start_manager, []) = (m, [TaskDone, TaskDone])"
    and t: "mg_next_tunnel m = 1" "mg_tunnels_closed m = []"
    using through_tunnel_run by blast
  have "reach mgr_init (mgr_step {small_world}) (mgr_schedule small_world through_tunnel (start_manager, []))"
    by (rule mgr_schedule_reach[OF start_reach])
  from nothing_leaks[OF this[unfolded run]] show ?thesis using t by force
qed

end
