(* ===== verification/Introspect.thy ===== *)
theory Introspect
  imports PgPool
begin

text \<open>
  Schema introspection, \<open>crates/pg/src/introspect.rs\<close>, and the pool's operations for it
  (\<open>crates/pg/src/lib.rs\<close>). A row is a list of typed values and \<open>row.get\<close> panics when the type does
  not fit: a decoded result is \<open>None\<close> then. In the query texts runs of white space are one blank and
  the comment is left out.
\<close>

section \<open>Values\<close>

text \<open>An \<open>f32\<close> is its bits.\<close>

datatype pg_value = VText string | VBool bool | VChar "8 word" | VFloat "32 word" | VNull

fun get_text :: "pg_value \<Rightarrow> string option" where
  "get_text (VText s) = Some s" | "get_text _ = None"

fun get_bool :: "pg_value \<Rightarrow> bool option" where
  "get_bool (VBool b) = Some b" | "get_bool _ = None"

fun get_char :: "pg_value \<Rightarrow> 8 word option" where
  "get_char (VChar c) = Some c" | "get_char _ = None"

fun get_float :: "pg_value \<Rightarrow> 32 word option" where
  "get_float (VFloat f) = Some f" | "get_float _ = None"

fun get_opt_text :: "pg_value \<Rightarrow> string option option" where
  "get_opt_text (VText s) = Some (Some s)" | "get_opt_text VNull = Some None" | "get_opt_text _ = None"

text \<open>\<open>row.get(i)\<close>\<close>

definition column :: "(pg_value \<Rightarrow> 'a option) \<Rightarrow> nat \<Rightarrow> pg_value list \<Rightarrow> 'a option" where
  "column conv i row = (if i < length row then conv (row ! i) else None)"

record 's catalog_client =
  cat_query :: "string \<Rightarrow> string list \<Rightarrow> 's \<Rightarrow> (driver_error + pg_value list list) \<times> 's"

text \<open>\<open>map\<close> and \<open>filter_map\<close> over the rows; a row may panic, be left out, or give an item.\<close>

fun decode_all :: "('row \<Rightarrow> 'a option option) \<Rightarrow> 'row list \<Rightarrow> 'a list option" where
  "decode_all dec [] = Some []"
| "decode_all dec (row # rows) =
     (case dec row of
        None \<Rightarrow> None
      | Some item \<Rightarrow>
          (case decode_all dec rows of
             None \<Rightarrow> None
           | Some items \<Rightarrow> Some (case item of None \<Rightarrow> items | Some x \<Rightarrow> x # items)))"

definition catalog_list :: "string \<Rightarrow> (pg_value list \<Rightarrow> 'a option option) \<Rightarrow> string list \<Rightarrow> 's catalog_client \<Rightarrow> 's
    \<Rightarrow> (driver_error + 'a list) option \<times> 's" where
  "catalog_list sql dec params client s =
     (case cat_query client sql params s of
        (Inl e, s') \<Rightarrow> (Some (Inl e), s')
      | (Inr rows, s') \<Rightarrow> (map_option Inr (decode_all dec rows), s'))"

definition sql_lit :: "string \<Rightarrow> string" where
  "sql_lit s = quote1 # s @ [quote1]"

section \<open>Databases and schemas\<close>

record db_summary =
  ds_name :: string
  ds_is_template :: bool
  ds_owner :: string

record schema_summary =
  ss_name :: string
  ss_owner :: string
  ss_is_system :: bool

definition databases_sql :: string where
  "databases_sql =
     ''SELECT d.datname, d.datistemplate, pg_catalog.pg_get_userbyid(d.datdba) AS owner ''
     @ ''FROM pg_catalog.pg_database d WHERE NOT d.datistemplate ORDER BY d.datname''"

definition decode_database :: "pg_value list \<Rightarrow> db_summary option option" where
  "decode_database r =
     (case (column get_text 0 r, column get_bool 1 r, column get_text 2 r) of
        (Some name, Some template, Some owner) \<Rightarrow>
          Some (Some \<lparr>ds_name = name, ds_is_template = template, ds_owner = owner\<rparr>)
      | _ \<Rightarrow> None)"

definition list_databases :: "'s catalog_client \<Rightarrow> 's \<Rightarrow> (driver_error + db_summary list) option \<times> 's" where
  "list_databases = catalog_list databases_sql decode_database []"

definition schemas_sql :: string where
  "schemas_sql =
     ''SELECT n.nspname, pg_catalog.pg_get_userbyid(n.nspowner) AS owner, ''
     @ ''(n.nspname IN ('' @ sql_lit ''pg_catalog'' @ '', '' @ sql_lit ''information_schema'' @ '', '' @ sql_lit ''pg_toast''
     @ '') OR n.nspname LIKE '' @ sql_lit ''pg_temp_%'' @ '' OR n.nspname LIKE '' @ sql_lit ''pg_toast_temp_%''
     @ '') AS is_system FROM pg_catalog.pg_namespace n ORDER BY is_system, n.nspname''"

definition decode_schema :: "pg_value list \<Rightarrow> schema_summary option option" where
  "decode_schema r =
     (case (column get_text 0 r, column get_text 1 r, column get_bool 2 r) of
        (Some name, Some owner, Some system) \<Rightarrow>
          Some (Some \<lparr>ss_name = name, ss_owner = owner, ss_is_system = system\<rparr>)
      | _ \<Rightarrow> None)"

definition list_schemas :: "'s catalog_client \<Rightarrow> 's \<Rightarrow> (driver_error + schema_summary list) option \<times> 's" where
  "list_schemas = catalog_list schemas_sql decode_schema []"

section \<open>Relations\<close>

datatype relation_kind = RelTable | RelView | RelMaterializedView | RelPartitionedTable | RelForeignTable

text \<open>\<open>c as u8 as char\<close>\<close>

definition i8_char :: "8 word \<Rightarrow> char" where
  "i8_char c = char_of (unat c)"

definition from_relkind :: "8 word \<Rightarrow> relation_kind option" where
  "from_relkind c =
     (if i8_char c = CHR ''r'' then Some RelTable
      else if i8_char c = CHR ''v'' then Some RelView
      else if i8_char c = CHR ''m'' then Some RelMaterializedView
      else if i8_char c = CHR ''p'' then Some RelPartitionedTable
      else if i8_char c = CHR ''f'' then Some RelForeignTable
      else None)"

record relation =
  re_schema :: string
  re_name :: string
  re_kind :: relation_kind
  re_owner :: string
  re_estimated_rows :: "32 word"

definition relations_sql :: string where
  "relations_sql =
     ''SELECT n.nspname, c.relname, c.relkind, pg_catalog.pg_get_userbyid(c.relowner) AS owner, c.reltuples ''
     @ ''FROM pg_catalog.pg_class c JOIN pg_catalog.pg_namespace n ON n.oid = c.relnamespace ''
     @ ''WHERE n.nspname = $1 AND c.relkind = ANY(ARRAY[''
     @ join '','' (map sql_lit [''r'', ''v'', ''m'', ''p'', ''f'']) @ '']::'' @ [quote2] @ ''char'' @ [quote2]
     @ ''[]) ORDER BY c.relname''"

definition decode_relation :: "pg_value list \<Rightarrow> relation option option" where
  "decode_relation r =
     (case column get_char 2 r of
        None \<Rightarrow> None
      | Some relkind \<Rightarrow>
          (case from_relkind relkind of
             None \<Rightarrow> Some None
           | Some kind \<Rightarrow>
               (case (column get_text 0 r, column get_text 1 r, column get_text 3 r, column get_float 4 r) of
                  (Some schema, Some name, Some owner, Some estimated) \<Rightarrow>
                    Some (Some \<lparr>re_schema = schema, re_name = name, re_kind = kind, re_owner = owner,
                                re_estimated_rows = estimated\<rparr>)
                | _ \<Rightarrow> None)))"

definition list_relations :: "'s catalog_client \<Rightarrow> string \<Rightarrow> 's \<Rightarrow> (driver_error + relation list) option \<times> 's" where
  "list_relations client schema = catalog_list relations_sql decode_relation [schema] client"

section \<open>Sequences, routines, object types\<close>

record sequence =
  sq_schema :: string
  sq_name :: string
  sq_owner :: string

definition sequences_sql :: string where
  "sequences_sql =
     ''SELECT n.nspname, c.relname, pg_catalog.pg_get_userbyid(c.relowner) AS owner ''
     @ ''FROM pg_catalog.pg_class c JOIN pg_catalog.pg_namespace n ON n.oid = c.relnamespace ''
     @ ''WHERE n.nspname = $1 AND c.relkind = '' @ sql_lit ''S'' @ '' ORDER BY c.relname''"

definition decode_sequence :: "pg_value list \<Rightarrow> sequence option option" where
  "decode_sequence r =
     (case (column get_text 0 r, column get_text 1 r, column get_text 2 r) of
        (Some schema, Some name, Some owner) \<Rightarrow> Some (Some \<lparr>sq_schema = schema, sq_name = name, sq_owner = owner\<rparr>)
      | _ \<Rightarrow> None)"

definition list_sequences :: "'s catalog_client \<Rightarrow> string \<Rightarrow> 's \<Rightarrow> (driver_error + sequence list) option \<times> 's" where
  "list_sequences client schema = catalog_list sequences_sql decode_sequence [schema] client"

datatype routine_kind = RoutineFunction | RoutineProcedure | RoutineAggregate | RoutineWindow

definition from_prokind :: "8 word \<Rightarrow> routine_kind option" where
  "from_prokind c =
     (if i8_char c = CHR ''f'' then Some RoutineFunction
      else if i8_char c = CHR ''p'' then Some RoutineProcedure
      else if i8_char c = CHR ''a'' then Some RoutineAggregate
      else if i8_char c = CHR ''w'' then Some RoutineWindow
      else None)"

record routine =
  ro_schema :: string
  ro_name :: string
  ro_kind :: routine_kind
  ro_owner :: string
  ro_argument_signature :: string
  ro_return_type :: "string option"

definition routines_sql :: string where
  "routines_sql =
     ''SELECT n.nspname, p.proname, p.prokind, pg_catalog.pg_get_userbyid(p.proowner) AS owner, ''
     @ ''pg_catalog.pg_get_function_identity_arguments(p.oid) AS arg_sig, ''
     @ ''pg_catalog.pg_get_function_result(p.oid) AS ret_type ''
     @ ''FROM pg_catalog.pg_proc p JOIN pg_catalog.pg_namespace n ON n.oid = p.pronamespace ''
     @ ''WHERE n.nspname = $1 ORDER BY p.proname, arg_sig''"

definition decode_routine :: "pg_value list \<Rightarrow> routine option option" where
  "decode_routine r =
     (case column get_char 2 r of
        None \<Rightarrow> None
      | Some prokind \<Rightarrow>
          (case from_prokind prokind of
             None \<Rightarrow> Some None
           | Some kind \<Rightarrow>
               (case (column get_text 0 r, column get_text 1 r, column get_text 3 r, column get_opt_text 4 r, column get_opt_text 5 r) of
                  (Some schema, Some name, Some owner, Some args, Some ret) \<Rightarrow>
                    Some (Some \<lparr>ro_schema = schema, ro_name = name, ro_kind = kind, ro_owner = owner,
                                ro_argument_signature = unwrap_or [] args, ro_return_type = ret\<rparr>)
                | _ \<Rightarrow> None)))"

definition list_routines :: "'s catalog_client \<Rightarrow> string \<Rightarrow> 's \<Rightarrow> (driver_error + routine list) option \<times> 's" where
  "list_routines client schema = catalog_list routines_sql decode_routine [schema] client"

datatype object_type_kind = TypeComposite | TypeEnum | TypeDomain | TypeRange

definition from_typtype :: "8 word \<Rightarrow> object_type_kind option" where
  "from_typtype c =
     (if i8_char c = CHR ''c'' then Some TypeComposite
      else if i8_char c = CHR ''e'' then Some TypeEnum
      else if i8_char c = CHR ''d'' then Some TypeDomain
      else if i8_char c = CHR ''r'' \<or> i8_char c = CHR ''m'' then Some TypeRange
      else None)"

record object_type =
  ot_schema :: string
  ot_name :: string
  ot_kind :: object_type_kind
  ot_owner :: string

definition object_types_sql :: string where
  "object_types_sql =
     ''SELECT n.nspname, t.typname, t.typtype, pg_catalog.pg_get_userbyid(t.typowner) AS owner ''
     @ ''FROM pg_catalog.pg_type t JOIN pg_catalog.pg_namespace n ON n.oid = t.typnamespace ''
     @ ''LEFT JOIN pg_catalog.pg_class c ON c.oid = t.typrelid ''
     @ ''WHERE n.nspname = $1 AND t.typtype IN ('' @ join '', '' (map sql_lit [''c'', ''e'', ''d'', ''r'', ''m''])
     @ '') AND (t.typrelid = 0 OR c.relkind = '' @ sql_lit ''c'' @ '') ''
     @ ''AND NOT EXISTS ( SELECT 1 FROM pg_catalog.pg_type elem WHERE elem.typarray = t.oid ) ORDER BY t.typname''"

definition decode_object_type :: "pg_value list \<Rightarrow> object_type option option" where
  "decode_object_type r =
     (case column get_char 2 r of
        None \<Rightarrow> None
      | Some typtype \<Rightarrow>
          (case from_typtype typtype of
             None \<Rightarrow> Some None
           | Some kind \<Rightarrow>
               (case (column get_text 0 r, column get_text 1 r, column get_text 3 r) of
                  (Some schema, Some name, Some owner) \<Rightarrow>
                    Some (Some \<lparr>ot_schema = schema, ot_name = name, ot_kind = kind, ot_owner = owner\<rparr>)
                | _ \<Rightarrow> None)))"

definition list_object_types :: "'s catalog_client \<Rightarrow> string \<Rightarrow> 's \<Rightarrow> (driver_error + object_type list) option \<times> 's" where
  "list_object_types client schema = catalog_list object_types_sql decode_object_type [schema] client"

section \<open>The contents of a schema\<close>

record schema_contents =
  sn_tables :: "relation list"
  sn_views :: "relation list"
  sn_materialized_views :: "relation list"
  sn_sequences :: "sequence list"
  sn_routines :: "routine list"
  sn_object_types :: "object_type list"

fun categorize :: "relation list \<Rightarrow> relation list \<times> relation list \<times> relation list \<Rightarrow> relation list \<times> relation list \<times> relation list" where
  "categorize [] acc = acc"
| "categorize (r # rs) (tables, views, mats) =
     categorize rs
       (case re_kind r of
          RelTable \<Rightarrow> (tables @ [r], views, mats)
        | RelPartitionedTable \<Rightarrow> (tables @ [r], views, mats)
        | RelForeignTable \<Rightarrow> (tables @ [r], views, mats)
        | RelView \<Rightarrow> (tables, views @ [r], mats)
        | RelMaterializedView \<Rightarrow> (tables, views, mats @ [r]))"

fun failures :: "('e + 'a) list \<Rightarrow> 'e list" where
  "failures [] = []"
| "failures (Inl e # rs) = e # failures rs"
| "failures (Inr _ # rs) = failures rs"

text \<open>
  \<open>try_join!\<close>: the four queries run at once; when some fail, the call ends with the error of the one
  that fails first, which \<open>first\<close> picks among them, and a panic of a decoder is a panic of the call.
\<close>

definition list_schema_contents :: "(driver_error list \<Rightarrow> driver_error) \<Rightarrow> 's catalog_client \<Rightarrow> string \<Rightarrow> 's
    \<Rightarrow> (driver_error + schema_contents) option \<times> 's" where
  "list_schema_contents first client schema s =
     (case list_relations client schema s of (relations, s1) \<Rightarrow>
      (case list_sequences client schema s1 of (sequences, s2) \<Rightarrow>
      (case list_routines client schema s2 of (routines, s3) \<Rightarrow>
      (case list_object_types client schema s3 of (object_types, s4) \<Rightarrow>
      (case (relations, sequences, routines, object_types) of
         (Some (Inr rs), Some (Inr sq), Some (Inr ro), Some (Inr ot)) \<Rightarrow>
           (case categorize rs ([], [], []) of
              (tables, views, mats) \<Rightarrow>
                (Some (Inr \<lparr>sn_tables = tables, sn_views = views, sn_materialized_views = mats, sn_sequences = sq,
                            sn_routines = ro, sn_object_types = ot\<rparr>), s4))
       | (Some r1, Some r2, Some r3, Some r4) \<Rightarrow>
           (Some (Inl (first (failures [map_sum id (\<lambda>_. ()) r1, map_sum id (\<lambda>_. ()) r2, map_sum id (\<lambda>_. ()) r3,
                              map_sum id (\<lambda>_. ()) r4]))), s4)
       | _ \<Rightarrow> (None, s4))))))"

section \<open>Columns\<close>

record column_detail =
  cd_name :: string
  cd_type_name :: string
  cd_not_null :: bool
  cd_has_default :: bool
  cd_is_generated :: bool

definition columns_sql :: string where
  "columns_sql =
     ''SELECT a.attname, pg_catalog.format_type(a.atttypid, NULL) AS type_name, a.attnotnull, ''
     @ ''(d.adbin IS NOT NULL) AS has_default, (a.attgenerated <> '' @ sql_lit [] @ '') AS is_generated ''
     @ ''FROM pg_catalog.pg_attribute a JOIN pg_catalog.pg_class c ON c.oid = a.attrelid ''
     @ ''JOIN pg_catalog.pg_namespace n ON n.oid = c.relnamespace ''
     @ ''LEFT JOIN pg_catalog.pg_attrdef d ON d.adrelid = a.attrelid AND d.adnum = a.attnum ''
     @ ''WHERE n.nspname = $1 AND c.relname = $2 AND a.attnum > 0 AND NOT a.attisdropped ORDER BY a.attnum''"

definition decode_column :: "pg_value list \<Rightarrow> column_detail option option" where
  "decode_column r =
     (case (column get_text 0 r, column get_text 1 r, column get_bool 2 r, column get_bool 3 r, column get_bool 4 r) of
        (Some name, Some type_name, Some not_null, Some has_default, Some generated) \<Rightarrow>
          Some (Some \<lparr>cd_name = name, cd_type_name = type_name, cd_not_null = not_null, cd_has_default = has_default,
                      cd_is_generated = generated\<rparr>)
      | _ \<Rightarrow> None)"

definition describe_columns :: "'s catalog_client \<Rightarrow> string \<Rightarrow> string \<Rightarrow> 's \<Rightarrow> (driver_error + column_detail list) option \<times> 's" where
  "describe_columns client schema table = catalog_list columns_sql decode_column [schema, table] client"

section \<open>The pool's operations\<close>

text \<open>\<open>Ok(...await?)\<close>; a panic is the inner \<open>None\<close>.\<close>

definition catalog_work :: "(driver_error + 'a) option \<times> 's \<Rightarrow> (pg_error + 'a option) \<times> 's" where
  "catalog_work r =
     (case r of
        (None, s) \<Rightarrow> (Inr None, s)
      | (Some (Inl e), s) \<Rightarrow> (Inl (Driver e), s)
      | (Some (Inr x), s) \<Rightarrow> (Inr (Some x), s))"

definition pool_list_databases where
  "pool_list_databases clients inp =
     on_lease inp (LeaseFast BROWSER_SESSION_ID JOther) (\<lambda>c s. catalog_work (list_databases (clients c) s))"

definition pool_list_schemas_in where
  "pool_list_schemas_in clients inp database =
     on_lease inp (BrowserStart database JOther) (\<lambda>c s. catalog_work (list_schemas (clients c) s))"

definition pool_list_schemas where
  "pool_list_schemas clients inp = pool_list_schemas_in clients inp None"

definition pool_list_relations_in where
  "pool_list_relations_in clients inp schema database =
     on_lease inp (BrowserStart database JOther) (\<lambda>c s. catalog_work (list_relations (clients c) schema s))"

definition pool_list_relations where
  "pool_list_relations clients inp schema = pool_list_relations_in clients inp schema None"

definition pool_list_schema_contents_in where
  "pool_list_schema_contents_in first clients inp schema database =
     on_lease inp (BrowserStart database JOther) (\<lambda>c s. catalog_work (list_schema_contents first (clients c) schema s))"

definition pool_describe_columns where
  "pool_describe_columns clients inp schema table =
     on_lease inp (LeaseFast BROWSER_SESSION_ID JOther) (\<lambda>c s. catalog_work (describe_columns (clients c) schema table s))"

section \<open>What a catalog answers\<close>

text \<open>The rows of the catalog, with the letters of \<open>pg_class.relkind\<close>, \<open>pg_proc.prokind\<close> and \<open>pg_type.typtype\<close>.\<close>

fun relkind :: "relation_kind \<Rightarrow> char" where
  "relkind RelTable = CHR ''r''"
| "relkind RelView = CHR ''v''"
| "relkind RelMaterializedView = CHR ''m''"
| "relkind RelPartitionedTable = CHR ''p''"
| "relkind RelForeignTable = CHR ''f''"

fun prokind :: "routine_kind \<Rightarrow> char" where
  "prokind RoutineFunction = CHR ''f''"
| "prokind RoutineProcedure = CHR ''p''"
| "prokind RoutineAggregate = CHR ''a''"
| "prokind RoutineWindow = CHR ''w''"

fun typtype :: "object_type_kind \<Rightarrow> bool \<Rightarrow> char" where
  "typtype TypeComposite _ = CHR ''c''"
| "typtype TypeEnum _ = CHR ''e''"
| "typtype TypeDomain _ = CHR ''d''"
| "typtype TypeRange multi = (if multi then CHR ''m'' else CHR ''r'')"

definition char_value :: "char \<Rightarrow> pg_value" where
  "char_value c = VChar (of_nat (of_char c))"

definition opt_text_value :: "string option \<Rightarrow> pg_value" where
  "opt_text_value t = (case t of None \<Rightarrow> VNull | Some s \<Rightarrow> VText s)"

definition relation_row :: "relation \<Rightarrow> pg_value list" where
  "relation_row r = [VText (re_schema r), VText (re_name r), char_value (relkind (re_kind r)), VText (re_owner r),
     VFloat (re_estimated_rows r)]"

definition sequence_row :: "sequence \<Rightarrow> pg_value list" where
  "sequence_row q = [VText (sq_schema q), VText (sq_name q), VText (sq_owner q)]"

text \<open>A routine without arguments has an empty signature or none at all.\<close>

definition routine_row :: "bool \<Rightarrow> routine \<Rightarrow> pg_value list" where
  "routine_row null r = [VText (ro_schema r), VText (ro_name r), char_value (prokind (ro_kind r)), VText (ro_owner r),
     (if null \<and> ro_argument_signature r = [] then VNull else VText (ro_argument_signature r)), opt_text_value (ro_return_type r)]"

definition object_type_row :: "bool \<Rightarrow> object_type \<Rightarrow> pg_value list" where
  "object_type_row multi t = [VText (ot_schema t), VText (ot_name t), char_value (typtype (ot_kind t) multi), VText (ot_owner t)]"

lemma i8_char_value: "i8_char (of_nat (of_char c)) = c"
  by (simp add: i8_char_def unat_of_nat)

lemma from_relkind_iff: "from_relkind c = Some k \<longleftrightarrow> i8_char c = relkind k"
  by (cases k) (auto simp: from_relkind_def)

lemma from_prokind_iff: "from_prokind c = Some k \<longleftrightarrow> i8_char c = prokind k"
  by (cases k) (auto simp: from_prokind_def)

lemma from_typtype_iff: "from_typtype c = Some k \<longleftrightarrow> (\<exists>multi. i8_char c = typtype k multi)"
  by (cases k) (auto simp: from_typtype_def)

lemma kinds_written:
  "from_relkind (of_nat (of_char (relkind r))) = Some r"
  "from_prokind (of_nat (of_char (prokind p))) = Some p"
  "from_typtype (of_nat (of_char (typtype t multi))) = Some t"
  by (auto simp: from_relkind_iff from_prokind_iff from_typtype_iff i8_char_value)

lemma decode_rows:
  "decode_relation (relation_row r) = Some (Some r)"
  "decode_sequence (sequence_row q) = Some (Some q)"
  "decode_routine (routine_row null p) = Some (Some p)"
  "decode_object_type (object_type_row multi t) = Some (Some t)"
  by (auto simp: decode_relation_def relation_row_def decode_sequence_def sequence_row_def decode_routine_def routine_row_def
      decode_object_type_def object_type_row_def column_def char_value_def kinds_written opt_text_value_def split: option.splits)

lemma decode_all_rows: "(\<And>x. dec (enc x) = Some (Some x)) \<Longrightarrow> decode_all dec (map enc xs) = Some xs"
  by (induction xs) simp_all

lemma decode_all_subset: "decode_all dec rows = Some xs \<Longrightarrow> length xs \<le> length rows"
  by (induction rows arbitrary: xs) (auto split: option.splits intro: le_SucI)

fun is_table :: "relation_kind \<Rightarrow> bool" where
  "is_table RelTable = True"
| "is_table RelPartitionedTable = True"
| "is_table RelForeignTable = True"
| "is_table _ = False"

lemma categorize_filters:
  "categorize rs (ts, vs, ms) =
     (ts @ filter (\<lambda>r. is_table (re_kind r)) rs, vs @ filter (\<lambda>r. re_kind r = RelView) rs,
      ms @ filter (\<lambda>r. re_kind r = RelMaterializedView) rs)"
  by (induction rs arbitrary: ts vs ms) (auto split: relation_kind.splits)

text \<open>
  C33. The tree of a schema shows the catalog as it is: when the four queries are answered with the rows
  of relations, sequences, routines and types, the contents are these, in their order, no row lost and
  none misread, and every relation is in exactly one of the three groups, with tables, partitioned
  tables and foreign tables together.
\<close>

theorem schema_contents_faithful:
  assumes "cat_query client relations_sql [schema] s = (Inr (map relation_row rs), s1)"
    and "cat_query client sequences_sql [schema] s1 = (Inr (map sequence_row sq), s2)"
    and "cat_query client routines_sql [schema] s2 = (Inr (map (routine_row null) ro), s3)"
    and "cat_query client object_types_sql [schema] s3 = (Inr (map (object_type_row multi) ot), s4)"
  shows "\<exists>c. list_schema_contents first client schema s = (Some (Inr c), s4)
    \<and> sn_sequences c = sq \<and> sn_routines c = ro \<and> sn_object_types c = ot
    \<and> sn_tables c = filter (\<lambda>r. re_kind r \<in> {RelTable, RelPartitionedTable, RelForeignTable}) rs
    \<and> sn_views c = filter (\<lambda>r. re_kind r = RelView) rs
    \<and> sn_materialized_views c = filter (\<lambda>r. re_kind r = RelMaterializedView) rs
    \<and> mset (sn_tables c) + mset (sn_views c) + mset (sn_materialized_views c) = mset rs"
proof -
  have t: "(\<lambda>r. re_kind r \<in> {RelTable, RelPartitionedTable, RelForeignTable}) = (\<lambda>r. is_table (re_kind r))"
  proof
    fix r show "(re_kind r \<in> {RelTable, RelPartitionedTable, RelForeignTable}) = is_table (re_kind r)"
      by (cases "re_kind r") auto
  qed
  have l: "list_relations client schema s = (Some (Inr rs), s1)" "list_sequences client schema s1 = (Some (Inr sq), s2)"
    "list_routines client schema s2 = (Some (Inr ro), s3)" "list_object_types client schema s3 = (Some (Inr ot), s4)"
    using assms by (simp_all add: list_relations_def list_sequences_def list_routines_def list_object_types_def
        catalog_list_def decode_all_rows[of _ relation_row] decode_all_rows[of _ sequence_row]
        decode_all_rows[of _ "routine_row null"] decode_all_rows[of _ "object_type_row multi"] decode_rows)
  have "mset (filter (\<lambda>r. is_table (re_kind r)) rs) + mset (filter (\<lambda>r. re_kind r = RelView) rs)
      + mset (filter (\<lambda>r. re_kind r = RelMaterializedView) rs) = mset rs"
  proof (induction rs)
    case (Cons r rs)
    then show ?case by (cases "re_kind r") (auto simp: multiset_eq_iff)
  qed simp
  then show ?thesis
    unfolding t by (simp add: list_schema_contents_def l categorize_filters)
qed

section \<open>Errors\<close>

text \<open>A failed query is an error of the driver, and leaves the pool with the browser's lease.\<close>

lemma catalog_list_error:
  "cat_query client sql params s = (Inl e, s') \<Longrightarrow> catalog_work (catalog_list sql dec params client s) = (Inl (Driver e), s')"
  by (simp add: catalog_list_def catalog_work_def)

definition demo_catalog :: "unit catalog_client" where
  "demo_catalog = \<lparr>cat_query = (\<lambda>sql params s.
     (Inr (if sql = relations_sql then map relation_row
              [\<lparr>re_schema = ''s'', re_name = ''a'', re_kind = RelView, re_owner = ''o'', re_estimated_rows = 0\<rparr>,
               \<lparr>re_schema = ''s'', re_name = ''b'', re_kind = RelForeignTable, re_owner = ''o'', re_estimated_rows = 0\<rparr>]
           else []), s))\<rparr>"

theorem schema_contents_faithful_witness:
  "\<exists>c. list_schema_contents hd demo_catalog ''s'' () = (Some (Inr c), ())
     \<and> map re_name (sn_tables c) = [''b''] \<and> map re_name (sn_views c) = [''a'']"
proof -
  have ne: "sequences_sql \<noteq> relations_sql" "routines_sql \<noteq> relations_sql" "object_types_sql \<noteq> relations_sql"
    by (simp_all add: relations_sql_def sequences_sql_def routines_sql_def object_types_sql_def)
  let ?rs = "[\<lparr>re_schema = ''s'', re_name = ''a'', re_kind = RelView, re_owner = ''o'', re_estimated_rows = 0\<rparr>,
    \<lparr>re_schema = ''s'', re_name = ''b'', re_kind = RelForeignTable, re_owner = ''o'', re_estimated_rows = 0\<rparr>]"
  show ?thesis
    using schema_contents_faithful[of demo_catalog "''s''" "()" ?rs "()" "[]" "()" False "[]" "()" False "[]" "()" hd] ne
    by (auto simp: demo_catalog_def)
qed

end
