(* ===== verification/PgClean.thy ===== *)
theory PgClean
  imports PgPool
begin

text \<open>
  Transactions and the pool. The code opens a transaction for every cursor and counts on the cursor
  remembered with the connection to end it: \<open>release_session\<close> says that it makes the connection safe
  to hand to another session. What the server does with a text is a parameter; \<open>tx_laws\<close> states the
  part of its behaviour that counts: the status that PostgreSQL reports after every message.
\<close>

section \<open>The status of a session\<close>

text \<open>The three values of the \<open>ReadyForQuery\<close> message. A connection that is lost is \<open>TxIdle\<close>: the server
  has ended its transaction.\<close>

datatype tx_status = TxIdle | TxBlock | TxFailed

text \<open>
  A commit that succeeds leaves the block, one that fails leaves it or makes it a failed one; a rollback
  leaves it. Preparing a statement and choosing a cursor name do not open a block, and neither do the
  texts in \<open>plain\<close>: those that do not open one by themselves, such as \<open>BEGIN\<close>.
\<close>

definition tx_laws :: "'s pg_client \<Rightarrow> ('s \<Rightarrow> tx_status) \<Rightarrow> (string \<Rightarrow> bool) \<Rightarrow> bool" where
  "tx_laws client status plain \<longleftrightarrow>
     (\<forall>i s. status (snd (batch_execute client (close_sql i) s)) \<noteq> TxBlock)
   \<and> (\<forall>s. status (snd (batch_execute client ''ROLLBACK'' s)) \<noteq> TxBlock)
   \<and> (\<forall>q s. status s \<noteq> TxBlock \<longrightarrow> status (snd (prepare_columns client q s)) \<noteq> TxBlock)
   \<and> (\<forall>s. status (snd (fresh_id client s)) = status s)
   \<and> (\<forall>q s. plain q \<longrightarrow> status s \<noteq> TxBlock \<longrightarrow> status (snd (simple_query client q s)) \<noteq> TxBlock)
   \<and> (\<forall>q s. plain q \<longrightarrow> status s \<noteq> TxBlock \<longrightarrow> status (snd (batch_execute client q s)) \<noteq> TxBlock)"

definition plain_script :: "(string \<Rightarrow> bool) \<Rightarrow> string \<Rightarrow> bool" where
  "plain_script plain sql \<longleftrightarrow> plain sql
     \<and> (\<forall>preamble main. split_at_last_statement sql = Some (Some (preamble, main)) \<longrightarrow> plain preamble \<and> plain main)"

text \<open>What the client of one connection does, seen from the status of another.\<close>

definition untouched :: "'s pg_client \<Rightarrow> ('s \<Rightarrow> tx_status) \<Rightarrow> bool" where
  "untouched client status \<longleftrightarrow>
     (\<forall>q s. status (snd (batch_execute client q s)) = status s) \<and> (\<forall>q s. status (snd (simple_query client q s)) = status s)
   \<and> (\<forall>q s. status (snd (prepare_columns client q s)) = status s) \<and> (\<forall>s. status (snd (fresh_id client s)) = status s)"

definition pool_laws :: "(nat \<Rightarrow> 's pg_client) \<Rightarrow> (nat \<Rightarrow> 's \<Rightarrow> tx_status) \<Rightarrow> (string \<Rightarrow> bool) \<Rightarrow> bool" where
  "pool_laws clients status plain \<longleftrightarrow>
     (\<forall>c. tx_laws (clients c) (status c) plain) \<and> (\<forall>c d. c \<noteq> d \<longrightarrow> untouched (clients c) (status d))"

section \<open>One query\<close>

lemma tx_lawsD:
  assumes "tx_laws client status plain"
  shows "batch_execute client (close_sql i) s = (r1, s1) \<Longrightarrow> status s1 \<noteq> TxBlock"
    and "batch_execute client ''ROLLBACK'' s = (r1, s1) \<Longrightarrow> status s1 \<noteq> TxBlock"
    and "prepare_columns client q s = (r2, s2) \<Longrightarrow> status s \<noteq> TxBlock \<Longrightarrow> status s2 \<noteq> TxBlock"
    and "fresh_id client s = (u, s3) \<Longrightarrow> status s3 = status s"
    and "simple_query client q s = (r4, s4) \<Longrightarrow> plain q \<Longrightarrow> status s \<noteq> TxBlock \<Longrightarrow> status s4 \<noteq> TxBlock"
    and "batch_execute client q s = (r1, s1) \<Longrightarrow> plain q \<Longrightarrow> status s \<noteq> TxBlock \<Longrightarrow> status s1 \<noteq> TxBlock"
  using assms unfolding tx_laws_def by (metis snd_conv)+

lemma close_query_ends:
  assumes "tx_laws client status plain"
  shows "status (close_query client cursor s) \<noteq> TxBlock"
  using assms unfolding close_query_def tx_laws_def
  by (auto split: prod.splits sum.splits) (metis snd_conv)+

lemma close_previous_ends:
  assumes "tx_laws client status plain" and "status s = TxBlock \<Longrightarrow> previous \<noteq> None"
  shows "status (close_previous client previous s) \<noteq> TxBlock"
  using assms(2) close_query_ends[OF assms(1)] by (auto simp: close_previous_def split: option.splits)

text \<open>A query leaves a block open only with a cursor to end it.\<close>

definition block_has_cursor :: "('s \<Rightarrow> tx_status) \<Rightarrow> (pg_error + 'r \<times> active_cursor option) \<times> 's \<Rightarrow> bool" where
  "block_has_cursor status res \<longleftrightarrow>
     (case res of (Inr (_, Some _), _) \<Rightarrow> True | (_, s') \<Rightarrow> status s' \<noteq> TxBlock)"

lemma run_multi_block:
  assumes "tx_laws client status plain" and "plain sql" and "status s \<noteq> TxBlock"
    and "run_multi_statement client sql n s = (r, s')"
  shows "status s' \<noteq> TxBlock"
  using assms(4) tx_lawsD(5)[OF assms(1) _ assms(2,3)]
  by (auto simp: run_multi_statement_def Let_def split: prod.splits sum.splits)

lemma open_cursor_block:
  assumes laws: "tx_laws client status plain" and plain: "plain sql"
  shows "block_has_cursor status (open_cursor client sql n columns s)"
proof -
  have rb: "status (snd (batch_execute client ''ROLLBACK'' t)) \<noteq> TxBlock"
    and cl: "status (snd (batch_execute client (close_sql i) t)) \<noteq> TxBlock" for t i
    using laws by (simp_all add: tx_laws_def)
  have multi: "status s' \<noteq> TxBlock" if "run_multi_statement client sql n (snd (batch_execute client ''ROLLBACK'' t)) = (r, s')"
    for r s' t by (rule run_multi_block[OF laws plain rb that])
  show ?thesis
    unfolding open_cursor_def block_has_cursor_def
    by (auto simp: Let_def rb cl split: prod.split sum.split dest: multi)
qed

lemma open_single_block:
  assumes laws: "tx_laws client status plain" and plain: "plain sql" and out: "status s \<noteq> TxBlock"
  shows "block_has_cursor status (open_single client sql n s)"
proof -
  obtain r s1 where p: "prepare_columns client sql s = (r, s1)" by fastforce
  have s1: "status s1 \<noteq> TxBlock" by (rule tx_lawsD(3)[OF laws p out])
  obtain r2 s2 where q: "simple_query client sql s1 = (r2, s2)" by fastforce
  have s2: "status s2 \<noteq> TxBlock" by (rule tx_lawsD(5)[OF laws q plain s1])
  show ?thesis
    using open_cursor_block[OF laws plain, of n _ s1] s1 s2
    by (cases r; cases r2) (simp_all add: open_single_def p q block_has_cursor_def)
qed

lemma open_query_depth_block:
  assumes "tx_laws client status plain" and "plain_script plain sql"
    and "status s = TxBlock \<Longrightarrow> previous \<noteq> None"
    and "open_query_depth depth client sql n previous s = Some res"
  shows "block_has_cursor status res"
proof (cases depth)
  case (Suc d)
  let ?s = "close_previous client previous s"
  note laws = assms(1)
  have out: "status ?s \<noteq> TxBlock" by (rule close_previous_ends[OF laws assms(3)])
  have plain: "plain sql" using assms(2) by (simp add: plain_script_def)
  show ?thesis
  proof (cases "split_at_last_statement sql")
    case (Some part)
    show ?thesis
    proof (cases part)
      case (Some pm)
      obtain pre main where pm: "pm = (pre, main)" by (cases pm)
      note split = \<open>split_at_last_statement sql = Some part\<close>[unfolded Some pm]
      have parts: "plain pre" "plain main" using assms(2) split by (simp_all add: plain_script_def)
      obtain r s2 where b: "batch_execute client pre ?s = (r, s2)" by fastforce
      have s2: "status s2 \<noteq> TxBlock" by (rule tx_lawsD(6)[OF laws b parts(1) out])
      have "block_has_cursor status res'" if "open_query_depth d client main n None s2 = Some res'" for res'
        using that open_single_block[OF laws parts(2) s2, of n] split_main_single[OF split]
        by (cases d) (auto simp: close_previous_def)
      then show ?thesis
        using assms(4) Suc split b s2 open_single_block[OF laws plain out, of n]
        by (auto simp: Let_def block_has_cursor_def split: option.splits bool.splits sum.splits)
    next
      case None
      then show ?thesis
        using assms(4) Suc \<open>split_at_last_statement sql = Some part\<close> open_single_block[OF laws plain out, of n]
          run_multi_block[OF laws plain out]
        by (auto simp: Let_def block_has_cursor_def split: option.splits bool.splits sum.splits prod.splits)
    qed
  qed (use assms(4) Suc open_single_block[OF laws plain out, of n] in \<open>auto simp: Let_def split: option.splits bool.splits\<close>)
qed (use assms(4) in simp)

section \<open>Under the operation lock\<close>

lemma execute_on_block:
  assumes "tx_laws (clients c) status plain" and "plain_script plain sql"
    and "status s = TxBlock \<Longrightarrow> pl_cursor p c \<noteq> None" and "execute_on clients c sql n p s = (r, p', s')"
    and "status s' = TxBlock"
  shows "pl_cursor p' c \<noteq> None"
proof (cases "open_query (clients c) sql n (pl_cursor p c) s")
  case None
  then show ?thesis using assms close_previous_ends[OF assms(1,3)] by (auto simp: execute_on_def Let_def)
next
  case (Some res)
  have "block_has_cursor status res"
    by (rule open_query_depth_block[OF assms(1,2,3) Some[unfolded open_query_def]])
  then show ?thesis
    using assms(4,5) Some
    by (auto simp: execute_on_def block_has_cursor_def Let_def split: sum.splits option.splits prod.splits)
qed

lemma close_ends_block:
  assumes "tx_laws (clients c) status plain" and "status s = TxBlock \<Longrightarrow> pl_cursor p c \<noteq> None"
  shows "release_close clients c p s = (p', s') \<Longrightarrow> status s' \<noteq> TxBlock"
    and "close_on clients c i p s = (p', s') \<Longrightarrow> status s' = TxBlock \<Longrightarrow> pl_cursor p' c \<noteq> None"
  using assms(2) close_query_ends[OF assms(1)]
  by (auto simp: release_close_def close_on_def split: option.splits if_splits)

text \<open>Work on another connection.\<close>

lemma untouched_close: "untouched client status \<Longrightarrow> status (close_query client cursor s) = status s"
  unfolding close_query_def untouched_def by (auto split: prod.splits sum.splits) (metis snd_conv)+

lemma untouchedD:
  assumes "untouched client status"
  shows "batch_execute client q s = (r1, s1) \<Longrightarrow> status s1 = status s"
    and "simple_query client q s = (r2, s2) \<Longrightarrow> status s2 = status s"
    and "prepare_columns client q s = (r3, s3) \<Longrightarrow> status s3 = status s"
    and "fresh_id client s = (u, s4) \<Longrightarrow> status s4 = status s"
    and "status (snd (batch_execute client q s)) = status s"
  using assms unfolding untouched_def by (metis snd_conv)+

lemma untouched_multi:
  "untouched client status \<Longrightarrow> run_multi_statement client sql n s = (r, s') \<Longrightarrow> status s' = status s"
  using untouchedD(2)[of client status sql s]
  by (auto simp: run_multi_statement_def Let_def split: prod.splits sum.splits)

lemma untouched_cursor:
  assumes "untouched client status"
  shows "status (snd (open_cursor client sql n columns s)) = status s"
  unfolding open_cursor_def
  by (auto simp: Let_def untouchedD(5)[OF assms] split: prod.split sum.split
      dest!: untouchedD(1-4)[OF assms] untouched_multi[OF assms])

lemma untouched_single:
  assumes "untouched client status"
  shows "status (snd (open_single client sql n s)) = status s"
  unfolding open_single_def
  by (auto simp: untouched_cursor[OF assms] split: prod.split sum.split dest!: untouchedD(2,3)[OF assms])

lemma untouched_query:
  assumes "untouched client status"
  shows "open_query_depth depth client sql n previous s = Some (r, s') \<Longrightarrow> status s' = status s"
proof (induction depth arbitrary: sql previous s)
  case (Suc d)
  have prev: "status (close_previous client previous s) = status s"
    using untouched_close[OF assms] by (auto simp: close_previous_def split: option.splits)
  show ?case
    using Suc.prems prev untouched_single[OF assms, of sql n "close_previous client previous s"]
    by (auto simp: Let_def split: option.splits bool.splits prod.splits sum.splits
        dest!: untouchedD(1)[OF assms] untouched_multi[OF assms] Suc.IH)
qed simp

text \<open>The connection a task works on under the lock.\<close>

fun lock_of :: "pool_task \<Rightarrow> nat option" where
  "lock_of (Holding c _) = Some c"
| "lock_of (ReleaseClose c) = Some c"
| "lock_of _ = None"

lemma window_elsewhere:
  assumes "sql_window clients t p s = Some (t', p', s')" and "lock_of t = Some c" and "c \<noteq> d"
    and "untouched (clients c) status"
  shows "status s' = status s \<and> pl_cursor p' d = pl_cursor p d"
proof -
  have q: "status s2 = status s" if "open_query (clients c) sql n prev s = Some (r, s2)" for sql n prev r s2
    using untouched_query[OF assms(4)] that by (simp add: open_query_def)
  have pr: "status (close_previous (clients c) prev s) = status s" for prev
    using untouched_close[OF assms(4)] by (auto simp: close_previous_def split: option.splits)
  have f: "status s2 = status s" if "fetch_page (clients c) cur n s = (r, s2)" for cur n r s2
    using that untouchedD(2)[OF assms(4)]
    by (auto simp: fetch_page_def Let_def split: prod.splits sum.splits)
  show ?thesis
    using assms(1-3)
    by (cases "(clients, t, p, s)" rule: sql_window.cases)
       (auto simp: execute_on_def fetch_on_def close_on_def release_close_def Let_def pr untouched_close[OF assms(4)]
         split: option.splits sum.splits prod.splits if_splits dest!: q f)
qed

section \<open>Interleavings\<close>

text \<open>
  The steps of \<open>pool_step\<close> in which the texts of callers are plain and no future is dropped while it
  holds the operation lock. Other work, row edits and introspection, does not open a block.
\<close>

fun plain_task :: "(string \<Rightarrow> bool) \<Rightarrow> pool_task \<Rightarrow> bool" where
  "plain_task plain (Holding _ (JExecute sql _)) = plain_script plain sql"
| "plain_task plain t = True"

inductive calm_step :: "(nat \<Rightarrow> 's pg_client) \<Rightarrow> (nat \<Rightarrow> 's \<Rightarrow> tx_status) \<Rightarrow> (string \<Rightarrow> bool)
    \<Rightarrow> 's pool_state \<Rightarrow> 's pool_state \<Rightarrow> bool"
  for clients :: "nat \<Rightarrow> 's pg_client" and status :: "nat \<Rightarrow> 's \<Rightarrow> tx_status" and plain :: "string \<Rightarrow> bool" where
  calm_start: "entry_point t \<Longrightarrow> calm_step clients status plain (p, s, ts) (p, s, ts @ [t])"
| calm_window: "i < length ts \<Longrightarrow> lease_window inp (ts ! i) p = (t', p') \<Longrightarrow>
     calm_step clients status plain (p, s, ts) (p', s, ts[i := t'])"
| calm_sql: "i < length ts \<Longrightarrow> plain_task plain (ts ! i) \<Longrightarrow> sql_window clients (ts ! i) p s = Some (t', p', s') \<Longrightarrow>
     calm_step clients status plain (p, s, ts) (p', s', ts[i := t'])"
| calm_other: "i < length ts \<Longrightarrow> ts ! i = Holding c JOther \<Longrightarrow>
     (\<And>d. status d s \<noteq> TxBlock \<Longrightarrow> status d s' \<noteq> TxBlock) \<Longrightarrow>
     calm_step clients status plain (p, s, ts) (p, s', ts[i := Finished])"
| calm_cancelled: "i < length ts \<Longrightarrow> calm_step clients status plain (p, s, ts) (p, s, ts[i := Finished])"

inductive_cases calm_stepE: "calm_step clients status plain st st'"

lemma calm_step_pool_step: "calm_step clients status plain st st' \<Longrightarrow> pool_step clients st st'"
  by (induction rule: calm_step.induct) (blast intro: pool_step.intros)+

definition tx_init :: "(nat \<Rightarrow> 's \<Rightarrow> tx_status) \<Rightarrow> 's pool_state \<Rightarrow> bool" where
  "tx_init status st \<longleftrightarrow> pool_init st \<and> (\<forall>c. status c (fst (snd st)) \<noteq> TxBlock)"

definition blocks_recorded :: "(nat \<Rightarrow> 's \<Rightarrow> tx_status) \<Rightarrow> 's pool_state \<Rightarrow> bool" where
  "blocks_recorded status st \<longleftrightarrow> (\<forall>c. status c (fst (snd st)) = TxBlock \<longrightarrow> pl_cursor (fst st) c \<noteq> None)"

lemma window_cursors: "lease_window inp t p = (t', p') \<Longrightarrow> pl_cursor p' = pl_cursor p"
  by (cases t)
     (auto simp: pool_defs Let_def split: option.splits sum.splits if_splits prod.splits pool_job.splits list.splits)

lemma window_under_lock:
  assumes "sql_window clients t p s = Some (t', p', s')" and "lock_of t = Some c"
    and "tx_laws (clients c) status plain" and "plain_task plain t"
    and "status s = TxBlock \<Longrightarrow> pl_cursor p c \<noteq> None" and "status s' = TxBlock"
  shows "pl_cursor p' c \<noteq> None"
proof -
  have ex: "pl_cursor p1 c \<noteq> None"
    if "plain_script plain sql" "execute_on clients c sql n p s = (r, p1, s1)" "status s1 = TxBlock" for sql n r p1 s1
    by (rule execute_on_block[where s = s and clients = clients and c = c and status = status, OF assms(3) that(1)]) (use assms(5) that in simp_all)
  have cl: "pl_cursor p1 c \<noteq> None" if "close_on clients c i p s = (p1, s1)" "status s1 = TxBlock" for i p1 s1
    by (rule close_ends_block(2)[where s = s and clients = clients and c = c and status = status, OF assms(3)]) (use assms(5) that in simp_all)
  have rl: "status s1 \<noteq> TxBlock" if "release_close clients c p s = (p1, s1)" for p1 s1
    by (rule close_ends_block(1)[where s = s and clients = clients and c = c and status = status, OF assms(3)]) (use assms(5) that in simp_all)
  have ft: "p' = p \<and> pl_cursor p c \<noteq> None"
    if "t = Holding c (JFetch sid i n)" for sid i n
    using assms(1,5,6) that by (auto simp: fetch_on_def split: option.splits sum.splits prod.splits if_splits)
  show ?thesis
  proof (cases t)
    case (Holding d j)
    then have "d = c" using assms(2) by simp
    show ?thesis
    proof (cases j)
      case (JExecute sql n)
      obtain r p1 s1 where e: "execute_on clients c sql n p s = (r, p1, s1)" by (cases "execute_on clients c sql n p s")
      have "p1 = p' \<and> s1 = s'"
        using assms(1) Holding \<open>d = c\<close> JExecute e by (auto split: option.splits sum.splits)
      then show ?thesis using ex[OF _ e] assms(4,6) Holding JExecute by simp
    next
      case (JFetch sid i n)
      then show ?thesis using ft[of sid i n] Holding \<open>d = c\<close> by blast
    next
      case (JClose i)
      then show ?thesis using cl[of i p' s'] assms(1,6) Holding \<open>d = c\<close> by (auto split: prod.splits)
    qed (use assms(1) Holding in simp)
  next
    case (ReleaseClose d)
    then show ?thesis using rl[of p' s'] assms(1,2,6) by (auto split: prod.splits)
  qed (use assms(1) in simp_all)
qed

lemma sql_window_locks:
  assumes "sql_window clients t p s = Some res"
  obtains c where "lock_of t = Some c"
  using assms by (cases "(clients, t, p, s)" rule: sql_window.cases) auto

lemma blocks_recorded_step:
  assumes laws: "pool_laws clients status plain" and "calm_step clients status plain st st'"
    and "blocks_recorded status st"
  shows "blocks_recorded status st'"
  using assms(2,3)
proof (induction rule: calm_step.induct)
  case (calm_window i ts inp p t' p' s)
  then show ?case using window_cursors[OF calm_window(2)] by (simp add: blocks_recorded_def)
next
  case (calm_sql i ts p s t' p' s')
  obtain c where c: "lock_of (ts ! i) = Some c" by (rule sql_window_locks[OF calm_sql(3)])
  have here: "tx_laws (clients c) (status c) plain" and there: "c \<noteq> d \<Longrightarrow> untouched (clients c) (status d)" for d
    using laws by (simp_all add: pool_laws_def)
  have "pl_cursor p' d \<noteq> None" if "status d s' = TxBlock" for d
  proof (cases "c = d")
    case True
    then show ?thesis
      using window_under_lock[OF calm_sql(3) c here calm_sql(2)] calm_sql(4) that by (auto simp: blocks_recorded_def)
  next
    case False
    then show ?thesis
      using window_elsewhere[OF calm_sql(3) c False there] calm_sql(4) that by (auto simp: blocks_recorded_def)
  qed
  then show ?case by (simp add: blocks_recorded_def)
qed (auto simp: blocks_recorded_def)

lemma blocks_recorded_reach:
  assumes "pool_laws clients status plain" and "reach (tx_init status) (calm_step clients status plain) st"
  shows "blocks_recorded status st"
  using assms(2)
  by (induction rule: reach.induct)
     (auto simp: tx_init_def blocks_recorded_def[of _ "(_, _)"] intro: blocks_recorded_step[OF assms(1)])

section \<open>What the pool keeps\<close>


section \<open>A server\<close>

text \<open>
  One session of a server that keeps what was written: in a block the writes wait for the commit. The
  texts in \<open>stopped\<close> are those whose run is cancelled, by a cancel request or a timeout.
\<close>

record tx_server =
  sv_status :: tx_status
  sv_committed :: "string list"
  sv_pending :: "string list"

definition sv_abort :: "tx_server \<Rightarrow> tx_server" where
  "sv_abort s = (if sv_status s = TxBlock then s\<lparr>sv_status := TxFailed, sv_pending := []\<rparr> else s)"

definition sv_write :: "string \<Rightarrow> tx_server \<Rightarrow> tx_server" where
  "sv_write q s =
     (if sv_status s = TxBlock then s\<lparr>sv_pending := sv_pending s @ [q]\<rparr>
      else s\<lparr>sv_committed := sv_committed s @ [q]\<rparr>)"

definition sv_error :: driver_error where
  "sv_error = \<lparr>de_text = ''canceling statement'', de_db = None\<rparr>"

definition sv_run :: "(string \<Rightarrow> bool) \<Rightarrow> (tx_server \<Rightarrow> 'r \<times> tx_server) \<Rightarrow> string \<Rightarrow> tx_server
    \<Rightarrow> (driver_error + 'r) \<times> tx_server" where
  "sv_run stopped run q s =
     (if sv_status s = TxFailed then (Inl sv_error, s)
      else if stopped q then (Inl sv_error, sv_abort s)
      else (case run s of (r, s') \<Rightarrow> (Inr r, s')))"

definition sv_rollback :: "tx_server \<Rightarrow> tx_server" where
  "sv_rollback s = s\<lparr>sv_status := TxIdle, sv_pending := []\<rparr>"

definition sv_batch :: "(string \<Rightarrow> bool) \<Rightarrow> string \<Rightarrow> tx_server \<Rightarrow> (driver_error + unit) \<times> tx_server" where
  "sv_batch stopped q s =
     (if q = ''ROLLBACK'' then (Inr (), sv_rollback s)
      else sv_run stopped
        (\<lambda>s. ((), if take 5 q = ''BEGIN'' then s\<lparr>sv_status := TxBlock\<rparr>
                 else if take 5 q = ''CLOSE''
                 then s\<lparr>sv_status := TxIdle, sv_committed := sv_committed s @ sv_pending s, sv_pending := []\<rparr>
                 else sv_write q s)) q s)"

definition tx_client :: "(string \<Rightarrow> bool) \<Rightarrow> tx_server pg_client" where
  "tx_client stopped =
     \<lparr>batch_execute = sv_batch stopped,
      simple_query = (\<lambda>q s. if q = ''ROLLBACK'' then (Inr [CommandComplete 0], sv_rollback s)
        else sv_run stopped (\<lambda>s. ([Row [Some ''1''], CommandComplete 1], s)) q s),
      prepare_columns = (\<lambda>q s. if q = ''ROLLBACK'' then (Inr [], s)
        else sv_run stopped (\<lambda>s. ([\<lparr>cm_name = ''a'', cm_type_oid = 23, cm_type_name = ''int4''\<rparr>], s)) q s),
      fresh_id = (\<lambda>s. (''0'', s))\<rparr>"

definition tx_edit_client :: "(string \<Rightarrow> bool) \<Rightarrow> tx_server edit_client" where
  "tx_edit_client stopped =
     \<lparr>pg_execute = (\<lambda>q params. sv_run stopped (\<lambda>s. (1, sv_write q s)) q),
      pg_query = (\<lambda>q params. sv_run stopped (\<lambda>s. ([[Inr (Some ''1'')]], sv_write q s)) q)\<rparr>"

definition plain_tx :: "string \<Rightarrow> bool" where "plain_tx q \<longleftrightarrow> take 5 q \<noteq> ''BEGIN''"

definition new_server :: tx_server where
  "new_server = \<lparr>sv_status = TxIdle, sv_committed = [], sv_pending = []\<rparr>"

lemmas sv_defs = sv_rollback_def sv_run_def sv_abort_def sv_write_def sv_batch_def tx_client_def plain_tx_def new_server_def

lemma tx_client_laws: "tx_laws (tx_client stopped) sv_status plain_tx"
  unfolding tx_laws_def
  by (intro conjI allI impI) (auto simp: sv_defs close_sql_def)

text \<open>Many sessions, one for each connection.\<close>

definition on_conn :: "nat \<Rightarrow> ('a \<Rightarrow> 'r \<times> 'a) \<Rightarrow> (nat \<Rightarrow> 'a) \<Rightarrow> 'r \<times> (nat \<Rightarrow> 'a)" where
  "on_conn c f s = (case f (s c) of (r, t) \<Rightarrow> (r, s(c := t)))"

definition conn_clients :: "'a pg_client \<Rightarrow> nat \<Rightarrow> (nat \<Rightarrow> 'a) pg_client" where
  "conn_clients cl c =
     \<lparr>batch_execute = (\<lambda>q. on_conn c (batch_execute cl q)), simple_query = (\<lambda>q. on_conn c (simple_query cl q)),
      prepare_columns = (\<lambda>q. on_conn c (prepare_columns cl q)), fresh_id = on_conn c (fresh_id cl)\<rparr>"

lemma snd_on_conn: "snd (on_conn c f s) = s(c := snd (f (s c)))"
  by (simp add: on_conn_def split: prod.split)

lemma conn_clients_laws:
  assumes "tx_laws cl status plain"
  shows "pool_laws (conn_clients cl) (\<lambda>c s. status (s c)) plain"
  using assms unfolding pool_laws_def tx_laws_def untouched_def conn_clients_def
  by (simp add: snd_on_conn)


definition conn_edits :: "'a edit_client \<Rightarrow> nat \<Rightarrow> (nat \<Rightarrow> 'a) edit_client" where
  "conn_edits cl c =
     \<lparr>pg_execute = (\<lambda>q ps. on_conn c (pg_execute cl q ps)), pg_query = (\<lambda>q ps. on_conn c (pg_query cl q ps))\<rparr>"

definition new_servers :: "nat \<Rightarrow> tx_server" where "new_servers = (\<lambda>_. new_server)"

definition block_server :: tx_server where
  "block_server = \<lparr>sv_status = TxBlock, sv_committed = [], sv_pending = []\<rparr>"

definition leased_pool :: "string \<Rightarrow> pg_pool" where
  "leased_pool sid = local_pool\<lparr>pl_idle := [], pl_leased := [(sid, 0)]\<rparr>"

definition open_pool :: pg_pool where
  "open_pool = (leased_pool ''a'')\<lparr>pl_cursor := (\<lambda>_. None)(0 := Some \<lparr>ac_cursor_id = ''c_0'', ac_column_count = 1\<rparr>)\<rparr>"

lemmas run_query = open_query_def numeral_2_eq_2 is_multi_statement_def top_level_semicolons_def lex_eval
  quote1_def quote2_def close_previous_def open_single_def open_cursor_def conn_clients_def on_conn_def
  fetch_sql_def close_sql_def nat_str.simps digit_char_def char_of_eq_iff collect_rows_def cells_of_def Let_def

lemma full_page_run:
  "execute_on (conn_clients (tx_client (\<lambda>_. False))) 0 ''B'' 1 (leased_pool ''a'') new_servers
     = (Some (Inr \<lparr>eo_columns = [\<lparr>cm_name = ''a'', cm_type_oid = 23, cm_type_name = ''int4''\<rparr>],
                  eo_rows = [[Some ''1'']], eo_rows_affected = Some 1, eo_cursor_id = Some ''c_0''\<rparr>),
        open_pool, new_servers(0 := block_server))"
  by (simp add: execute_on_def run_query sv_defs new_servers_def open_pool_def block_server_def leased_pool_def local_pool_def)

lemma plain_B: "plain_script plain_tx ''B''"
  by (simp add: plain_script_def plain_tx_def split_at_last_statement_def top_level_semicolons_def lex_eval
      quote1_def quote2_def)

text \<open>One statement of session \<open>a\<close>, window by window.\<close>

lemma full_page_reach:
  "reach (tx_init (\<lambda>c s. sv_status (s c))) (calm_step (conn_clients (tx_client (\<lambda>_. False))) (\<lambda>c s. sv_status (s c)) plain_tx)
     (open_pool, new_servers(0 := block_server), [Finished])"
proof -
  let ?st = "\<lambda>c (s :: nat \<Rightarrow> tx_server). sv_status (s c)" and ?cl = "conn_clients (tx_client (\<lambda>_. False))"
  let ?R = "reach (tx_init ?st) (calm_step ?cl ?st plain_tx)"
  let ?j = "JExecute ''B'' 1" and ?p = "leased_pool ''a''"
  have "pool_init (local_pool, new_servers, [])"
    using local_pool_connects unfolding pool_init_def by blast
  then have 0: "?R (local_pool, new_servers, [])"
    by (intro reach_init) (simp add: tx_init_def new_servers_def new_server_def)
  have 1: "?R (local_pool, new_servers, [LeaseFast ''a'' ?j])"
    using reach_step[OF 0 calm_start[of "LeaseFast ''a'' ?j"]] by simp
  have w: "?R (p', s, [t'])" if "?R (p, s, [t])" "lease_window quiet_input t p = (t', p')" for p p' s t t'
    using reach_step[OF that(1) calm_window[of 0 "[t]" quiet_input]] that(2) by simp
  have "?R (local_pool, new_servers, [LeaseIdle ''a'' ?j])"
    by (rule w[OF 1]) (simp add: local_pool_def leased_only_def)
  from w[OF this] have "?R (local_pool\<lparr>pl_idle := []\<rparr>, new_servers, [LeaseAssign ''a'' 0 ?j])"
    by (simp add: local_pool_def)
  from w[OF this] have 2: "?R (?p, new_servers, [Holding 0 ?j])" by (simp add: assign_lease_def local_pool_def leased_pool_def)
  have "calm_step ?cl ?st plain_tx (?p, new_servers, [Holding 0 ?j]) (open_pool, new_servers(0 := block_server), [Finished])"
    using calm_sql[of 0 "[Holding 0 ?j]" plain_tx ?cl ?p new_servers Finished open_pool "new_servers(0 := block_server)" ?st]
    by (simp add: plain_B full_page_run[unfolded One_nat_def])
  then show ?thesis by (rule reach_step[OF 2])
qed


section \<open>Where the promise is not enough\<close>

definition stopped_close :: "nat \<Rightarrow> (nat \<Rightarrow> tx_server) pg_client" where
  "stopped_close = conn_clients (tx_client (\<lambda>q. q = close_sql ''c_0''))"

definition failed_server :: tx_server where
  "failed_server = \<lparr>sv_status = TxFailed, sv_committed = [], sv_pending = []\<rparr>"

lemma run_windows_numeral [simp]:
  "run_windows (numeral k) inp t p = (case lease_window inp t p of (t', p') \<Rightarrow> run_windows (pred_numeral k) inp t' p')"
  by (simp add: numeral_eq_Suc)

lemma lease_session: "lease_for_session quiet_input sid local_pool = (Some (Inr 0), leased_pool sid)"
  by (simp add: lease_for_session_def run_lease_def pool_defs local_pool_def leased_pool_def)

lemma short_page_run:
  "execute_on stopped_close 0 ''B'' 2 (leased_pool ''a'') new_servers
     = (Some (Inr \<lparr>eo_columns = [\<lparr>cm_name = ''a'', cm_type_oid = 23, cm_type_name = ''int4''\<rparr>],
                  eo_rows = [[Some ''1'']], eo_rows_affected = Some 1, eo_cursor_id = None\<rparr>),
        leased_pool ''a'', new_servers(0 := failed_server))"
  by (simp add: execute_on_def run_query sv_defs new_servers_def failed_server_def leased_pool_def local_pool_def stopped_close_def)

text \<open>In a failed block nothing but a rollback is accepted.\<close>

lemma failed_rejects:
  assumes "single_statement sql" and "sql \<noteq> ''ROLLBACK''" and "sv_status (s c) = TxFailed" and "pl_cursor p c = None"
  shows "execute_on stopped_close c sql n p s = (Some (Inl (Driver sv_error)), p\<lparr>pl_cursor := (pl_cursor p)(c := None)\<rparr>, s)"
proof -
  have "prepare_columns (stopped_close c) sql s = (Inl sv_error, s)"
    using assms(2,3) by (simp add: stopped_close_def conn_clients_def on_conn_def tx_client_def sv_run_def)
  then have "open_query (stopped_close c) sql n None s = Some (Inl (Driver sv_error), s)"
    using assms(1) by (simp add: open_query_def numeral_2_eq_2 single_statement_def close_previous_def open_single_def)
  then show ?thesis using assms(4) by (simp add: execute_on_def)
qed

text \<open>A row edit, with a cursor open on the connection and without.\<close>

abbreviation "all_run \<equiv> \<lambda>_ :: string. False"

abbreviation edit_one where
  "edit_one \<equiv> pool_update_cell (conn_edits (tx_edit_client all_run)) quiet_input ''a'' ''s'' ''t'' ''c'' ''int4'' None ''(0,1)''"

definition edit_text :: string where "edit_text = update_sql ''s'' ''t'' ''c'' None"

lemma edit_run:
  assumes "run_lease quiet_input (LeaseFast ''a'' JOther) p = (Some (Inr c), p')" and "sv_status (s c) \<noteq> TxFailed"
  shows "edit_one p s = (Some (Inr 1), p', s(c := sv_write edit_text (s c)))"
  using assms
  by (simp add: pool_update_cell_def on_lease_def update_cell_def run_execute_def conn_edits_def on_conn_def
      tx_edit_client_def sv_run_def edit_text_def)

lemma edit_in_block:
  "edit_one open_pool (new_servers(0 := block_server)) = (Some (Inr 1), open_pool, new_servers(0 := sv_write edit_text block_server))"
  by (subst edit_run[of open_pool 0 open_pool])
     (simp_all add: block_server_def run_lease_def leased_only_def open_pool_def leased_pool_def)

lemma edit_outside:
  "edit_one local_pool new_servers = (Some (Inr 1), leased_pool ''a'', new_servers(0 := sv_write edit_text new_server))"
  using lease_session[of "''a''"]
  by (subst edit_run[of local_pool 0 "leased_pool ''a''"]) (simp_all add: new_servers_def new_server_def lease_for_session_def)

lemma full_page_query:
  "\<exists>outcome. pool_execute (conn_clients (tx_client all_run)) quiet_input ''a'' ''B'' 1 local_pool new_servers
     = (Some (Inr outcome), open_pool, new_servers(0 := block_server))"
  by (simp only: pool_execute_def lease_session prod.case option.case sum.case full_page_run) blast

lemma short_page_query:
  "\<exists>outcome. pool_execute stopped_close quiet_input ''a'' ''B'' 2 local_pool new_servers
     = (Some (Inr outcome), leased_pool ''a'', new_servers(0 := failed_server))"
  by (simp only: pool_execute_def lease_session prod.case option.case sum.case short_page_run) blast

lemma release_leased: "pool_release_session clients 0 sid (leased_pool sid) s = (local_pool, s)"
  by (simp add: pool_release_session_def take_lease_def release_close_def leased_pool_def local_pool_def)

lemma poisoned_query:
  assumes "single_statement sql" and "sql \<noteq> ''ROLLBACK''"
  shows "pool_execute stopped_close quiet_input sid sql n local_pool (new_servers(0 := failed_server))
    = (Some (Inl (Driver sv_error)), leased_pool sid, new_servers(0 := failed_server))"
proof -
  have "(leased_pool sid)\<lparr>pl_cursor := (pl_cursor (leased_pool sid))(0 := None)\<rparr> = leased_pool sid"
    by (simp add: leased_pool_def local_pool_def fun_upd_def)
  then have "execute_on stopped_close 0 sql n (leased_pool sid) (new_servers(0 := failed_server))
      = (Some (Inl (Driver sv_error)), leased_pool sid, new_servers(0 := failed_server))"
    using failed_rejects[OF assms, of "new_servers(0 := failed_server)" 0 "leased_pool sid" n]
    by (simp add: failed_server_def leased_pool_def local_pool_def)
  then show ?thesis by (simp only: pool_execute_def lease_session prod.case option.case sum.case)
qed

text \<open>
  C37. What the remembered cursor does not save. A row edit that follows a query whose rows are not all
  fetched runs inside the block of the cursor: it reports its row, but nothing is committed, and a
  shutdown of the pool aborts the connection with the block open. (The same edit without the open cursor
  is committed at once.) And when the closing of an exhausted cursor is cancelled, its block stays open,
  failed, with no cursor remembered: the query reports success, the session is released, and the next
  session is given the connection and can run no single statement but a rollback.
\<close>

theorem transaction_hazards:
  assumes "single_statement sql" and "sql \<noteq> ''ROLLBACK''"
  shows "(\<exists>outcome p s p' s'.
        pool_execute (conn_clients (tx_client all_run)) quiet_input ''a'' ''B'' 1 local_pool new_servers = (Some (Inr outcome), p, s)
      \<and> edit_one p s = (Some (Inr 1), p', s')
      \<and> sv_committed (s' 0) = [] \<and> sv_status (s' 0) = TxBlock \<and> 0 \<in> set (pl_aborted (pool_shutdown p')))
    \<and> (\<exists>p s. edit_one local_pool new_servers = (Some (Inr 1), p, s) \<and> sv_committed (s 0) = [edit_text])
    \<and> (\<exists>outcome p s p' s' p''.
        pool_execute stopped_close quiet_input ''a'' ''B'' 2 local_pool new_servers = (Some (Inr outcome), p, s)
      \<and> pool_release_session stopped_close 0 ''a'' p s = (p', s') \<and> leased_only ''a'' p' = None
      \<and> pool_execute stopped_close quiet_input ''b'' sql n p' s' = (Some (Inl (Driver sv_error)), p'', s')
      \<and> sv_status (s' 0) = TxFailed)"
proof -
  have "0 \<in> set (pl_aborted (pool_shutdown open_pool))"
    by (simp add: pool_shutdown_def abort_connection_tasks_def open_pool_def leased_pool_def)
  moreover have "leased_only ''a'' local_pool = None" by (simp add: leased_only_def local_pool_def)
  moreover have "sv_status ((new_servers(0 := failed_server)) 0) = TxFailed" by (simp add: failed_server_def)
  moreover have "sv_committed ((new_servers(0 := sv_write edit_text block_server)) 0) = []"
    "sv_status ((new_servers(0 := sv_write edit_text block_server)) 0) = TxBlock"
    "sv_committed ((new_servers(0 := sv_write edit_text new_server)) 0) = [edit_text]"
    by (simp_all add: sv_write_def block_server_def new_server_def)
  ultimately show ?thesis
    using full_page_query edit_in_block edit_outside short_page_query release_leased[of stopped_close "''a''"]
      poisoned_query[OF assms, of "''b''" n]
    by blast
qed

theorem transaction_hazards_witness:
  "single_statement ''X'' \<and> fst (edit_one local_pool new_servers) = Some (Inr 1)"
proof -
  have x: "single_statement ''X''"
    by (simp add: single_statement_def is_multi_statement_def top_level_semicolons_def lex_eval quote1_def quote2_def)
  from transaction_hazards[OF this, of 1] x show ?thesis by fastforce
qed

end
