(* ===== verification/PgPages.thy ===== *)
theory PgPages
  imports PgClean
begin

text \<open>
  Reading a query page by page. The server's cursors are a parameter: \<open>rest s c\<close> are the rows that the
  cursor \<open>c\<close> has still to give. \<open>cursor_laws\<close> is what \<open>FETCH FORWARD\<close> does, \<open>query_answers\<close> what a
  query that returns rows does when it is prepared and its cursor declared.
\<close>

section \<open>The server\<close>

definition cursor_laws :: "'s pg_client \<Rightarrow> ('s \<Rightarrow> string \<Rightarrow> sql_row list option) \<Rightarrow> bool" where
  "cursor_laws client rest \<longleftrightarrow>
     (\<forall>n c rows s. rest s c = Some rows \<longrightarrow>
        (\<exists>s'. simple_query client (fetch_sql n c) s = (Inr (map Row (take n rows) @ [CommandComplete (length (take n rows))]), s')
            \<and> rest s' c = Some (drop n rows)))"

definition declare_sql :: "string \<Rightarrow> string \<Rightarrow> string" where
  "declare_sql cursor_id sql = ''BEGIN; DECLARE '' @ cursor_id @ '' NO SCROLL CURSOR FOR '' @ sql"

definition query_answers :: "'s pg_client \<Rightarrow> ('s \<Rightarrow> string \<Rightarrow> sql_row list option) \<Rightarrow> string \<Rightarrow> column_meta list
    \<Rightarrow> sql_row list \<Rightarrow> 's \<Rightarrow> bool" where
  "query_answers client rest sql columns rows s \<longleftrightarrow>
     columns \<noteq> [] \<and> (\<forall>row \<in> set rows. length row = length columns)
   \<and> (case prepare_columns client sql s of
        (Inl e, s1) \<Rightarrow> False
      | (Inr cols, s1) \<Rightarrow> cols = columns
          \<and> (case fresh_id client s1 of (uuid, s2) \<Rightarrow>
             (case batch_execute client (declare_sql (''c_'' @ uuid) sql) s2 of
                (Inl e, s3) \<Rightarrow> False
              | (Inr _, s3) \<Rightarrow> rest s3 (''c_'' @ uuid) = Some rows)))"

section \<open>The reader\<close>

text \<open>A caller of the pool that asks for pages as long as there are more. The fuel is the number of
  pages it may ask for.\<close>

fun read_pages :: "nat \<Rightarrow> (nat \<Rightarrow> 's pg_client) \<Rightarrow> string \<Rightarrow> string \<Rightarrow> nat \<Rightarrow> pg_pool \<Rightarrow> 's \<Rightarrow> sql_row list option" where
  "read_pages 0 clients sid cid n p s = None"
| "read_pages (Suc k) clients sid cid n p s =
     (case pool_fetch_page clients sid cid n p s of
        (Inl e, s') \<Rightarrow> None
      | (Inr page, s') \<Rightarrow>
          if pr_has_more page
          then map_option (\<lambda>rows. pr_rows page @ rows) (read_pages k clients sid cid n p s')
          else Some (pr_rows page))"

definition read_query :: "nat \<Rightarrow> (nat \<Rightarrow> 's pg_client) \<Rightarrow> pool_input \<Rightarrow> string \<Rightarrow> string \<Rightarrow> nat \<Rightarrow> pg_pool \<Rightarrow> 's
    \<Rightarrow> (column_meta list \<times> sql_row list) option" where
  "read_query k clients inp sid sql n p s =
     (case pool_execute clients inp sid sql n p s of
        (Some (Inr outcome), p', s') \<Rightarrow>
          (case eo_cursor_id outcome of
             None \<Rightarrow> Some (eo_columns outcome, eo_rows outcome)
           | Some cid \<Rightarrow>
               map_option (\<lambda>rows. (eo_columns outcome, eo_rows outcome @ rows)) (read_pages k clients sid cid n p' s'))
      | _ \<Rightarrow> None)"

section \<open>Pages\<close>

lemma cells_of_id: "length row = width \<Longrightarrow> cells_of width row = row"
  by (auto simp: cells_of_def intro: nth_equalityI)

lemma collect_page:
  "(\<forall>row \<in> set rows. length row = width) \<Longrightarrow> collect_rows (map Row rows @ [CommandComplete m]) width = (rows, m)"
proof -
  have "fold (collect_msg width) (map Row rows) (acc, k) = (acc @ map (cells_of width) rows, k)" for acc k
    by (induction rows arbitrary: acc) simp_all
  moreover assume "\<forall>row \<in> set rows. length row = width"
  then have "map (cells_of width) rows = rows" by (simp add: map_idI cells_of_id)
  ultimately show ?thesis by (simp add: collect_rows_def)
qed

lemma take_rows: "\<forall>row \<in> set rows. P row \<Longrightarrow> \<forall>row \<in> set (take n rows). P row"
  and drop_rows: "\<forall>row \<in> set rows. P row \<Longrightarrow> \<forall>row \<in> set (drop n rows). P row"
  using set_take_subset[of n rows] set_drop_subset[of n rows] by blast+

lemma fetch_page_rows:
  assumes "cursor_laws (clients c) rest" and "rest s cid = Some rows" and "\<forall>row \<in> set rows. length row = width"
    and "leased_only sid p = Some c" and "pl_cursor p c = Some \<lparr>ac_cursor_id = cid, ac_column_count = width\<rparr>"
  shows "\<exists>s'. pool_fetch_page clients sid cid n p s
      = (Inr \<lparr>pr_rows = take n rows, pr_has_more = (length (take n rows) = n)\<rparr>, s') \<and> rest s' cid = Some (drop n rows)"
proof -
  obtain s' where s': "simple_query (clients c) (fetch_sql n cid) s
      = (Inr (map Row (take n rows) @ [CommandComplete (length (take n rows))]), s')" "rest s' cid = Some (drop n rows)"
    using assms(1,2) unfolding cursor_laws_def by blast
  have "collect_rows (map Row (take n rows) @ [CommandComplete (length (take n rows))]) width = (take n rows, length (take n rows))"
    by (rule collect_page[OF take_rows[OF assms(3)]])
  then show ?thesis using s' assms(4,5) by (simp add: pool_fetch_page_def fetch_on_def fetch_page_def)
qed

lemma read_pages_all:
  assumes "cursor_laws (clients c) rest" and "0 < n"
    and "leased_only sid p = Some c" and "pl_cursor p c = Some \<lparr>ac_cursor_id = cid, ac_column_count = width\<rparr>"
  shows "rest s cid = Some rows \<Longrightarrow> \<forall>row \<in> set rows. length row = width \<Longrightarrow> length rows div n < k \<Longrightarrow>
    read_pages k clients sid cid n p s = Some rows"
proof (induction k arbitrary: s rows)
  case (Suc k)
  obtain s' where page: "pool_fetch_page clients sid cid n p s
      = (Inr \<lparr>pr_rows = take n rows, pr_has_more = (length (take n rows) = n)\<rparr>, s')" and rest: "rest s' cid = Some (drop n rows)"
    using fetch_page_rows[where clients = clients and c = c and rest = rest and s = s, OF assms(1) Suc.prems(1,2) assms(3,4)] by blast
  show ?case
  proof (cases "n \<le> length rows")
    case True
    then have "length (drop n rows) div n < k" using Suc.prems(3) assms(2) by (simp add: div_if[of "length rows"])
    from Suc.IH[OF rest drop_rows[OF Suc.prems(2)] this] show ?thesis using page True by simp
  next
    case False
    then show ?thesis using page by simp
  qed
qed simp

section \<open>The first page\<close>

text \<open>The tasks that lead to a lease of the session.\<close>

fun leasing :: "string \<Rightarrow> pg_pool \<Rightarrow> pool_task \<Rightarrow> bool" where
  "leasing sid p (LeaseFast a _) = (a = sid)"
| "leasing sid p (LeaseIdle a _) = (a = sid)"
| "leasing sid p (LeaseCheck a _) = (a = sid)"
| "leasing sid p (LeaseReserve a _) = (a = sid)"
| "leasing sid p (LeaseOpen a _) = (a = sid)"
| "leasing sid p (LeaseAssign a _ _) = (a = sid)"
| "leasing sid p (Holding c _) = (leased_only sid p = Some c)"
| "leasing sid p (SlotUndo _) = True"
| "leasing sid p (Failed _) = True"
| "leasing sid p _ = False"

lemma leasing_window: "leasing sid p t \<Longrightarrow> lease_window inp t p = (t', p') \<Longrightarrow> leasing sid p' t'"
  by (cases t) (auto simp: pool_defs update_conv' split: option.splits if_splits sum.splits prod.splits)

lemma leasing_windows: "leasing sid p t \<Longrightarrow> run_windows k inp t p = (t', p') \<Longrightarrow> leasing sid p' t'"
  by (induction k arbitrary: t p) (auto split: prod.splits dest: leasing_window)

lemma lease_is_kept:
  assumes "lease_for_session inp sid p = (Some (Inr c), p')"
  shows "leased_only sid p' = Some c"
  using assms leasing_windows[of sid p "LeaseFast sid JOther" 8 inp]
  by (auto simp: lease_for_session_def run_lease_def split: prod.splits pool_task.splits)

text \<open>The first page, and the cursor it leaves when it is full.\<close>

lemma first_page:
  assumes "query_answers client rest sql columns rows (close_previous client previous s)" and "cursor_laws client rest"
    and "single_statement sql"
  shows "\<exists>cid s'. open_query client sql n previous s =
      Some (Inr (\<lparr>eo_columns = columns, eo_rows = take n rows, eo_rows_affected = Some (length (take n rows)),
                  eo_cursor_id = (if length rows < n then None else Some cid)\<rparr>,
                 if length rows < n then None else Some \<lparr>ac_cursor_id = cid, ac_column_count = length columns\<rparr>), s')
    \<and> (length rows < n \<or> rest s' cid = Some (drop n rows))"
proof -
  let ?s = "close_previous client previous s"
  obtain s1 uuid s2 s3 where cols: "columns \<noteq> []" "\<forall>row \<in> set rows. length row = length columns"
    and run: "prepare_columns client sql ?s = (Inr columns, s1)" "fresh_id client s1 = (uuid, s2)"
      "batch_execute client (declare_sql (''c_'' @ uuid) sql) s2 = (Inr (), s3)" "rest s3 (''c_'' @ uuid) = Some rows"
    using assms(1) by (auto simp: query_answers_def split: prod.splits sum.splits)
  obtain s4 where fetch: "simple_query client (fetch_sql n (''c_'' @ uuid)) s3
      = (Inr (map Row (take n rows) @ [CommandComplete (length (take n rows))]), s4)" "rest s4 (''c_'' @ uuid) = Some (drop n rows)"
    using assms(2) run(4) unfolding cursor_laws_def by blast
  have page: "collect_rows (map Row (take n rows) @ [CommandComplete (length (take n rows))]) (length columns)
      = (take n rows, length (take n rows))"
    by (rule collect_page[OF take_rows[OF cols(2)]])
  have "open_query client sql n previous s = Some (open_cursor client sql n columns s1)"
    using assms(3) run(1) cols(1) by (simp add: open_query_def numeral_2_eq_2 single_statement_def open_single_def)
  moreover have "open_cursor client sql n columns s1 =
      (Inr (\<lparr>eo_columns = columns, eo_rows = take n rows, eo_rows_affected = Some (length (take n rows)),
             eo_cursor_id = (if length rows < n then None else Some (''c_'' @ uuid))\<rparr>,
            if length rows < n then None else Some \<lparr>ac_cursor_id = ''c_'' @ uuid, ac_column_count = length columns\<rparr>),
       if length rows < n then snd (batch_execute client (close_sql (''c_'' @ uuid)) s4) else s4)"
    using run(2,3) fetch(1) page by (simp add: open_cursor_def declare_sql_def Let_def)
  ultimately show ?thesis using fetch(2) by (intro exI[of _ "''c_'' @ uuid"]) auto
qed

section \<open>Paged reading\<close>


text \<open>A full page of no rows always has more.\<close>

lemma empty_pages_never_end:
  assumes "cursor_laws (clients c) rest" and "rest s cid = Some rows" and "\<forall>row \<in> set rows. length row = width"
    and "leased_only sid p = Some c" and "pl_cursor p c = Some \<lparr>ac_cursor_id = cid, ac_column_count = width\<rparr>"
  shows "read_pages k clients sid cid 0 p s = None"
  using assms(2)
proof (induction k arbitrary: s)
  case (Suc k)
  obtain s' where "pool_fetch_page clients sid cid 0 p s = (Inr \<lparr>pr_rows = [], pr_has_more = True\<rparr>, s')"
    "rest s' cid = Some rows"
    using fetch_page_rows[where clients = clients and c = c and rest = rest and s = s and n = 0, OF assms(1) Suc.prems assms(3-5)]
    by auto
  then show ?case using Suc.IH by simp
qed simp

text \<open>A server with one table of three rows.\<close>

definition list_client :: "sql_row list \<Rightarrow> (string \<Rightarrow> sql_row list option) pg_client" where
  "list_client table =
     \<lparr>batch_execute = (\<lambda>q s. (Inr (), if take 5 q = ''BEGIN'' then s(''c_0'' := Some table) else s)),
      simple_query = (\<lambda>q s.
        let ds = takeWhile is_digit (drop 14 q); n = digits_val ds; c = drop (20 + length ds) q in
        case s c of
          None \<Rightarrow> (Inl \<lparr>de_text = ''cursor does not exist'', de_db = None\<rparr>, s)
        | Some rows \<Rightarrow>
            (Inr (map Row (take n rows) @ [CommandComplete (length (take n rows))]), s(c := Some (drop n rows)))),
      prepare_columns = (\<lambda>q s. (Inr [\<lparr>cm_name = ''a'', cm_type_oid = 23, cm_type_name = ''int4''\<rparr>], s)),
      fresh_id = (\<lambda>s. (''0'', s))\<rparr>"

lemma list_client_laws: "cursor_laws (list_client table) (\<lambda>s c. s c)"
proof -
  have d: "takeWhile is_digit (drop 14 (fetch_sql n c)) = nat_str n" for n c
    using nat_str_digits[of n] by (simp add: fetch_sql_def takeWhile_append list_all_iff is_digit_def byte_def)
  have c: "drop (20 + length (nat_str n)) (fetch_sql n c) = c" for n c
  proof -
    have "fetch_sql n c = (''FETCH FORWARD '' @ nat_str n @ '' FROM '') @ c"
      "length (''FETCH FORWARD '' @ nat_str n @ '' FROM '') = 20 + length (nat_str n)" by (simp_all add: fetch_sql_def)
    then show ?thesis by (metis append_eq_conv_conj)
  qed
  show ?thesis
    unfolding cursor_laws_def
    by (intro allI impI) (simp add: list_client_def Let_def d c)
qed


end
