(* ===== verification/Git.thy ===== *)
theory Git
  imports ShellWords SshClient
begin

text \<open>
  The errors of \<open>crates/core/src/tools/mod.rs\<close> and the deploy state of a remote repository,
  \<open>crates/core/src/tools/git.rs\<close>: the command line, and the parser of its output.
\<close>

section \<open>Errors\<close>

datatype tools_error =
    ConnectionNotFound string
  | NotSshConnection string
  | RemoteCommand "32 word option" string
  | ToolSshExec string
  | ToolParse string
  | CaptureNotFound "64 word"
  | ToolIo string

text \<open>An exit status is printed as an \<open>i32\<close>.\<close>

definition i32_str :: "32 word \<Rightarrow> string" where
  "i32_str w = (if sint w < 0 then CHR ''-'' # nat_str (nat (- sint w)) else nat_str (nat (sint w)))"

fun display_tools_error :: "tools_error \<Rightarrow> string" where
  "display_tools_error (ConnectionNotFound c) = ''connection not found: '' @ c"
| "display_tools_error (NotSshConnection c) = ''connection is not SSH: '' @ c"
| "display_tools_error (RemoteCommand exit message) =
     ''remote command failed (exit '' @ (case exit of None \<Rightarrow> ''None'' | Some c \<Rightarrow> ''Some('' @ i32_str c @ '')'')
       @ ''): '' @ message"
| "display_tools_error (ToolSshExec e) = ''ssh exec failed: '' @ e"
| "display_tools_error (ToolParse e) = ''parse error: '' @ e"
| "display_tools_error (CaptureNotFound n) = ''capture not found: '' @ nat_str (unat n)"
| "display_tools_error (ToolIo e) = ''io: '' @ e"

section \<open>Model\<close>

record git_state =
  gs_repo_path :: string
  gs_branch :: "string option"
  gs_head :: "string option"
  gs_upstream :: "string option"
  gs_ahead :: nat
  gs_behind :: nat
  gs_dirty_files :: nat
  gs_untracked_files :: nat
  gs_last_commit_sha :: "string option"
  gs_last_commit_author :: "string option"
  gs_last_commit_age :: "string option"
  gs_last_commit_subject :: "string option"

definition no_git_state :: "string \<Rightarrow> git_state" where
  "no_git_state repo_path =
     \<lparr>gs_repo_path = repo_path, gs_branch = None, gs_head = None, gs_upstream = None, gs_ahead = 0, gs_behind = 0,
      gs_dirty_files = 0, gs_untracked_files = 0, gs_last_commit_sha = None, gs_last_commit_author = None,
      gs_last_commit_age = None, gs_last_commit_subject = None\<rparr>"

definition quote_path :: "string \<Rightarrow> string" where
  "quote_path path = quote1 # path @ [quote1]"

definition git_command :: "string \<Rightarrow> string" where
  "git_command path =
     ''git -C '' @ quote_path path @ '' status --porcelain=v2 --branch 2>&1 ; ''
       @ ''echo '' @ quote_path ''--LOG--'' @ '' ; ''
       @ ''git -C '' @ quote_path path @ '' log -1 --format='' @ quote_path ''%H%x09%an%x09%ar%x09%s'' @ '' 2>&1''"

text \<open>The \<open>+ahead -behind\<close> of \<open>branch.ab\<close>; \<open>parse().unwrap_or(0)\<close> into \<open>u32\<close>.\<close>

fun parse_ahead_behind :: "string list \<Rightarrow> git_state \<Rightarrow> git_state" where
  "parse_ahead_behind [] g = g"
| "parse_ahead_behind (part # parts) g =
     parse_ahead_behind parts
       (case strip_prefix ''+'' part of
          Some n \<Rightarrow> g\<lparr>gs_ahead := unwrap_or 0 (parse_uint u32_max n)\<rparr>
        | None \<Rightarrow>
            (case strip_prefix ''-'' part of
               Some n \<Rightarrow> g\<lparr>gs_behind := unwrap_or 0 (parse_uint u32_max n)\<rparr>
             | None \<Rightarrow> g))"

definition git_status_line :: "string \<Rightarrow> git_state \<Rightarrow> git_state" where
  "git_status_line line g =
     (case strip_prefix ''# branch.head '' line of
        Some rest \<Rightarrow> if trim rest \<noteq> ''(detached)'' then g\<lparr>gs_branch := Some (trim rest)\<rparr> else g
      | None \<Rightarrow>
     (case strip_prefix ''# branch.oid '' line of
        Some rest \<Rightarrow> if trim rest \<noteq> ''(initial)'' then g\<lparr>gs_head := Some (trim rest)\<rparr> else g
      | None \<Rightarrow>
     (case strip_prefix ''# branch.upstream '' line of
        Some rest \<Rightarrow> g\<lparr>gs_upstream := Some (trim rest)\<rparr>
      | None \<Rightarrow>
     (case strip_prefix ''# branch.ab '' line of
        Some rest \<Rightarrow> parse_ahead_behind (split_whitespace rest) g
      | None \<Rightarrow>
          if starts_with ''? '' line then g\<lparr>gs_untracked_files := gs_untracked_files g + 1\<rparr>
          else if starts_with ''1 '' line \<or> starts_with ''2 '' line \<or> starts_with ''u '' line
          then g\<lparr>gs_dirty_files := gs_dirty_files g + 1\<rparr>
          else g))))"

definition nonempty_part :: "nat \<Rightarrow> string list \<Rightarrow> string option" where
  "nonempty_part i parts = (if i < length parts \<and> parts ! i \<noteq> [] then Some (parts ! i) else None)"

definition git_log_block :: "string \<Rightarrow> git_state \<Rightarrow> git_state" where
  "git_log_block log_block g =
     (if log_block \<noteq> [] \<and> \<not> starts_with ''fatal:'' log_block then
        (let parts = splitn_char 4 tab (case lines log_block of [] \<Rightarrow> [] | l # _ \<Rightarrow> l) in
         g\<lparr>gs_last_commit_sha := nonempty_part 0 parts, gs_last_commit_author := nonempty_part 1 parts,
           gs_last_commit_age := nonempty_part 2 parts, gs_last_commit_subject := nonempty_part 3 parts\<rparr>)
      else g)"

definition parse_git :: "string \<Rightarrow> string \<Rightarrow> tools_error + git_state" where
  "parse_git repo_path output =
     (let (status_block, log_block) =
        (case split_once ''--LOG--'' output of Some (a, b) \<Rightarrow> (a, trim b) | None \<Rightarrow> (output, [])) in
      if str_contains ''fatal: not a git repository'' status_block \<or> str_contains ''fatal: '' status_block
      then Inl (RemoteCommand None (trim (case lines status_block of [] \<Rightarrow> ''git error'' | l # _ \<Rightarrow> l)))
      else Inr (git_log_block log_block (fold git_status_line (lines status_block) (no_git_state repo_path))))"

definition git_status :: "'p ssh_client \<Rightarrow> string \<Rightarrow> tools_error + git_state" where
  "git_status client repo_path =
     (if quote1 \<in> set repo_path then Inl (ToolParse ''repo path contains a single quote'')
      else and_then (map_err (\<lambda>e. ToolSshExec (display_ssh_error e)) (execute_command_full client (git_command repo_path)))
             (\<lambda>out. parse_git repo_path (combined out)))"

section \<open>The command line\<close>

text \<open>A path that is let through is one literal word of the command.\<close>

interpretation path_quoting: literal_quoting "\<lambda>path. quote1 \<notin> set path" quote_path
  by unfold_locales (simp add: quote_path_def sh_literal_single)

lemma git_status_path_word:
  assumes "git_status client path \<noteq> Inl (ToolParse ''repo path contains a single quote'')"
  shows "\<exists>rest. git_command path = ''git -C '' @ quote_path path @ CHR '' '' # rest
     \<and> sh_lex Bare (quote_path path @ CHR '' '' # rest) = Some (path, CHR '' '' # rest)"
proof -
  have "quote1 \<notin> set path" using assms by (auto simp: git_status_def)
  then have "\<And>rest. sh_lex Bare (quote_path path @ CHR '' '' # rest) = Some (path, CHR '' '' # rest)"
    by (intro path_quoting.quoted_word) (auto simp: sh_blank_def)
  then show ?thesis by (auto simp: git_command_def)
qed

section \<open>What is read\<close>

text \<open>A report as \<open>git\<close> prints it: the branch headers, one line per file, and the log line.\<close>

datatype git_entry = Changed string | Renamed string | Unmerged string | Untracked string

fun entry_line :: "git_entry \<Rightarrow> string" where
  "entry_line (Changed s) = ''1 '' @ s"
| "entry_line (Renamed s) = ''2 '' @ s"
| "entry_line (Unmerged s) = ''u '' @ s"
| "entry_line (Untracked s) = ''? '' @ s"

record git_report =
  gr_oid :: "string option"
  gr_branch :: "string option"
  gr_upstream :: "string option"
  gr_ab :: "(nat \<times> nat) option"
  gr_entries :: "git_entry list"
  gr_commit :: "string \<times> string \<times> string \<times> string"

definition status_lines :: "git_report \<Rightarrow> string list" where
  "status_lines r =
     [''# branch.oid '' @ unwrap_or ''(initial)'' (gr_oid r), ''# branch.head '' @ unwrap_or ''(detached)'' (gr_branch r)]
     @ (case gr_upstream r of None \<Rightarrow> [] | Some u \<Rightarrow> [''# branch.upstream '' @ u])
     @ (case gr_ab r of None \<Rightarrow> [] | Some (a, b) \<Rightarrow> [''# branch.ab +'' @ nat_str a @ '' -'' @ nat_str b])
     @ map entry_line (gr_entries r)"

definition commit_line :: "git_report \<Rightarrow> string" where
  "commit_line r = (case gr_commit r of (sha, author, age, subject) \<Rightarrow> sha @ tab # author @ tab # age @ tab # subject)"

definition print_report :: "git_report \<Rightarrow> string" where
  "print_report r =
     concat (map (\<lambda>l. l @ [newline]) (status_lines r)) @ ''--LOG--'' @ newline # commit_line r @ [newline]"

text \<open>Names without line breaks and outer blanks, and without the marker of the log.\<close>

definition report_ok :: "git_report \<Rightarrow> bool" where
  "report_ok r \<longleftrightarrow>
     list_all (\<lambda>l. newline \<notin> set l \<and> carriage \<notin> set l \<and> \<not> str_contains ''--LOG--'' l) (status_lines r)
     \<and> list_all (\<lambda>v. case v of None \<Rightarrow> True | Some s \<Rightarrow> trim s = s) [gr_oid r, gr_branch r, gr_upstream r]
     \<and> gr_oid r \<noteq> Some ''(initial)'' \<and> gr_branch r \<noteq> Some ''(detached)''
     \<and> (case gr_ab r of None \<Rightarrow> True | Some (a, b) \<Rightarrow> a \<le> u32_max \<and> b \<le> u32_max)
     \<and> newline \<notin> set (commit_line r) \<and> trim (newline # commit_line r @ [newline]) = commit_line r
     \<and> \<not> starts_with ''fatal:'' (commit_line r)
     \<and> (case gr_commit r of (sha, author, age, subject) \<Rightarrow> tab \<notin> set sha \<and> tab \<notin> set author \<and> tab \<notin> set age)"

definition text_option :: "string \<Rightarrow> string option" where
  "text_option s = (if s = [] then None else Some s)"

definition untracked :: "git_entry \<Rightarrow> bool" where
  "untracked e = (case e of Untracked _ \<Rightarrow> True | _ \<Rightarrow> False)"

definition state_of_report :: "string \<Rightarrow> git_report \<Rightarrow> git_state" where
  "state_of_report path r =
     (case gr_commit r of (sha, author, age, subject) \<Rightarrow>
        \<lparr>gs_repo_path = path, gs_branch = gr_branch r, gs_head = gr_oid r, gs_upstream = gr_upstream r,
         gs_ahead = (case gr_ab r of None \<Rightarrow> 0 | Some (a, _) \<Rightarrow> a),
         gs_behind = (case gr_ab r of None \<Rightarrow> 0 | Some (_, b) \<Rightarrow> b),
         gs_dirty_files = length (filter (\<lambda>e. \<not> untracked e) (gr_entries r)),
         gs_untracked_files = length (filter untracked (gr_entries r)),
         gs_last_commit_sha = text_option sha, gs_last_commit_author = text_option author,
         gs_last_commit_age = text_option age, gs_last_commit_subject = text_option subject\<rparr>)"

lemma entry_line_read:
  "git_status_line (entry_line e) g =
     (if untracked e then g\<lparr>gs_untracked_files := gs_untracked_files g + 1\<rparr>
      else g\<lparr>gs_dirty_files := gs_dirty_files g + 1\<rparr>)"
  by (cases e) (simp_all add: git_status_line_def starts_with_def untracked_def)

lemma entries_read:
  "fold git_status_line (map entry_line es) g =
     g\<lparr>gs_dirty_files := gs_dirty_files g + length (filter (\<lambda>e. \<not> untracked e) es),
       gs_untracked_files := gs_untracked_files g + length (filter untracked es)\<rparr>"
  by (induction es arbitrary: g) (simp_all add: entry_line_read)

lemma ab_words: "split_whitespace (CHR ''+'' # nat_str a @ '' -'' @ nat_str b) = [CHR ''+'' # nat_str a, CHR ''-'' # nat_str b]"
proof -
  have "list_all visible (nat_str n)" for n
    using nat_str_digits[of n] is_upper_visible(2) by (auto simp: list_all_iff)
  then show ?thesis
    using split_whitespace_line[of "CHR ''+'' # nat_str a" "[(0, CHR ''-'' # nat_str b)]"]
    by (simp add: field_def visible_def byte_def)
qed

lemma trim_headers: "trim ''(initial)'' = ''(initial)''" "trim ''(detached)'' = ''(detached)''"
  by (rule trim_visible; simp add: visible_def byte_def)+

lemma header_lines_read:
  "git_status_line (''# branch.oid '' @ v) g = (if trim v \<noteq> ''(initial)'' then g\<lparr>gs_head := Some (trim v)\<rparr> else g)"
  "git_status_line (''# branch.head '' @ v) g = (if trim v \<noteq> ''(detached)'' then g\<lparr>gs_branch := Some (trim v)\<rparr> else g)"
  "git_status_line (''# branch.upstream '' @ v) g = g\<lparr>gs_upstream := Some (trim v)\<rparr>"
  by (simp_all add: git_status_line_def)

lemma ab_line_read:
  "a \<le> u32_max \<Longrightarrow> b \<le> u32_max \<Longrightarrow>
   git_status_line (''# branch.ab +'' @ nat_str a @ '' -'' @ nat_str b) g = g\<lparr>gs_ahead := a, gs_behind := b\<rparr>"
  using ab_words[of a b] by (simp add: git_status_line_def parse_uint_nat_str)

lemma oid_read:
  "\<forall>v. oid = Some v \<longrightarrow> trim v = v \<and> v \<noteq> ''(initial)'' \<Longrightarrow> gs_head g = None \<Longrightarrow>
   git_status_line (''# branch.oid '' @ unwrap_or ''(initial)'' oid) g = g\<lparr>gs_head := oid\<rparr>"
  by (cases oid) (simp_all add: header_lines_read trim_headers del: append.simps)

lemma head_read:
  "\<forall>v. br = Some v \<longrightarrow> trim v = v \<and> v \<noteq> ''(detached)'' \<Longrightarrow> gs_branch g = None \<Longrightarrow>
   git_status_line (''# branch.head '' @ unwrap_or ''(detached)'' br) g = g\<lparr>gs_branch := br\<rparr>"
  by (cases br) (simp_all add: header_lines_read trim_headers del: append.simps)

lemma upstream_read:
  "\<forall>v. up = Some v \<longrightarrow> trim v = v \<Longrightarrow> gs_upstream g = None \<Longrightarrow>
   fold git_status_line (case up of None \<Rightarrow> [] | Some u \<Rightarrow> [''# branch.upstream '' @ u]) g = g\<lparr>gs_upstream := up\<rparr>"
  by (cases up) (simp_all add: header_lines_read del: append.simps)

lemma ab_read:
  "case ab of None \<Rightarrow> True | Some (a, b) \<Rightarrow> a \<le> u32_max \<and> b \<le> u32_max \<Longrightarrow> gs_ahead g = 0 \<Longrightarrow> gs_behind g = 0 \<Longrightarrow>
   fold git_status_line (case ab of None \<Rightarrow> [] | Some (a, b) \<Rightarrow> [''# branch.ab +'' @ nat_str a @ '' -'' @ nat_str b]) g =
     g\<lparr>gs_ahead := (case ab of None \<Rightarrow> 0 | Some (a, _) \<Rightarrow> a), gs_behind := (case ab of None \<Rightarrow> 0 | Some (_, b) \<Rightarrow> b)\<rparr>"
  by (cases ab) (simp_all add: ab_line_read split: prod.splits del: append.simps)

lemma status_read:
  assumes "report_ok r"
  shows "fold git_status_line (status_lines r) (no_git_state path) =
    (no_git_state path)\<lparr>gs_branch := gr_branch r, gs_head := gr_oid r, gs_upstream := gr_upstream r,
       gs_ahead := (case gr_ab r of None \<Rightarrow> 0 | Some (a, _) \<Rightarrow> a),
       gs_behind := (case gr_ab r of None \<Rightarrow> 0 | Some (_, b) \<Rightarrow> b),
       gs_dirty_files := length (filter (\<lambda>e. \<not> untracked e) (gr_entries r)),
       gs_untracked_files := length (filter untracked (gr_entries r))\<rparr>"
proof -
  have ok: "\<forall>v. gr_oid r = Some v \<longrightarrow> trim v = v \<and> v \<noteq> ''(initial)''"
    "\<forall>v. gr_branch r = Some v \<longrightarrow> trim v = v \<and> v \<noteq> ''(detached)''" "\<forall>v. gr_upstream r = Some v \<longrightarrow> trim v = v"
    "case gr_ab r of None \<Rightarrow> True | Some (a, b) \<Rightarrow> a \<le> u32_max \<and> b \<le> u32_max"
    using assms by (auto simp: report_ok_def)
  show ?thesis
    unfolding status_lines_def fold_append o_apply fold_simps
    by (simp only: oid_read[OF ok(1)] head_read[OF ok(2)] upstream_read[OF ok(3)] ab_read[OF ok(4)] entries_read
        no_git_state_def git_state.simps fold_simps) simp
qed

lemma commit_read:
  assumes "report_ok r"
  shows "git_log_block (commit_line r) g =
    (case gr_commit r of (sha, author, age, subject) \<Rightarrow>
       g\<lparr>gs_last_commit_sha := text_option sha, gs_last_commit_author := text_option author,
         gs_last_commit_age := text_option age, gs_last_commit_subject := text_option subject\<rparr>)"
proof -
  obtain sha author age subject where c: "gr_commit r = (sha, author, age, subject)" by (cases "gr_commit r") auto
  have n: "tab \<notin> set sha" "tab \<notin> set author" "tab \<notin> set age" "newline \<notin> set (commit_line r)"
    using assms c by (auto simp: report_ok_def)
  have ne: "commit_line r \<noteq> []" by (simp add: commit_line_def c)
  have "lines (commit_line r) = [commit_line r]" using n ne by (intro lines_single)
  moreover have "splitn_char 4 tab (commit_line r) = [sha, author, age, subject]"
    using n by (simp add: commit_line_def c eval_nat_numeral split_once_char_present)
  ultimately show ?thesis
    using assms ne c by (simp add: git_log_block_def report_ok_def nonempty_part_def text_option_def Let_def)
qed


definition demo_report :: "git_entry list \<Rightarrow> git_report" where
  "demo_report es =
     \<lparr>gr_oid = Some ''abc'', gr_branch = Some ''main'', gr_upstream = None, gr_ab = Some (3, 1), gr_entries = es,
      gr_commit = (''abc'', ''Al'', ''now'', ''Fix'')\<rparr>"

lemma demo_report_ok: "report_ok (demo_report [Changed ''f.c'', Untracked ''g''])" "report_ok (demo_report [Untracked ''fatal: g''])"
  by (simp_all add: report_ok_def demo_report_def status_lines_def commit_line_def str_contains_def starts_with_def
      trim_def trim_end_def trim_start_ascii trim_rev_ascii ascii_ws_def char_defs str_eval nat_str.simps
      digit_char_def u32_max_def)


end
