(* ===== verification/Ports.thy ===== *)
theory Ports
  imports Git
begin

text \<open>
  The listening ports of a host, \<open>crates/core/src/tools/ports.rs\<close>: the command that prefers \<open>ss\<close> to
  \<open>netstat\<close> and the parser that reads the output of both. \<open>str::to_lowercase\<close> is the parameter \<open>lower\<close>.
\<close>

section \<open>Model\<close>

record listening_port =
  lp_protocol :: string
  lp_local_addr :: string
  lp_port :: nat
  lp_process :: "string option"
  lp_pid :: "nat option"

definition ports_command :: string where
  "ports_command =
     ''if command -v ss >/dev/null 2>&1; then ss -tunlpH 2>/dev/null || ss -tunlp 2>/dev/null; ''
     @ ''elif command -v netstat >/dev/null 2>&1; then netstat -tunlp 2>/dev/null; ''
     @ ''else echo '' @ quote_path ''NEITHER_SS_NOR_NETSTAT'' @ '' >&2; exit 127; fi''"

text \<open>The first token with a colon and a number after its last colon.\<close>

definition is_local_addr :: "string \<Rightarrow> bool" where
  "is_local_addr t \<longleftrightarrow>
     CHR '':'' \<in> set t \<and> (case rsplit_once '':'' t of None \<Rightarrow> False | Some (_, p) \<Rightarrow> parse_uint u16_max p \<noteq> None)"

text \<open>The \<open>pid=\<close> parts: the last one counts, and a malformed one clears the number.\<close>

fun users_pid :: "string list \<Rightarrow> nat option \<Rightarrow> nat option" where
  "users_pid [] pid = pid"
| "users_pid (part # parts) pid =
     users_pid parts (case strip_prefix ''pid='' (trim part) of Some rest \<Rightarrow> parse_uint u32_max rest | None \<Rightarrow> pid)"

definition users_mark :: string where "users_mark = ''users:((''"

definition process_info :: "string list \<Rightarrow> string option \<times> nat option" where
  "process_info cols =
     (case find (starts_with users_mark) cols of
        Some tok \<Rightarrow>
          (let inner = trim_end_matches ''))'' (trim_start_matches users_mark tok);
               parts = split_char (CHR '','') (split_first ''),('' inner) in
           (Some (trim_chars [quote2] (hd parts)), users_pid (tl parts) None))
      | None \<Rightarrow>
          (if cols = [] then (None, None)
           else case split_once ''/'' (last cols) of
             Some (p, name) \<Rightarrow> (Some name, parse_uint u32_max p)
           | None \<Rightarrow> (None, None)))"

definition parse_port_line :: "(string \<Rightarrow> string) \<Rightarrow> string \<Rightarrow> listening_port option" where
  "parse_port_line lower line =
     (case split_whitespace line of
        [] \<Rightarrow> None
      | first # _ \<Rightarrow>
          (let cols = split_whitespace line; proto_token = lower first in
           if \<not> (starts_with ''tcp'' proto_token \<or> starts_with ''udp'' proto_token) then None
           else case find is_local_addr cols of
             None \<Rightarrow> None
           | Some local \<Rightarrow>
               (case rsplit_once '':'' local of
                  None \<Rightarrow> None
                | Some (local_addr, port_str) \<Rightarrow>
                    (case parse_uint u16_max port_str of
                       None \<Rightarrow> None
                     | Some port \<Rightarrow>
                         (case process_info cols of
                            (process, pid) \<Rightarrow>
                              Some \<lparr>lp_protocol = proto_token, lp_local_addr = trim_chars ''[]'' local_addr,
                                    lp_port = port, lp_process = process, lp_pid = pid\<rparr>)))))"

definition port_header :: "string \<Rightarrow> bool" where
  "port_header line \<longleftrightarrow>
     line = [] \<or> starts_with ''Netid'' line \<or> starts_with ''Active'' line \<or> starts_with ''Proto'' line"

definition parse_ports :: "(string \<Rightarrow> string) \<Rightarrow> string \<Rightarrow> listening_port list" where
  "parse_ports lower output =
     List.map_filter (\<lambda>raw. if port_header (trim raw) then None else parse_port_line lower (trim raw)) (lines output)"

definition listening_ports :: "(string \<Rightarrow> string) \<Rightarrow> 'p ssh_client \<Rightarrow> tools_error + listening_port list" where
  "listening_ports lower client =
     and_then (map_err (\<lambda>e. ToolSshExec (display_ssh_error e)) (execute_command_full client ports_command))
       (\<lambda>out. if str_contains ''NEITHER_SS_NOR_NETSTAT'' (stderr out)
              then Inl (RemoteCommand (exit_code out) ''host has neither `ss` nor `netstat` available'')
              else Inr (parse_ports lower (stdout out)))"

section \<open>What is read\<close>

text \<open>Every reported port and process number is in range.\<close>

lemma users_pid_le: "users_pid parts pid = Some n \<Longrightarrow> (\<And>m. pid = Some m \<Longrightarrow> m \<le> u32_max) \<Longrightarrow> n \<le> u32_max"
proof (induction parts arbitrary: pid)
  case (Cons part parts)
  show ?case
    by (rule Cons.IH[OF Cons.prems(1)[simplified]])
       (use Cons.prems(2) parse_uint_le in \<open>auto split: option.splits\<close>)
qed simp

lemma process_info_le: "process_info cols = (process, Some n) \<Longrightarrow> n \<le> u32_max"
  using users_pid_le[of _ None n] parse_uint_le
  by (auto simp: process_info_def Let_def split: option.splits if_splits prod.splits)

lemma parse_ports_bounds:
  assumes "p \<in> set (parse_ports lower out)"
  shows "lp_port p \<le> u16_max \<and> (case lp_pid p of None \<Rightarrow> True | Some n \<Rightarrow> n \<le> u32_max)"
proof -
  obtain l where "parse_port_line lower l = Some p"
    using assms by (auto simp: parse_ports_def List.map_filter_def split: if_splits)
  then obtain ps cols process pid where "parse_uint u16_max ps = Some (lp_port p)"
    "process_info cols = (process, pid)" "lp_pid p = pid"
    by (auto simp: parse_port_line_def Let_def split: option.splits list.splits if_splits prod.splits)
  then show ?thesis using parse_uint_le process_info_le by (auto split: option.splits)
qed

text \<open>The token in which \<open>ss\<close> prints the processes that hold a socket.\<close>

type_synonym socket_user = "string \<times> nat \<times> nat"

fun user_item :: "socket_user \<Rightarrow> string" where
  "user_item (name, pid, fd) = quote2 # name @ quote2 # '',pid='' @ nat_str pid @ '',fd='' @ nat_str fd"

definition users_token :: "socket_user list \<Rightarrow> string" where
  "users_token us = users_mark @ join ''),('' (map user_item us) @ ''))''"

definition user_ok :: "socket_user \<Rightarrow> bool" where
  "user_ok u \<longleftrightarrow> (case u of (name, pid, fd) \<Rightarrow>
     list_all visible name \<and> quote2 \<notin> set name \<and> CHR '','' \<notin> set name \<and> CHR '')'' \<notin> set name \<and> pid \<le> u32_max)"

lemma split_once_absent: "p \<noteq> [] \<Longrightarrow> hd p \<notin> set a \<Longrightarrow> split_once p a = None"
  by (induction a) (cases p; auto)+

lemma split_once_fresh: "p \<noteq> [] \<Longrightarrow> hd p \<notin> set a \<Longrightarrow> split_once p (a @ p @ b) = Some (a, b)"
proof (induction a)
  case Nil
  then show ?case by (simp add: split_once_prefix)
next
  case (Cons c a)
  then have "strip_prefix p (c # a @ p @ b) = None" by (cases p) auto
  then show ?case using Cons by simp
qed

lemma nat_str_char: "c \<in> set (nat_str n) \<Longrightarrow> is_digit c"
  using nat_str_digits[of n] by (auto simp: list_all_iff)

lemma nat_str_free: "\<not> is_digit c \<Longrightarrow> c \<notin> set (nat_str n)"
  using nat_str_char by blast

lemma field_nat_str: "field (nat_str n)"
  using nat_str_char[of _ n] is_upper_visible(2) by (auto simp: field_def list_all_iff)

lemma digit_other: "\<not> is_digit (CHR '':'')" "\<not> is_digit (CHR '','')" "\<not> is_digit (CHR '')'')" "\<not> is_digit (CHR ''/'')"
  "\<not> is_digit quote2"
  by (simp_all add: char_defs)

lemma user_item_free: "user_ok u \<Longrightarrow> CHR '')'' \<notin> set (user_item u)"
  by (cases u) (auto simp: user_ok_def quote2_def nat_str_free digit_other)

lemma trim_start_matches_once: "p \<noteq> [] \<Longrightarrow> strip_prefix p r = None \<Longrightarrow> trim_start_matches p (p @ r) = r"
  by (simp add: trim_start_matches.simps[of p "p @ r"] trim_start_matches.simps[of p r])

lemma user_item_ends: "\<exists>q d. user_item u = quote2 # q @ [d] \<and> is_digit d"
proof -
  obtain name pid fd where u: "u = (name, pid, fd)" by (cases u) auto
  obtain q d where "nat_str fd = q @ [d]" by (cases "nat_str fd" rule: rev_cases) auto
  moreover from this have "is_digit d" using nat_str_char[of d fd] by simp
  ultimately show ?thesis using u by auto
qed

lemma items_ends: "us \<noteq> [] \<Longrightarrow> \<exists>q d. join ''),('' (map user_item us) = quote2 # q @ [d] \<and> is_digit d"
proof (induction us rule: induct_list012)
  case (2 u)
  then show ?case using user_item_ends[of u] by simp
next
  case (3 u v us)
  obtain q d where "join ''),('' (map user_item (v # us)) = quote2 # q @ [d]" "is_digit d" using 3(2) by auto
  moreover obtain q' d' where "user_item u = quote2 # q' @ [d']" using user_item_ends[of u] by blast
  ultimately show ?case by (intro exI[of _ "q' @ [d'] @ ''),('' @ quote2 # q"] exI[of _ d]) simp
qed simp

lemma users_inner:
  assumes "us \<noteq> []"
  shows "trim_end_matches ''))'' (trim_start_matches users_mark (users_token us)) = join ''),('' (map user_item us)"
proof -
  obtain q d where j: "join ''),('' (map user_item us) = quote2 # q @ [d]" "is_digit d" using items_ends[OF assms] by blast
  let ?j = "join ''),('' (map user_item us)"
  have "trim_start_matches users_mark (users_mark @ ?j @ ''))'') = ?j @ ''))''"
    by (rule trim_start_matches_once) (simp_all add: j users_mark_def quote2_def)
  moreover have "trim_start_matches ''))'' (''))'' @ rev ?j) = rev ?j"
    by (rule trim_start_matches_once) (use digit_other(3) j in auto)
  ultimately show ?thesis by (simp add: users_token_def trim_end_matches_def)
qed

lemma users_first:
  assumes "list_all user_ok (u # us)"
  shows "split_first ''),('' (join ''),('' (map user_item (u # us))) = user_item u"
proof (cases us)
  case Nil
  then show ?thesis using assms user_item_free[of u] by (simp add: split_first_def split_once_absent)
next
  case (Cons v vs)
  then show ?thesis using assms user_item_free[of u]
    using split_once_fresh[of "''),(''" "user_item u"] by (simp add: split_first_def)
qed

lemma user_item_parts:
  assumes "user_ok (name, pid, fd)"
  shows "split_char (CHR '','') (user_item (name, pid, fd)) =
    [quote2 # name @ [quote2], ''pid='' @ nat_str pid, ''fd='' @ nat_str fd]"
proof -
  have n: "CHR '','' \<notin> set (quote2 # name @ [quote2])" "CHR '','' \<notin> set (''pid='' @ nat_str pid)"
    "CHR '','' \<notin> set (''fd='' @ nat_str fd)"
    using assms by (auto simp: user_ok_def quote2_def nat_str_free digit_other)
  have "user_item (name, pid, fd) = (quote2 # name @ [quote2]) @ CHR '','' # (''pid='' @ nat_str pid) @ CHR '','' # ''fd='' @ nat_str fd"
    by simp
  then show ?thesis
    by (simp only: split_char_cons[OF n(1)] split_char_cons[OF n(2)] split_char_none[OF n(3)])
qed

lemma trim_chars_quoted:
  assumes "c \<notin> set name"
  shows "trim_chars [c] (c # name @ [c]) = name"
proof -
  have d: "dropWhile (\<lambda>x. x \<in> set [c]) ys = ys" if "c \<notin> set ys" for ys using that by (cases ys) auto
  show ?thesis
  proof (cases name)
    case (Cons a as)
    then show ?thesis using assms d[of "rev name"] by (auto simp: trim_chars_def trim_end_chars_def)
  qed (simp add: trim_chars_def trim_end_chars_def)
qed

lemma users_read:
  assumes "list_all user_ok ((name, pid, fd) # us)" and "\<not> list_ex (starts_with users_mark) cols"
  shows "process_info (cols @ [users_token ((name, pid, fd) # us)]) = (Some name, Some pid)"
proof -
  have u: "user_ok (name, pid, fd)" using assms(1) by simp
  have f: "find (starts_with users_mark) (cols @ [users_token ((name, pid, fd) # us)]) = Some (users_token ((name, pid, fd) # us))"
    using assms(2) by (induction cols) (auto simp: starts_with_def users_token_def)
  have v: "list_all visible (''pid='' @ nat_str pid)" "list_all visible (''fd='' @ nat_str fd)"
    using field_nat_str by (simp_all add: field_def visible_def byte_def)
  have "trim_chars [quote2] (quote2 # name @ [quote2]) = name"
    using u by (intro trim_chars_quoted) (simp add: user_ok_def)
  moreover have "users_pid [''pid='' @ nat_str pid, ''fd='' @ nat_str fd] None = Some pid"
    using u by (simp add: trim_visible[OF v(1), simplified] trim_visible[OF v(2), simplified] parse_uint_nat_str user_ok_def)
  ultimately show ?thesis
    unfolding process_info_def f users_inner[OF list.distinct(2)] users_first[OF assms(1)] user_item_parts[OF u]
      Let_def option.case by simp
qed

lemma local_addr_split: "rsplit_once '':'' (addr @ CHR '':'' # nat_str port) = Some (addr, nat_str port)"
  by (rule rsplit_once_char_present) (rule nat_str_free[OF digit_other(1)])

lemma local_addr_found:
  assumes "port \<le> u16_max" and "list_all (\<lambda>w. CHR '':'' \<notin> set w) ws"
  shows "find is_local_addr (ws @ (addr @ CHR '':'' # nat_str port) # rest) = Some (addr @ CHR '':'' # nat_str port)"
  using assms by (induction ws) (simp_all add: is_local_addr_def local_addr_split parse_uint_nat_str)

text \<open>\<open>to_lowercase\<close> on ASCII text.\<close>

definition lowers_ascii :: "(string \<Rightarrow> string) \<Rightarrow> bool" where
  "lowers_ascii lower \<longleftrightarrow> (\<forall>s. is_ascii s \<longrightarrow> lower s = to_ascii_lowercase s)"

lemma protocol_token: "lowers_ascii lower \<Longrightarrow> proto \<in> {''tcp'', ''udp'', ''tcp6'', ''udp6''} \<Longrightarrow>
  lower proto = proto \<and> (starts_with ''tcp'' proto \<or> starts_with ''udp'' proto) \<and> CHR '':'' \<notin> set proto"
  by (auto simp: lowers_ascii_def is_ascii_def to_ascii_lowercase_def lower_char_def char_defs starts_with_def)

text \<open>A line of columns of which the first with a port is the local address.\<close>

lemma port_line_read:
  assumes "field proto" and "list_all (field \<circ> snd) ws" and "lowers_ascii lower"
    and "proto \<in> {''tcp'', ''udp'', ''tcp6'', ''udp6''}"
    and "map snd ws = cols @ (addr @ CHR '':'' # nat_str port) # rest"
    and "list_all (\<lambda>w. CHR '':'' \<notin> set w) cols" and "port \<le> u16_max"
  shows "parse_port_line lower (proto @ padded ws) =
    (case process_info (proto # cols @ (addr @ CHR '':'' # nat_str port) # rest) of
       (process, pid) \<Rightarrow> Some \<lparr>lp_protocol = proto, lp_local_addr = trim_chars ''[]'' addr, lp_port = port,
                               lp_process = process, lp_pid = pid\<rparr>)"
proof -
  have "find is_local_addr (proto # map snd ws) = Some (addr @ CHR '':'' # nat_str port)"
    using local_addr_found[of port "proto # cols" addr rest] protocol_token[OF assms(3,4)] assms(5,6,7) by simp
  then show ?thesis
    unfolding parse_port_line_def split_whitespace_line[OF assms(1,2)] list.case Let_def
    using protocol_token[OF assms(3,4)] assms(5,7)
    by (auto simp: local_addr_split parse_uint_nat_str split: prod.splits)
qed

lemma no_colon_no_mark: "CHR '':'' \<notin> set w \<Longrightarrow> \<not> starts_with users_mark w"
  by (auto simp: starts_with_iff users_mark_def)

lemma pid_no_mark: "\<not> starts_with users_mark (nat_str pid @ CHR ''/'' # name)"
proof -
  obtain d q where "nat_str pid = d # q" by (cases "nat_str pid") auto
  moreover from this have "is_digit d" using nat_str_char[of d pid] by simp
  ultimately show ?thesis by (auto simp: starts_with_def users_mark_def is_digit_def byte_def)
qed

lemma no_users:
  assumes "\<not> list_ex (starts_with users_mark) cols" and "CHR ''/'' \<notin> set p"
  shows "process_info (cols @ [p @ CHR ''/'' # name]) =
    (if starts_with users_mark (p @ CHR ''/'' # name) then process_info (cols @ [p @ CHR ''/'' # name])
     else (Some name, parse_uint u32_max p))"
proof -
  have "find (starts_with users_mark) (cols @ [t]) = None" if "\<not> starts_with users_mark t" for t
    using assms(1) that by (induction cols) auto
  then show ?thesis
    using split_once_char_present[OF assms(2)] by (simp add: process_info_def)
qed

lemma field_parts:
  "field a \<Longrightarrow> field (a @ CHR '':'' # nat_str n)" "field a \<Longrightarrow> field (nat_str n @ CHR ''/'' # a)"
  using field_nat_str[of n] by (simp_all add: field_def visible_def byte_def)

lemma user_item_visible: "user_ok u \<Longrightarrow> list_all visible (user_item u)"
  using field_nat_str by (cases u) (auto simp: user_ok_def field_def visible_def char_defs)

lemma users_token_field: "list_all user_ok us \<Longrightarrow> field (users_token us)"
proof -
  assume "list_all user_ok us"
  then have "list_all visible (join ''),('' (map user_item us))"
    by (induction us rule: induct_list012) (auto simp: user_item_visible visible_def byte_def)
  then show ?thesis by (simp add: users_token_def field_def users_mark_def visible_def byte_def)
qed


text \<open>A process name with a blank is cut at it, and its number is lost.\<close>

definition tmux_line :: string where
  "tmux_line = ''tcp LISTEN 0 5 0.0.0.0:80 0.0.0.0:* users:(('' @ quote2 # ''tmux: server'' @ quote2 # '',pid=9,fd=3))''"

lemma blank_in_process_name:
  "parse_port_line to_ascii_lowercase tmux_line = Some \<lparr>lp_protocol = ''tcp'', lp_local_addr = ''0.0.0.0'', lp_port = 80,
     lp_process = Some ''tmux:'', lp_pid = None\<rparr>"
proof -
  let ?ws = "[(0, ''LISTEN''), (0, ''0''), (0, ''5''), (0, ''0.0.0.0'' @ CHR '':'' # nat_str 80), (0, ''0.0.0.0:*''),
     (0, ''users:(('' @ quote2 # ''tmux:''), (0, ''server'' @ quote2 # '',pid=9,fd=3))'')]"
  have n: "nat_str 80 = ''80''" by (simp add: nat_str.simps digit_char_def str_eval)
  have l: "tmux_line = ''tcp'' @ padded ?ws" by (simp add: tmux_line_def n)
  have "process_info (''tcp'' # map snd ?ws) = (Some ''tmux:'', None)"
    by (simp add: n process_info_def starts_with_def users_mark_def quote2_def trim_start_matches.simps trim_end_matches_def
        split_first_def split_char_def trim_chars_def trim_end_chars_def)
  then show ?thesis
    using port_line_read[of "''tcp''" ?ws to_ascii_lowercase "[''LISTEN'', ''0'', ''5'']" "''0.0.0.0''" 80
        "[''0.0.0.0:*'', ''users:(('' @ quote2 # ''tmux:'', ''server'' @ quote2 # '',pid=9,fd=3))'']"]
    unfolding l
    by (simp add: lowers_ascii_def n field_def visible_def byte_def quote2_def u16_max_def trim_chars_def trim_end_chars_def)
qed


end
