(* ===== verification/Dns.thy ===== *)
theory Dns
  imports Git
begin

text \<open>
  DNS resolution from several perspectives, \<open>crates/core/src/tools/dns.rs\<close>. The local resolver, the
  local shell and the clock are parameters: \<open>lookup\<close> gives an error or the addresses, each with
  whether it is an IPv6 one, \<open>run_sh\<close> the outcome of \<open>sh -c\<close>, and \<open>elapsed\<close> the milliseconds.
\<close>

section \<open>Model\<close>

datatype dns_record_type = RecA | RecAAAA | RecCNAME | RecMX | RecTXT | RecNS

fun dig_arg :: "dns_record_type \<Rightarrow> string" where
  "dig_arg RecA = ''A''"
| "dig_arg RecAAAA = ''AAAA''"
| "dig_arg RecCNAME = ''CNAME''"
| "dig_arg RecMX = ''MX''"
| "dig_arg RecTXT = ''TXT''"
| "dig_arg RecNS = ''NS''"

record dns_query =
  dq_name :: string
  dq_record_type :: dns_record_type

record dns_answer =
  da_perspective :: string
  da_query :: string
  da_record_type :: dns_record_type
  da_answers :: "string list"
  da_error :: "string option"
  da_elapsed_ms :: "64 word"

definition parse_dig_lines :: "string \<Rightarrow> string list" where
  "parse_dig_lines out = filter (\<lambda>l. l \<noteq> [] \<and> \<not> starts_with '';'' l) (map trim (lines out))"

definition dns_char :: "char \<Rightarrow> bool" where
  "dns_char c \<longleftrightarrow> is_alnum c \<or> c \<in> set ''.-_''"

definition shell_safe :: "string \<Rightarrow> string" where
  "shell_safe name = filter dns_char name"

definition dig_command :: "dns_query \<Rightarrow> string" where
  "dig_command query = ''dig +short '' @ shell_safe (dq_name query) @ '' '' @ dig_arg (dq_record_type query)"

definition dns_answer_of :: "string \<Rightarrow> dns_query \<Rightarrow> 64 word \<Rightarrow> string list \<Rightarrow> string option \<Rightarrow> dns_answer" where
  "dns_answer_of perspective query elapsed answers error =
     \<lparr>da_perspective = perspective, da_query = dq_name query, da_record_type = dq_record_type query,
      da_answers = answers, da_error = error, da_elapsed_ms = elapsed\<rparr>"

record sh_output =
  sh_success :: bool
  sh_stdout :: string
  sh_stderr :: string

definition dns_resolve_local :: "(string \<Rightarrow> string + (bool \<times> string) list) \<Rightarrow> (string \<Rightarrow> string + sh_output) \<Rightarrow> 64 word
    \<Rightarrow> dns_query \<Rightarrow> dns_answer" where
  "dns_resolve_local lookup run_sh elapsed query =
     (let answer = dns_answer_of ''local'' query elapsed in
      if dq_record_type query = RecA \<or> dq_record_type query = RecAAAA then
        (case lookup (dq_name query @ '':0'') of
           Inr addrs \<Rightarrow> answer (map snd (filter (\<lambda>a. fst a = (dq_record_type query = RecAAAA)) addrs)) None
         | Inl e \<Rightarrow> answer [] (Some e))
      else
        (case run_sh (dig_command query) of
           Inr out \<Rightarrow>
             if sh_success out then answer (parse_dig_lines (from_utf8_lossy (sh_stdout out))) None
             else answer [] (Some (from_utf8_lossy (sh_stderr out)))
         | Inl e \<Rightarrow> answer [] (Some e)))"

definition dns_resolve_remote :: "'p ssh_client \<Rightarrow> string \<Rightarrow> 64 word \<Rightarrow> dns_query \<Rightarrow> dns_answer" where
  "dns_resolve_remote client perspective_label elapsed query =
     (let answer = dns_answer_of perspective_label query elapsed in
      case execute_command_full client (dig_command query) of
        Inr out \<Rightarrow>
          if is_success out then answer (parse_dig_lines (stdout out)) None
          else
            (let answers = parse_dig_lines (stdout out) in
             answer answers
               (if answers = [] \<and> trim (stderr out) \<noteq> [] then Some (trim (stderr out))
                else if answers = [] \<and> unwrap_or 0 (exit_code out) \<noteq> 0
                then Some (''dig exited '' @ (case exit_code out of Some c \<Rightarrow> nat_str (unat c) | None \<Rightarrow> ''?''))
                else None))
      | Inl e \<Rightarrow> answer [] (Some (display_ssh_error e)))"

section \<open>The command line\<close>

lemma dns_char_plain: "dns_char c \<Longrightarrow> plain_char c"
  unfolding dns_char_def
  by (elim disjE) (simp add: alnum_plain, auto simp: plain_char_def sh_blank_def sh_special_def char_consts)

lemma shell_safe_plain: "list_all plain_char (shell_safe name)"
  by (auto simp: shell_safe_def list_all_iff dns_char_plain)

lemma shell_safe_id: "list_all dns_char name \<Longrightarrow> shell_safe name = name"
  by (simp add: shell_safe_def list_all_iff filter_id_conv)

lemma shell_safe_idem: "shell_safe (shell_safe name) = shell_safe name"
  by (rule shell_safe_id) (simp add: shell_safe_def list_all_iff)

lemma dig_arg_plain: "dig_arg t \<noteq> []" "list_all plain_char (dig_arg t)"
  by (cases t; simp add: plain_char_def sh_blank_def sh_special_def char_defs)+

interpretation name_quoting: literal_quoting "\<lambda>name. name \<noteq> [] \<and> list_all dns_char name" shell_safe
  by unfold_locales (metis list.pred_mono_strong dns_char_plain shell_safe_id sh_literal_plain)

text \<open>
  No host name injects anything into the \<open>dig\<close> command: the shell always sees the program, one
  option, at most one name and the record type. The name it sees is the one asked for exactly when
  that has only letters, digits, dots, dashes and underscores; any other name is not rejected but
  silently becomes another one, and a name of only such characters leaves the record type as the name.
\<close>

lemma dig_command_words:
  "sh_words (dig_command query) =
     Some ([''dig'', ''+short''] @ filter (\<lambda>w. w \<noteq> []) [shell_safe (dq_name query)] @ [dig_arg (dq_record_type query)])
   \<and> (shell_safe (dq_name query) = dq_name query \<longleftrightarrow> list_all dns_char (dq_name query))"
proof
  let ?n = "shell_safe (dq_name query)" and ?t = "dig_arg (dq_record_type query)"
  have lit: "sh_literal ''dig'' ''dig''" "sh_literal ''+short'' ''+short''" "sh_literal ?t ?t"
    using dig_arg_plain by (auto intro!: sh_literal_plain simp: plain_char_def sh_blank_def sh_special_def char_defs)
  show "sh_words (dig_command query) = Some ([''dig'', ''+short''] @ filter (\<lambda>w. w \<noteq> []) [?n] @ [?t])"
  proof (cases "?n = []")
    case True
    have "dig_command query = ''dig'' @ CHR '' '' # ''+short'' @ CHR '' '' # CHR '' '' # ?t"
      by (simp add: dig_command_def True)
    moreover have "sh_words (CHR '' '' # ?t) = Some [?t]"
      using sh_words_literal_end[OF lit(3)] by (simp add: sh_blank_def)
    ultimately show ?thesis
      using True by (simp only: sh_words_literal_step[OF lit(1)] sh_words_literal_step[OF lit(2)]) simp
  next
    case False
    have "dig_command query = join '' '' [''dig'', ''+short'', ?n, ?t]" by (simp add: dig_command_def)
    moreover have "sh_literal ?n ?n" by (rule sh_literal_plain[OF False shell_safe_plain])
    ultimately show ?thesis
      using sh_words_join[of "[''dig'', ''+short'', ?n, ?t]" "[''dig'', ''+short'', ?n, ?t]"] lit False by simp
  qed
  show "shell_safe (dq_name query) = dq_name query \<longleftrightarrow> list_all dns_char (dq_name query)"
    by (simp add: shell_safe_def filter_id_conv list_all_iff)
qed

section \<open>Answers\<close>

text \<open>A remote resolution answers for the host and name asked, and reports an error only without answers.\<close>

lemma dns_resolve_remote_answer:
  "let a = dns_resolve_remote client label elapsed query in
     da_perspective a = label \<and> da_query a = dq_name query \<and> da_record_type a = dq_record_type query
     \<and> (da_error a = None \<or> da_answers a = [])"
  by (auto simp: dns_resolve_remote_def dns_answer_of_def Let_def split: sum.splits)

end
