(* ===== verification/Handles.thy ===== *)
theory Handles
  imports Prelude
begin

text \<open>
  The contract of a registry that hands out 64-bit handles: an operation retires handles or puts
  the next number to use. The packet captures and the Parquet writers are such registries.
\<close>

definition handles_below :: "('s \<Rightarrow> 64 word set) \<Rightarrow> ('s \<Rightarrow> 64 word) \<Rightarrow> 's \<Rightarrow> bool" where
  "handles_below live next_id s \<longleftrightarrow> (\<forall>i\<in>live s. i < next_id s)"

lemma word_Suc_less: "unat (n :: 64 word) + 1 < 2 ^ 64 \<Longrightarrow> n < n + 1 \<and> unat (n + 1) = unat n + 1"
  by (simp add: word_less_nat_alt unat_word_ariths(1))

locale handle_registry =
  fixes live :: "'s \<Rightarrow> 64 word set"
    and next_id :: "'s \<Rightarrow> 64 word"
    and perform :: "'o \<Rightarrow> 's \<Rightarrow> 's"
  assumes perform_effect:
    "next_id (perform x s) = next_id s \<and> live (perform x s) \<subseteq> live s
     \<or> next_id (perform x s) = next_id s + 1 \<and> live (perform x s) \<subseteq> insert (next_id s) (live s)"
begin

lemma next_id_grows:
  "unat (next_id s) + length xs < 2 ^ 64 \<Longrightarrow>
   next_id s \<le> next_id (fold perform xs s) \<and> unat (next_id (fold perform xs s)) \<le> unat (next_id s) + length xs"
proof (induction xs arbitrary: s)
  case (Cons x xs)
  have "next_id s \<le> next_id (perform x s) \<and> unat (next_id (perform x s)) \<le> unat (next_id s) + 1"
    using perform_effect[of x s] word_Suc_less[of "next_id s"] Cons.prems by (auto simp: word_le_nat_alt)
  then show ?case using Cons.IH[of "perform x s"] Cons.prems by (auto simp: word_le_nat_alt)
qed simp

text \<open>Handles in use are below the next one, so the next one is fresh.\<close>

lemma below_kept:
  "handles_below live next_id s \<Longrightarrow> unat (next_id s) + length xs < 2 ^ 64 \<Longrightarrow>
   handles_below live next_id (fold perform xs s)"
proof (induction xs arbitrary: s)
  case (Cons x xs)
  have n: "unat (next_id (perform x s)) + length xs < 2 ^ 64"
    using next_id_grows[of s "[x]"] Cons.prems(2) by simp
  have "j < next_id (perform x s)" if j: "j \<in> live (perform x s)" for j
  proof -
    have "next_id s < next_id s + 1" using word_Suc_less[of "next_id s"] Cons.prems(2) by simp
    moreover have "j \<in> live s \<Longrightarrow> j < next_id s" using Cons.prems(1) by (simp add: handles_below_def)
    ultimately show ?thesis using perform_effect[of x s] j by (auto dest: less_trans)
  qed
  then have "handles_below live next_id (perform x s)" by (simp add: handles_below_def)
  then show ?case using Cons.IH n by simp
qed simp

lemma next_is_fresh:
  "handles_below live next_id s \<Longrightarrow> unat (next_id s) + length xs < 2 ^ 64 \<Longrightarrow>
   next_id (fold perform xs s) \<notin> live (fold perform xs s)"
  using below_kept by (fastforce simp: handles_below_def)

text \<open>A retired handle is never in use again.\<close>

lemma retired_stays:
  "i \<notin> live s \<Longrightarrow> i < next_id s \<Longrightarrow> unat (next_id s) + length xs < 2 ^ 64 \<Longrightarrow> i \<notin> live (fold perform xs s)"
proof (induction xs arbitrary: s)
  case (Cons x xs)
  have "next_id s \<le> next_id (perform x s) \<and> unat (next_id (perform x s)) \<le> unat (next_id s) + 1"
    using next_id_grows[of s "[x]"] Cons.prems(3) perform_effect[of x s] by simp
  moreover from this have "i < next_id (perform x s)" using Cons.prems(2) by (blast intro: less_le_trans)
  moreover have "i \<notin> live (perform x s)" using perform_effect[of x s] Cons.prems(1,2) by auto
  ultimately show ?case using Cons.IH[of "perform x s"] Cons.prems(3) by simp
qed simp

end

end
