(* ===== verification/Tcpdump.thy ===== *)
theory Tcpdump
  imports Git Handles EventBus
begin

text \<open>
  Packet captures, \<open>crates/core/src/tools/tcpdump.rs\<close>: the checks of what goes into the command line,
  the registry of running captures, and the task that republishes the lines of one.
\<close>

section \<open>Model\<close>

record tcpdump_event =
  te_capture_id :: "64 word"
  te_line :: string
  te_is_stderr :: bool

text \<open>\<open>td_captures\<close> maps a capture to its cancellation token, \<open>td_cancelled\<close> the tokens cancelled.\<close>

record tcpdump_registry =
  td_next_id :: "64 word"
  td_captures :: "(64 word \<times> nat) list"
  td_cancelled :: "nat list"
  td_poisoned :: bool

definition new_tcpdump_registry :: tcpdump_registry where
  "new_tcpdump_registry = \<lparr>td_next_id = 1, td_captures = [], td_cancelled = [], td_poisoned = False\<rparr>"

definition interface_char :: "char \<Rightarrow> bool" where
  "interface_char c \<longleftrightarrow> is_alnum c \<or> c \<in> set ''.-_:''"

definition validate_interface :: "string \<Rightarrow> tools_error + unit" where
  "validate_interface iface =
     (if iface = [] \<or> 32 < length iface \<or> \<not> list_all interface_char iface
      then Inl (ToolParse (''invalid interface: '' @ iface)) else Inr ())"

definition validate_filter :: "string \<Rightarrow> tools_error + unit" where
  "validate_filter bpf =
     (if quote1 \<in> set bpf then Inl (ToolParse ''filter may not contain single quotes'')
      else if 4096 < length bpf then Inl (ToolParse ''filter too long'')
      else Inr ())"

definition tcpdump_command :: "string \<Rightarrow> string \<Rightarrow> 32 word option \<Rightarrow> string" where
  "tcpdump_command interface bpf snaplen =
     ''sudo -n tcpdump -lnn -s '' @ nat_str (unat (unwrap_or 96 snaplen)) @ '' -i '' @ interface
       @ (if trim bpf = [] then [] else CHR '' '' # quote_path bpf)"

text \<open>\<open>token\<close> is the cancellation token of the new stream.\<close>

definition td_start :: "'p ssh_client \<Rightarrow> string \<Rightarrow> string \<Rightarrow> 32 word option \<Rightarrow> nat \<Rightarrow> tcpdump_registry
    \<Rightarrow> (tools_error + 64 word) \<times> tcpdump_registry" where
  "td_start client interface bpf snaplen token r =
     (case and_then (validate_interface interface) (\<lambda>_. and_then (validate_filter bpf) (\<lambda>_.
             map_err (\<lambda>e. ToolSshExec (display_ssh_error e))
               (execute_command_streaming client (tcpdump_command interface bpf snaplen) None))) of
        Inl e \<Rightarrow> (Inl e, r)
      | Inr _ \<Rightarrow>
          (Inr (td_next_id r),
           r\<lparr>td_next_id := td_next_id r + 1,
             td_captures := (if td_poisoned r then td_captures r
                             else AList.update (td_next_id r) token (td_captures r))\<rparr>))"

definition td_stop :: "64 word \<Rightarrow> tcpdump_registry \<Rightarrow> (tools_error + unit) \<times> tcpdump_registry" where
  "td_stop i r =
     (if td_poisoned r
      then (Inl (ToolParse ''lock poisoned: poisoned lock: another task failed inside''), r)
      else case map_of (td_captures r) i of
        Some token \<Rightarrow>
          (Inr (), r\<lparr>td_captures := AList.delete i (td_captures r), td_cancelled := td_cancelled r @ [token]\<rparr>)
      | None \<Rightarrow> (Inl (CaptureNotFound i), r))"

text \<open>A line of the capture task, and its end.\<close>

definition capture_event :: "64 word \<Rightarrow> string \<Rightarrow> core_event" where
  "capture_event i line =
     (case strip_prefix ''!'' line of
        Some rest \<Rightarrow> TcpdumpLine i rest True
      | None \<Rightarrow> TcpdumpLine i line False)"

definition capture_ended :: "64 word \<Rightarrow> tcpdump_registry \<Rightarrow> tcpdump_registry" where
  "capture_ended i r = (if td_poisoned r then r else r\<lparr>td_captures := AList.delete i (td_captures r)\<rparr>)"

definition capture_task :: "64 word \<Rightarrow> string list \<Rightarrow> tcpdump_registry \<Rightarrow> core_event list \<times> tcpdump_registry" where
  "capture_task i ls r = (map (capture_event i) ls, capture_ended i r)"

section \<open>The command line\<close>

lemma interface_char_plain: "interface_char c \<Longrightarrow> plain_char c"
  unfolding interface_char_def
  by (elim disjE) (simp add: alnum_plain, auto simp: plain_char_def sh_blank_def sh_special_def char_consts)

interpretation filter_quoting: literal_quoting "\<lambda>f. validate_filter f = Inr ()" quote_path
  by unfold_locales (auto simp: validate_filter_def quote_path_def sh_literal_single split: if_splits)

interpretation interface_quoting: literal_quoting "\<lambda>i. validate_interface i = Inr ()" "\<lambda>i. i"
  by unfold_locales
    (metis Inl_Inr_False interface_char_plain list.pred_mono_strong sh_literal_plain validate_interface_def)

lemma validate_interface_iff:
  "validate_interface i = Inr () \<longleftrightarrow> i \<noteq> [] \<and> length i \<le> 32 \<and> list_all interface_char i"
  by (auto simp: validate_interface_def)

text \<open>
  Every capture that starts runs one \<open>tcpdump\<close> under \<open>sudo\<close>: the shell splits the command into the
  program with its fixed options, the snapshot length, the interface, and the whole filter as one
  word, left out when it is blank. Nothing else is checked of the filter, so a filter that begins with
  a dash reaches \<open>tcpdump\<close> where it reads options.
\<close>

lemma capture_command_words:
  assumes "td_start client interface bpf snaplen token r = (Inr i, r')"
  shows "sh_words (tcpdump_command interface bpf snaplen) =
     Some ([''sudo'', ''-n'', ''tcpdump'', ''-lnn'', ''-s'', nat_str (unat (unwrap_or 96 snaplen)), ''-i'', interface]
       @ (if trim bpf = [] then [] else [bpf]))"
proof -
  have ok: "validate_interface interface = Inr ()" "validate_filter bpf = Inr ()"
    using assms by (auto simp: td_start_def and_then_Inr_iff split: sum.splits)
  let ?snap = "nat_str (unat (unwrap_or 96 snaplen))"
  let ?args = "[''sudo'', ''-n'', ''tcpdump'', ''-lnn'', ''-s'', ?snap, ''-i'']"
  have fixed: "list_all2 sh_literal ?args ?args"
    by (intro list.rel_intros sh_literal_plain nat_str_plain nat_str_nonempty;
        simp add: plain_char_def sh_blank_def sh_special_def char_consts)
  have last: "sh_literal interface interface" "sh_literal (quote_path bpf) bpf"
    using interface_quoting.quoted_literal filter_quoting.quoted_literal ok by blast+
  have cmd: "tcpdump_command interface bpf snaplen =
      join '' '' (?args @ [interface] @ (if trim bpf = [] then [] else [quote_path bpf]))"
    by (simp add: tcpdump_command_def)
  have "list_all2 sh_literal (?args @ [interface] @ (if trim bpf = [] then [] else [quote_path bpf]))
      (?args @ [interface] @ (if trim bpf = [] then [] else [bpf]))"
    by (rule list_all2_appendI[OF fixed]) (simp add: last)
  from sh_words_join[OF this] show ?thesis unfolding cmd by simp
qed

section \<open>The registry\<close>

text \<open>The operations on the registry: a capture that starts, a stop, and the end of a capture task.\<close>

datatype capture_op = CaptureStarted nat | CaptureStop "64 word" | CaptureEnded "64 word"

fun capture_do :: "capture_op \<Rightarrow> tcpdump_registry \<Rightarrow> tcpdump_registry" where
  "capture_do (CaptureStarted token) r =
     r\<lparr>td_next_id := td_next_id r + 1,
       td_captures := (if td_poisoned r then td_captures r else AList.update (td_next_id r) token (td_captures r))\<rparr>"
| "capture_do (CaptureStop i) r = snd (td_stop i r)"
| "capture_do (CaptureEnded i) r = capture_ended i r"

lemma td_start_does:
  "td_start client interface bpf snaplen token r = (res, r') \<Longrightarrow>
   (case res of Inl _ \<Rightarrow> r' = r | Inr i \<Rightarrow> i = td_next_id r \<and> r' = capture_do (CaptureStarted token) r)"
  by (auto simp: td_start_def split: sum.splits)

definition live_captures :: "tcpdump_registry \<Rightarrow> 64 word set" where
  "live_captures r = dom (map_of (td_captures r))"

interpretation captures: handle_registry live_captures td_next_id capture_do
proof
  fix x r
  show "td_next_id (capture_do x r) = td_next_id r \<and> live_captures (capture_do x r) \<subseteq> live_captures r
    \<or> td_next_id (capture_do x r) = td_next_id r + 1 \<and> live_captures (capture_do x r) \<subseteq> insert (td_next_id r) (live_captures r)"
    by (cases x) (auto simp: live_captures_def td_stop_def capture_ended_def update_conv' delete_conv' split: option.splits)
qed

text \<open>A capture that was stopped, or has ended, is unknown from then on.\<close>

lemma stopped_capture_unknown:
  assumes "handles_below live_captures td_next_id r" and "td_stop i r = (Inr (), r1)"
    and "unat (td_next_id r) + length later < 2 ^ 64"
  shows "i \<notin> live_captures (fold capture_do later r1)"
proof -
  have "i \<in> live_captures r" "td_next_id r1 = td_next_id r" "i \<notin> live_captures r1"
    using assms(2) by (auto simp: td_stop_def live_captures_def delete_conv' split: if_splits option.splits)
  moreover from this have "i < td_next_id r1" using assms(1) by (simp add: handles_below_def)
  ultimately show ?thesis using captures.retired_stays assms(3) by simp
qed

end
