(* ===== verification/Parquet.thy ===== *)
theory Parquet
  imports RustStr Handles
begin

text \<open>
  The Parquet export, \<open>crates/pg-parquet/src/lib.rs\<close>. The file system and the Arrow and Parquet
  libraries are the record \<open>parquet_api\<close> over files \<open>'f\<close>, writers \<open>'w\<close> and record batches \<open>'b\<close>.
\<close>

section \<open>Model\<close>

datatype parquet_error = PqIo string | PqArrow string | PqParquet string | UnknownWriter

fun display_parquet_error :: "parquet_error \<Rightarrow> string" where
  "display_parquet_error (PqIo e) = ''io error: '' @ e"
| "display_parquet_error (PqArrow e) = ''arrow error: '' @ e"
| "display_parquet_error (PqParquet e) = ''parquet error: '' @ e"
| "display_parquet_error UnknownWriter = ''unknown parquet writer id''"

text \<open>A schema is the names of its columns, all nullable text; a row is its cells.\<close>

type_synonym cells = "string option list"

record ('f, 'w, 'b) parquet_api =
  pq_create_file :: "string \<Rightarrow> string + 'f"
  pq_writer :: "'f \<Rightarrow> string list \<Rightarrow> string + 'w"
  pq_batch :: "string list \<Rightarrow> cells list \<Rightarrow> string + 'b"
  pq_write :: "'b \<Rightarrow> 'w \<Rightarrow> (string + unit) \<times> 'w"
  pq_finish :: "'w \<Rightarrow> string + unit"

record 'w parquet_exporter =
  px_writer :: 'w
  px_schema :: "string list"
  px_column_count :: nat

definition exporter_create :: "('f, 'w, 'b) parquet_api \<Rightarrow> string \<Rightarrow> string list \<Rightarrow> parquet_error + 'w parquet_exporter" where
  "exporter_create api path columns =
     and_then (map_err PqIo (pq_create_file api path)) (\<lambda>file.
     and_then (map_err PqParquet (pq_writer api file columns)) (\<lambda>writer.
       Inr \<lparr>px_writer = writer, px_schema = columns, px_column_count = length columns\<rparr>))"

definition cell_at :: "nat \<Rightarrow> cells \<Rightarrow> string option" where
  "cell_at i row = (if i < length row then row ! i else None)"

definition batch_columns :: "nat \<Rightarrow> cells list \<Rightarrow> cells list" where
  "batch_columns n rows = map (\<lambda>i. map (cell_at i) rows) [0..<n]"

definition append_rows :: "('f, 'w, 'b) parquet_api \<Rightarrow> cells list \<Rightarrow> 'w parquet_exporter
    \<Rightarrow> (parquet_error + unit) \<times> 'w parquet_exporter" where
  "append_rows api rows x =
     (if rows = [] then (Inr (), x)
      else case pq_batch api (px_schema x) (batch_columns (px_column_count x) rows) of
        Inl e \<Rightarrow> (Inl (PqArrow e), x)
      | Inr batch \<Rightarrow>
          (case pq_write api batch (px_writer x) of (r, w) \<Rightarrow> (map_err PqParquet r, x\<lparr>px_writer := w\<rparr>)))"

definition exporter_close :: "('f, 'w, 'b) parquet_api \<Rightarrow> 'w parquet_exporter \<Rightarrow> parquet_error + unit" where
  "exporter_close api x = map_err PqParquet (pq_finish api (px_writer x))"

record 'w parquet_registry =
  pr_next_id :: "64 word"
  pr_exporters :: "(64 word \<times> 'w parquet_exporter) list"

definition new_parquet_registry :: "'w parquet_registry" where
  "new_parquet_registry = \<lparr>pr_next_id = 1, pr_exporters = []\<rparr>"

definition parquet_open :: "('f, 'w, 'b) parquet_api \<Rightarrow> string \<Rightarrow> string list \<Rightarrow> 'w parquet_registry
    \<Rightarrow> (parquet_error + 64 word) \<times> 'w parquet_registry" where
  "parquet_open api path columns r =
     (case exporter_create api path columns of
        Inl e \<Rightarrow> (Inl e, r)
      | Inr x \<Rightarrow>
          (Inr (pr_next_id r),
           r\<lparr>pr_next_id := pr_next_id r + 1, pr_exporters := AList.update (pr_next_id r) x (pr_exporters r)\<rparr>))"

definition parquet_append :: "('f, 'w, 'b) parquet_api \<Rightarrow> 64 word \<Rightarrow> cells list \<Rightarrow> 'w parquet_registry
    \<Rightarrow> (parquet_error + unit) \<times> 'w parquet_registry" where
  "parquet_append api i rows r =
     (case map_of (pr_exporters r) i of
        None \<Rightarrow> (Inl UnknownWriter, r)
      | Some x \<Rightarrow>
          (case append_rows api rows x of (res, x') \<Rightarrow> (res, r\<lparr>pr_exporters := AList.update i x' (pr_exporters r)\<rparr>)))"

definition parquet_close :: "('f, 'w, 'b) parquet_api \<Rightarrow> 64 word \<Rightarrow> 'w parquet_registry
    \<Rightarrow> (parquet_error + unit) \<times> 'w parquet_registry" where
  "parquet_close api i r =
     (case map_of (pr_exporters r) i of
        None \<Rightarrow> (Inl UnknownWriter, r)
      | Some x \<Rightarrow> (exporter_close api x, r\<lparr>pr_exporters := AList.delete i (pr_exporters r)\<rparr>))"

section \<open>Batches\<close>

text \<open>A row cut or filled with nulls to the width of the schema.\<close>

definition fit_row :: "nat \<Rightarrow> cells \<Rightarrow> cells" where
  "fit_row n row = take n row @ replicate (n - length row) None"

text \<open>Read by rows, a batch is its rows at the width of the schema; every column has a cell per row.\<close>

lemma batch_columns_rows:
  "map (\<lambda>j. map (\<lambda>col. col ! j) (batch_columns n rows)) [0..<length rows] = map (fit_row n) rows"
  by (rule nth_equalityI) (auto simp: batch_columns_def fit_row_def cell_at_def nth_append intro!: nth_equalityI)

lemma batch_columns_shape:
  "length (batch_columns n rows) = n" "list_all (\<lambda>col. length col = length rows) (batch_columns n rows)"
  by (simp_all add: batch_columns_def list_all_iff)

lemma fit_row_id: "length row = n \<Longrightarrow> fit_row n row = row"
  by (simp add: fit_row_def)

section \<open>Handles\<close>

datatype parquet_op = ParquetOpen string "string list" | ParquetAppend "64 word" "cells list" | ParquetClose "64 word"

fun parquet_do :: "('f, 'w, 'b) parquet_api \<Rightarrow> parquet_op \<Rightarrow> 'w parquet_registry \<Rightarrow> 'w parquet_registry" where
  "parquet_do api (ParquetOpen path columns) r = snd (parquet_open api path columns r)"
| "parquet_do api (ParquetAppend i rows) r = snd (parquet_append api i rows r)"
| "parquet_do api (ParquetClose i) r = snd (parquet_close api i r)"

definition live_writers :: "'w parquet_registry \<Rightarrow> 64 word set" where
  "live_writers r = dom (map_of (pr_exporters r))"

interpretation writers: handle_registry live_writers pr_next_id "parquet_do api" for api
proof
  fix x r
  show "pr_next_id (parquet_do api x r) = pr_next_id r \<and> live_writers (parquet_do api x r) \<subseteq> live_writers r
    \<or> pr_next_id (parquet_do api x r) = pr_next_id r + 1
      \<and> live_writers (parquet_do api x r) \<subseteq> insert (pr_next_id r) (live_writers r)"
    by (cases x) (auto simp: live_writers_def parquet_open_def parquet_append_def parquet_close_def update_conv' delete_conv'
        split: option.splits sum.splits prod.splits)
qed

lemma parquet_appended:
  assumes "map_of (pr_exporters r) i = Some x" and "rows \<noteq> []"
    and "pq_batch api (px_schema x) (batch_columns (px_column_count x) rows) = Inr batch"
    and "pq_write api batch (px_writer x) = (Inr (), w)"
  shows "\<exists>r'. parquet_append api i rows r = (Inr (), r') \<and> map_of (pr_exporters r') i = Some (x\<lparr>px_writer := w\<rparr>)"
  using assms by (simp add: parquet_append_def append_rows_def update_conv')

lemma new_registry_below: "handles_below live_writers pr_next_id new_parquet_registry"
  by (simp add: handles_below_def live_writers_def new_parquet_registry_def)

lemma not_live_unknown:
  assumes "i \<notin> live_writers r"
  shows "parquet_append api i rows r = (Inl UnknownWriter, r) \<and> parquet_close api i r = (Inl UnknownWriter, r)"
  using assms by (auto simp: live_writers_def parquet_append_def parquet_close_def domIff)

text \<open>
  C34. A closed writer is closed for good. Once a close of a writer has been answered with anything but
  \<open>UnknownWriter\<close>, its own error included, then whatever is opened, appended and closed afterwards
  an append and a close with its handle are answered with \<open>UnknownWriter\<close>, and no open returns its
  handle; the bound is on the number of operations, of which fewer than the 64-bit handles are counted.
\<close>

theorem closed_writer_unknown:
  fixes api :: "('f, 'w, 'b) parquet_api"
  assumes "parquet_close api i (fold (parquet_do api) earlier new_parquet_registry) = (res, r)"
    and "res \<noteq> Inl UnknownWriter" and "length earlier + length later < 2 ^ 64 - 1"
  shows "let r' = fold (parquet_do api) later r in
    fst (parquet_append api i rows r') = Inl UnknownWriter \<and> fst (parquet_close api i r') = Inl UnknownWriter
    \<and> fst (parquet_open api path columns r') \<noteq> Inr i"
proof -
  let ?n = "new_parquet_registry :: 'w parquet_registry"
  let ?r0 = "fold (parquet_do api) earlier ?n" and ?r' = "fold (parquet_do api) later r"
  have one: "unat (pr_next_id ?n) = 1" by (simp add: new_parquet_registry_def)
  have room: "unat (pr_next_id ?n) + length earlier < 2 ^ 64" using assms(3) one by simp
  have grown: "unat (pr_next_id ?r0) \<le> 1 + length earlier" using writers.next_id_grows[OF room, of api] one by simp
  have "i \<in> live_writers ?r0"
    using assms(1,2) not_live_unknown[of i ?r0 api] by auto
  then have below: "i < pr_next_id ?r0"
    using writers.below_kept[OF new_registry_below room, of api] by (simp add: handles_below_def)
  have r: "pr_next_id r = pr_next_id ?r0" "i \<notin> live_writers r"
    using assms(1,2) by (auto simp: parquet_close_def live_writers_def delete_conv' split: option.splits)
  have room': "unat (pr_next_id r) + length later < 2 ^ 64" using grown r(1) assms(3) by simp
  have "i \<notin> live_writers ?r'" by (rule writers.retired_stays) (use r below room' in auto)
  moreover have "i < pr_next_id ?r'"
    using writers.next_id_grows[OF room', of api] below r(1) by (auto intro: less_le_trans)
  moreover have "fst (parquet_open api path columns ?r') \<noteq> Inr i" if "i < pr_next_id ?r'"
    using that by (auto simp: parquet_open_def split: sum.splits)
  ultimately show ?thesis using not_live_unknown[of i ?r' api] by (simp add: Let_def)
qed

definition demo_parquet :: "(unit, unit, unit) parquet_api" where
  "demo_parquet = \<lparr>pq_create_file = (\<lambda>_. Inr ()), pq_writer = (\<lambda>_ _. Inr ()), pq_batch = (\<lambda>_ _. Inr ()),
     pq_write = (\<lambda>_ w. (Inr (), w)), pq_finish = (\<lambda>_. Inl ''disk full'')\<rparr>"

theorem closed_writer_unknown_witness:
  "let r = snd (parquet_close demo_parquet 1 (parquet_do demo_parquet (ParquetOpen ''f'' [''c'']) new_parquet_registry));
       r' = parquet_do demo_parquet (ParquetOpen ''f'' [''c'']) r
   in fst (parquet_append demo_parquet 1 [[Some ''x'']] r') = Inl UnknownWriter"
proof -
  have c: "parquet_close demo_parquet 1 (fold (parquet_do demo_parquet) [ParquetOpen ''f'' [''c'']] new_parquet_registry)
      = (Inl (PqParquet ''disk full''), \<lparr>pr_next_id = 2, pr_exporters = []\<rparr>)"
    by (simp add: demo_parquet_def parquet_open_def parquet_close_def exporter_create_def exporter_close_def
        new_parquet_registry_def)
  show ?thesis
    using closed_writer_unknown[OF c, where later = "[ParquetOpen ''f'' [''c'']]" and rows = "[[Some ''x'']]"] c
    by (simp add: Let_def)
qed

end
