(* ===== verification/Spec2Isabelle.thy ===== *)
theory Spec2Isabelle
  imports Shell ManagerSpec ManagerRaces Introspect PgPages Ports Dns Tcpdump Parquet
begin

text \<open>
  The connection core of R-Shell (\<open>src/crates\<close>): three crates that open and keep connections to remote
  machines and databases, \<open>core\<close> (SSH, SFTP, FTP, remote desktop, tools), \<open>pg\<close> (Postgres) and
  \<open>keychain\<close>, with \<open>pg-parquet\<close> for exports. This theory imports all others and holds the properties
  that span components.

  How the parts fit together. An application owns one \<open>ConnectionManager\<close>. It opens a client of some
  protocol, registers it under an id, publishes the status of the id on the event bus, and later takes
  it out and disconnects it. SSH clients authenticate the server against one shared store of host keys;
  on top of an SSH session run commands, interactive terminals, file transfers, the remote tools and
  local forwards. A Postgres pool may dial through such a forward, and gets its password from the
  keychain.

  What stands for what. A \<open>string\<close> is the bytes of a Rust string or vector. A struct is a record and an
  enum a datatype, with prefixed field names. A fallible operation returns \<open>error + result\<close>, an \<open>anyhow\<close>
  error being its message; a panic is \<open>None\<close> around that. What is outside the crates (sockets, servers,
  the SSH, FTP, SFTP and Postgres libraries, files, keychain, clock) is a parameter: a record of
  functions or an argument. Shared objects are numbers into a store. Asynchronous code is a step
  relation whose steps are the windows in which a lock is held, so other tasks run between any two;
  dropping a future abandons a task between two windows, and what the task holds is dropped with it. A
  \<open>select!\<close> is a list of the events it selects.

  Shared theories.
  \<^item> \<open>Prelude\<close>: results, reachability, and the contracts \<open>inv_system\<close> (an invariant of a step relation),
    \<open>codec\<close> (writing and reading back), \<open>protocol_client\<close> (disconnecting), \<open>task_owners\<close> (tasks that hand
    numbered objects to each other and to a store copy none), \<open>task_ledger\<close> (nor lose any: each is held
    once or gone).
  \<^item> \<open>RustStr\<close>: the string operations of Rust's library, UTF-8 decoding, number parsing, columns.
  \<^item> \<open>ShellWords\<close>: how a POSIX shell reads words, and the contract \<open>literal_quoting\<close> of whoever puts an
    argument into a command line. \<open>Handles\<close>: the contract of a registry of 64-bit handles.

  The SSH side (\<open>core/src/ssh\<close>, \<open>core/src\<close>).
  \<^item> \<open>Shell\<close> (\<open>shell.rs\<close>): quoting, PIDs, signals. Quoted arguments come back as they are.
  \<^item> \<open>HostKeys\<close> (\<open>host_keys.rs\<close>, the callback in \<open>mod.rs\<close>): the known-hosts file, \<open>verify\<close>, \<open>trust\<close>,
    \<open>forget\<close>, the decision of the handshake; pinning, durability, and the race of two first uses.
  \<^item> \<open>PtyRegistry\<close> (\<open>pty_registry.rs\<close>): sessions with generations as lock windows; a registered session
    is live, a stale close is ignored, and where the guard fails.
  \<^item> \<open>SshExec\<close> (\<open>mod.rs\<close>): command output, streaming by lines, the tasks of a terminal.
  \<^item> \<open>FileEntry\<close>, \<open>SftpOps\<close> (\<open>file_entry.rs\<close>, \<open>transfer.rs\<close>, \<open>sftp_ops.rs\<close>): listings and transfers in
    chunks with progress and cancellation.
  \<^item> \<open>SshClient\<close> (\<open>mod.rs\<close>, \<open>error.rs\<close>, \<open>sftp_client.rs\<close>): keys, authentication, the handshake, and every
    operation of the SSH and SFTP clients. A session implies an accepted key.
  \<^item> \<open>Tunnel\<close> (\<open>tunnel.rs\<close>): the accept loop and a forwarder on the events they select; what has been
    copied when a forwarder ends. \<open>Ftp\<close> (\<open>ftp_client.rs\<close>), \<open>Desktop\<close> (\<open>desktop_protocol.rs\<close>, \<open>rdp_client.rs\<close>,
    \<open>vnc_client.rs\<close>): the other clients.
  \<^item> \<open>Git\<close>, \<open>Ports\<close>, \<open>Dns\<close>, \<open>Tcpdump\<close> (\<open>tools/\<close>): the command lines, what is read from the output, and
    the registry of captures.

  The Postgres side (\<open>pg/src\<close>, \<open>pg-parquet/src\<close>).
  \<^item> \<open>PgConf\<close> (\<open>config.rs\<close>, \<open>lib.rs\<close>): configuration, TLS, opening one connection.
  \<^item> \<open>SqlLex\<close>, \<open>SqlExec\<close> (\<open>exec.rs\<close>): the splitter of scripts against a grammar of tokens, cursors, pages.
  \<^item> \<open>PgEdit\<close> (\<open>edit.rs\<close>): row edits; their texts are single statements.
  \<^item> \<open>PgPool\<close> (\<open>lib.rs\<close>): leases, slots, eviction, shutdown as lock windows; bounds, ownership, and two
    races. \<open>PgClean\<close>: transactions across the operations of a pool, against the status a server reports;
    the block of a cursor is never forgotten, and what that does not save. \<open>PgPages\<close>: pages read one by
    one are the whole result, against what a server's cursors give. \<open>Introspect\<close> (\<open>introspect.rs\<close>, \<open>lib.rs\<close>): the catalog queries and what is made of the rows.
  \<^item> \<open>Parquet\<close>: columns of a batch, writers by handle.

  Above both.
  \<^item> \<open>Keychain\<close>, \<open>EventBus\<close>: saved credentials, events and their sender.
  \<^item> \<open>Manager\<close> (\<open>connection_manager.rs\<close>): every operation, the terminals included, and what is dropped
    with a registration or an abandoned future. A client behind an \<open>Arc\<close> is a handle; whether the
    manager's reference was the last one is the input \<open>mi_last_ref\<close>. The application uses the clients it
    has looked up at any time (\<open>client_use\<close>), but leaves connecting and disconnecting to the manager.
  \<^item> Under interleaving: \<open>ManagerInv\<close> (registered clients are live), \<open>ManagerOwn\<close> (no client and no tunnel
    leaks, sessions come from accepted keys), \<open>ManagerPty\<close> (registered terminals are live),
    \<open>ManagerRaces\<close> (what two concurrent operations on one id can break, and witnesses).
  \<^item> One after the other: \<open>ManagerStatus\<close> (operations return, the published status is the registry's,
    terminals end with their connection), \<open>ManagerSpec\<close> (a map from ids to protocols that it refines).

  Bounds and fuel. \<open>open_query_depth\<close> recurses at most twice (\<open>SqlExec.open_query_returns\<close>). A pool
  operation has at most eight windows before it holds a connection (\<open>PgPool.run_windows_settles\<close>), a
  manager operation at most eleven in all (\<open>ManagerStatus.operations_finish\<close>), whatever other tasks do. The
  loops over channels and streams are recursions over the messages that arrive. Exit codes,
  generations, handles and the ports of connections keep their width; byte counts and lengths are numbers.

  Not modelled. Builds without all features (the module is the same with parts left out); logging,
  tracing and serialisation attributes; the process-wide \<open>OnceLock\<close>s other than the event sender's;
  recovery from poisoned locks and panics of spawned tasks, which no code in the crates causes; the
  real time behind timeouts, which are outcomes of the parameters; \<open>to_lowercase\<close>
  (a parameter); rustls's verification, reduced to whether it is done; the order in which several values are dropped at
  one point, and the cancellation of a future inside a library call other than a connect; and \<open>core/src/lib.rs\<close>, which only re-exports.
\<close>

section \<open>Command lines built by the tools\<close>



section \<open>A saved password reaches the database driver\<close>

text \<open>
  C29. Saving, resolving and connecting fit together. With a keychain whose writes can be read back, a
  database password saved for an account is what the manager puts in the place of a reference to that
  account, and what the driver is given; no other credential is changed by the save.
\<close>

theorem saved_password_is_used:
  assumes "reads_back api s" and "save_password True api PostgresPassword account secret s = (Inr (), s')"
    and "valid_utf8 secret" and "secret \<noteq> []" and "pg_auth config = PgKeychain account"
  shows "resolve_pg_credentials (\<lambda>k a. load_password True api k a s') config = Inr (config\<lparr>pg_auth := PgPassword secret\<rparr>)
    \<and> (\<exists>d. build_driver_config (config\<lparr>pg_auth := PgPassword secret\<rparr>) = Inr d \<and> drv_password d = Some secret)
    \<and> (\<forall>kind' account'. (kind', account') \<noteq> (PostgresPassword, account)
         \<longrightarrow> load_password True api kind' account' s' = load_password True api kind' account' s)"
  using save_then_load[OF assms(1-3)] assms(4,5)
  by (simp add: resolve_pg_credentials_def build_driver_config_def)

definition list_vault :: "((string \<times> string) \<times> string) list keychain_api" where
  "list_vault = \<lparr>
     kc_get = (\<lambda>sv ac v. case map_of v (sv, ac) of None \<Rightarrow> Inl ItemNotFound | Some x \<Rightarrow> Inr x),
     kc_set = (\<lambda>sv ac x v. (Inr (), AList.update (sv, ac) x v)),
     kc_create = (\<lambda>opts x v. (Inr (), AList.update (io_service opts, io_account opts) x v)),
     kc_delete = (\<lambda>sv ac v. (Inr (), AList.delete (sv, ac) v)),
     kc_search = (\<lambda>sv v. Inr (map (Some \<circ> snd \<circ> fst) (filter (\<lambda>e. fst (fst e) = sv) v)))\<rparr>"

theorem saved_password_is_used_witness:
  "\<exists>s'. save_password True list_vault PostgresPassword ''db'' ''pw'' [] = (Inr (), s')
     \<and> resolve_pg_credentials (\<lambda>k a. load_password True list_vault k a s') ((pg_local ''app'' ''me'')\<lparr>pg_auth := PgKeychain ''db''\<rparr>)
         = Inr ((pg_local ''app'' ''me'')\<lparr>pg_auth := PgPassword ''pw''\<rparr>)"
proof -
  have "reads_back list_vault []" by (auto simp: reads_back_def list_vault_def update_conv')
  moreover have s: "save_password True list_vault PostgresPassword ''db'' ''pw'' [] =
      (Inr (), [((service PostgresPassword, ''db''), ''pw'')])"
    by (simp add: save_password_def list_vault_def create_options_def)
  moreover have "valid_utf8 ''pw''" by (rule valid_utf8_ascii) (simp add: is_ascii_def byte_def)
  ultimately show ?thesis
    using saved_password_is_used[of list_vault "[]" "''db''" "''pw''" _ "(pg_local ''app'' ''me'')\<lparr>pg_auth := PgKeychain ''db''\<rparr>"]
    by (intro exI[of _ "[((service PostgresPassword, ''db''), ''pw'')]"]) simp
qed

end
